(* ===== verification/Prelude.thy ===== *)
theory Prelude
  imports Main "HOL-Library.Sublist"
begin

text \<open>
  Shared vocabulary of the development: the JavaScript run-time behaviour the extension
  relies on (\<open>String.prototype.indexOf\<close>, \<open>Number.prototype.toString\<close>,
  \<open>parseInt\<close>, \<open>Math.ceil\<close> of a quotient), the outcome of a handler that may throw, and
  the generic lemmas on lists, strings and numbers that the component theories share.
\<close>

named_theorems model_defs "definitions of the model unfolded by component proofs"

section \<open>Handlers that may throw\<close>

text \<open>
  A JavaScript handler that throws leaves behind every mutation it made before the throw;
  the host (the editor) catches and logs the exception. So an outcome is the state reached
  together with the exception, if any.
\<close>

datatype error = TypeError | RangeError

datatype 'a res = Ok 'a | Exc error 'a

primrec state_of :: "'a res \<Rightarrow> 'a" where
  "state_of (Ok a) = a"
| "state_of (Exc e a) = a"

primrec bind_res :: "'a res \<Rightarrow> ('a \<Rightarrow> 'a res) \<Rightarrow> 'a res" where
  "bind_res (Ok a) f = f a"
| "bind_res (Exc e a) f = Exc e a"

primrec is_ok :: "'a res \<Rightarrow> bool" where
  "is_ok (Ok a) = True"
| "is_ok (Exc e a) = False"

lemma bind_res_Ok_iff [simp]:
  "bind_res r f = Ok b \<longleftrightarrow> (\<exists>a. r = Ok a \<and> f a = Ok b)"
  by (cases r) auto

lemma is_ok_bind_res [simp]: "is_ok (bind_res r f) \<longleftrightarrow> is_ok r \<and> is_ok (f (state_of r))"
  by (cases r) auto

lemma state_of_bind_res_cases:
  "state_of (bind_res r f) = (case r of Ok a \<Rightarrow> state_of (f a) | Exc e a \<Rightarrow> a)"
  by (cases r) auto

lemma inv_bind_res:
  "P (state_of r) \<Longrightarrow> (\<And>a. P a \<Longrightarrow> P (state_of (f a))) \<Longrightarrow> P (state_of (bind_res r f))"
  by (cases r) auto

lemma is_ok_iff: "is_ok r \<longleftrightarrow> r = Ok (state_of r)"
  by (cases r) auto

section \<open>Strings\<close>

text \<open>\<open>hay.indexOf(needle)\<close>: the first index where \<open>needle\<close> occurs, or -1.\<close>

fun index_of_from :: "string \<Rightarrow> string \<Rightarrow> nat \<Rightarrow> int" where
  "index_of_from hay needle i =
     (if prefix needle hay then int i
      else case hay of [] \<Rightarrow> -1 | _ # hs \<Rightarrow> index_of_from hs needle (Suc i))"

definition js_indexOf :: "string \<Rightarrow> string \<Rightarrow> int" where
  "js_indexOf hay needle = index_of_from hay needle 0"

declare index_of_from.simps [simp del]

lemma index_of_from_Nil [simp]:
  "index_of_from [] needle i = (if needle = [] then int i else -1)"
  by (simp add: index_of_from.simps)

lemma index_of_from_Cons [simp]:
  "index_of_from (h # hs) needle i =
     (if prefix needle (h # hs) then int i else index_of_from hs needle (Suc i))"
  by (simp add: index_of_from.simps [of "h # hs"])

lemma index_of_from_found:
  "index_of_from hay needle i \<noteq> -1 \<longleftrightarrow> sublist needle hay"
  by (induction hay arbitrary: i) (auto simp: prefix_imp_sublist sublist_Cons_right)

lemma js_indexOf_found [simp]: "js_indexOf hay needle \<noteq> -1 \<longleftrightarrow> sublist needle hay"
  by (simp add: js_indexOf_def index_of_from_found)

text \<open>\<open>xs.join(sep)\<close>.\<close>

fun js_join :: "string \<Rightarrow> string list \<Rightarrow> string" where
  "js_join sep [] = []"
| "js_join sep [x] = x"
| "js_join sep (x # xs) = x @ sep @ js_join sep xs"

section \<open>Numbers\<close>

text \<open>\<open>Math.ceil(a / b)\<close> for a positive divisor.\<close>

definition ceil_div :: "nat \<Rightarrow> nat \<Rightarrow> nat" where
  "ceil_div a b = (a + b - 1) div b"

lemma less_ceil_div_iff:
  assumes "0 < b" shows "i < ceil_div a b \<longleftrightarrow> i * b < a"
proof -
  have "i < (a + b - 1) div b \<longleftrightarrow> (i + 1) * b \<le> a + b - 1"
    using assms by (metis Suc_eq_plus1 less_eq_div_iff_mult_less_eq Suc_le_eq)
  also have "\<dots> \<longleftrightarrow> i * b < a" using assms by (auto simp: algebra_simps)
  finally show ?thesis by (simp add: ceil_div_def)
qed

text \<open>\<open>n.toString()\<close> for a natural number: its decimal digits.\<close>

definition digit_char :: "nat \<Rightarrow> char" where
  "digit_char d = char_of (48 + d)"

fun string_of_nat :: "nat \<Rightarrow> string" where
  "string_of_nat n =
     (if n < 10 then [digit_char n] else string_of_nat (n div 10) @ [digit_char (n mod 10)])"

declare string_of_nat.simps [simp del]

text \<open>
  \<open>parseInt(s)\<close> (radix 10): leading blanks skipped, an optional sign, then the longest run
  of decimal digits; \<open>None\<close> stands for \<open>NaN\<close> when there is no digit.
\<close>

definition js_is_digit :: "char \<Rightarrow> bool" where
  "js_is_digit c \<longleftrightarrow> 48 \<le> (of_char c :: nat) \<and> (of_char c :: nat) \<le> 57"

definition digit_val :: "char \<Rightarrow> nat" where
  "digit_val c = of_char c - 48"

definition digits_val :: "string \<Rightarrow> nat" where
  "digits_val ds = foldl (\<lambda>acc c. 10 * acc + digit_val c) 0 ds"

definition parse_int :: "string \<Rightarrow> int option" where
  "parse_int s =
     (let s1 = dropWhile (\<lambda>c. c = CHR '' '') s;
          (sgn, s2) = (case s1 of
                         c # r \<Rightarrow> if c = CHR ''-'' then (-1, r)
                                  else if c = CHR ''+'' then (1, r) else (1::int, s1)
                       | [] \<Rightarrow> (1, s1));
          ds = takeWhile js_is_digit s2
      in if ds = [] then None else Some (sgn * int (digits_val ds)))"

lemma digit_char_props [simp]:
  assumes "d < 10"
  shows "js_is_digit (digit_char d)" and "digit_val (digit_char d) = d"
  using assms by (simp_all add: digit_char_def js_is_digit_def digit_val_def)

lemma string_of_nat_digits: "\<forall>c \<in> set (string_of_nat n). js_is_digit c"
  by (induction n rule: string_of_nat.induct) (subst string_of_nat.simps, auto)

lemma string_of_nat_nonempty: "string_of_nat n \<noteq> []"
  by (subst string_of_nat.simps) simp

lemma digits_val_string_of_nat: "digits_val (string_of_nat n) = n"
proof (induction n rule: string_of_nat.induct)
  case (1 n)
  then show ?case
    by (subst string_of_nat.simps) (simp add: digits_val_def)
qed

lemma not_blank_or_sign:
  assumes "js_is_digit c" shows "c \<noteq> CHR '' ''" "c \<noteq> CHR ''-''" "c \<noteq> CHR ''+''"
  using assms by (auto simp: js_is_digit_def)

lemma parse_int_string_of_nat [simp]: "parse_int (string_of_nat n) = Some (int n)"
proof -
  obtain c cs where cs: "string_of_nat n = c # cs"
    using string_of_nat_nonempty by (cases "string_of_nat n") auto
  have dig: "\<forall>x \<in> set (c # cs). js_is_digit x"
    using string_of_nat_digits [of n] cs by simp
  then have "c \<noteq> CHR '' ''" "c \<noteq> CHR ''-''" "c \<noteq> CHR ''+''"
    using not_blank_or_sign by auto
  moreover have "takeWhile js_is_digit (c # cs) = c # cs"
    using dig by (simp add: takeWhile_eq_all_conv)
  ultimately show ?thesis
    using digits_val_string_of_nat [of n] by (simp add: parse_int_def cs)
qed

end
