(* ===== verification/Dictionary.thy ===== *)
theory Dictionary
  imports Prelude
begin

text \<open>
  The word store: the dictionaries of \<open>src/resource/dictionary\<close> with their word files
  (\<open>getDictFile\<close> of \<open>src/utils\<close>), and the slicing of a dictionary's word list into
  chapters of \<open>chapterLength\<close> words that \<open>PluginState\<close> performs. None of this code is
  under \<open>src/\<close>: it is modelled from the specification (sections 2 and 3). A dictionary is
  identified by its key; the library is the list of (key, words) pairs in the order the
  quick pick of \<open>qwerty-learner.changeDict\<close> offers them.
\<close>

record word =
  name :: string
  word_trans :: "string list"

type_synonym library = "(string \<times> word list) list"

definition getDictFile :: "library \<Rightarrow> string \<Rightarrow> word list" where
  "getDictFile lib key = (case map_of lib key of Some ws \<Rightarrow> ws | None \<Rightarrow> [])"

text \<open>\<open>words.slice(chapter * chapterLength, (chapter + 1) * chapterLength)\<close>.\<close>

definition chapter_slice :: "word list \<Rightarrow> nat \<Rightarrow> nat \<Rightarrow> word list" where
  "chapter_slice ws cl c = take cl (drop (c * cl) ws)"

text \<open>\<open>Math.ceil(words.length / chapterLength)\<close>.\<close>

definition chapter_count :: "word list \<Rightarrow> nat \<Rightarrow> nat" where
  "chapter_count ws cl = ceil_div (length ws) cl"

definition library_wf :: "library \<Rightarrow> bool" where
  "library_wf lib \<longleftrightarrow> list_all (\<lambda>(k, ws). ws \<noteq> []) lib"

lemma length_chapter_slice:
  "length (chapter_slice ws cl c) = min cl (length ws - c * cl)"
  by (simp add: chapter_slice_def)

lemma chapter_count_less_iff:
  "0 < cl \<Longrightarrow> c < chapter_count ws cl \<longleftrightarrow> c * cl < length ws"
  by (simp add: chapter_count_def less_ceil_div_iff)

lemma chapter_slice_nth:
  "i < length (chapter_slice ws cl c) \<Longrightarrow> chapter_slice ws cl c ! i = ws ! (c * cl + i)"
  by (auto simp: chapter_slice_def intro!: nth_drop)

lemma index_in_chapter:
  "i < length (chapter_slice ws cl c) \<longleftrightarrow> i < cl \<and> c * cl + i < length ws"
  by (auto simp: length_chapter_slice)

lemma getDictFile_wf:
  "library_wf lib \<Longrightarrow> (key, ws) \<in> set lib \<Longrightarrow> getDictFile lib key \<noteq> []"
  unfolding library_wf_def getDictFile_def
  by (auto simp: list_all_iff dest!: map_of_SomeD split: option.split
           dest: weak_map_of_SomeI)

lemma take_concat_chapters:
  "0 < cl \<Longrightarrow> concat (map (chapter_slice ws cl) [0..<n]) = take (n * cl) ws"
proof (induction n)
  case 0
  then show ?case by simp
next
  case (Suc n)
  have "take (Suc n * cl) ws = take (n * cl + cl) ws" by (simp add: add.commute)
  also have "\<dots> = take (n * cl) ws @ take cl (drop (n * cl) ws)" by (rule take_add)
  finally show ?case using Suc by (simp add: chapter_slice_def)
qed

end
