(* ===== verification/Comparator.thy ===== *)
theory Comparator
  imports Prelude
begin

text \<open>
  The comparator \<open>compareWord(word, input)\<close> of \<open>src/utils\<close> (not part of the sources under
  \<open>src/\<close>: modelled from the specification, section 4.1, and from how \<open>src/index.ts\<close> reads
  its result). It walks the target word and the typed prefix in step and answers with a
  numeric code: \<open>-2\<close> when the word is complete, \<open>-1\<close> when the input is a correct partial
  prefix, and the index \<open>i \<ge> 0\<close> of the first mismatching character otherwise. The
  comparison is case-insensitive (ASCII letters).

  The abstract contract is \<open>compare_spec\<close> over the three outcomes of the specification;
  the refinement theorem below shows the coded comparator implements it. The comparator is
  written by structural recursion on the word (\<open>compare_from\<close>), so it is total by
  construction; the other theories use it through \<open>compareWord\<close>.
\<close>

section \<open>The comparator\<close>

definition lower_char :: "char \<Rightarrow> char" where
  "lower_char c = (let n = (of_char c :: nat) in if 65 \<le> n \<and> n \<le> 90 then char_of (n + 32) else c)"

definition same_char :: "char \<Rightarrow> char \<Rightarrow> bool" where
  "same_char a b \<longleftrightarrow> lower_char a = lower_char b"

fun compare_from :: "nat \<Rightarrow> string \<Rightarrow> string \<Rightarrow> int" where
  "compare_from i [] input = -2"
| "compare_from i (w # ws) [] = -1"
| "compare_from i (w # ws) (c # cs) = (if same_char w c then compare_from (Suc i) ws cs else int i)"

definition compareWord :: "string \<Rightarrow> string \<Rightarrow> int" where
  "compareWord word input = compare_from 0 word input"

section \<open>The contract\<close>

datatype cmp_result = Continue | Complete | Mismatch nat

text \<open>How \<open>src/index.ts\<close> reads a code: \<open>-2\<close> complete, \<open>\<ge> 0\<close> a mismatch, else continue.\<close>

definition decode_cmp :: "int \<Rightarrow> cmp_result" where
  "decode_cmp r = (if r = -2 then Complete else if 0 \<le> r then Mismatch (nat r) else Continue)"

fun common_prefix_len :: "string \<Rightarrow> string \<Rightarrow> nat" where
  "common_prefix_len (a # as) (b # bs) = (if a = b then Suc (common_prefix_len as bs) else 0)"
| "common_prefix_len _ _ = 0"

definition compare_spec :: "string \<Rightarrow> string \<Rightarrow> cmp_result" where
  "compare_spec word input =
     (let w = map lower_char word; i = map lower_char input in
      if prefix w i then Complete
      else if prefix i w then Continue
      else Mismatch (common_prefix_len w i))"

lemma compare_from_spec:
  "compare_from k word input =
     (case compare_spec word input of
        Complete \<Rightarrow> -2 | Continue \<Rightarrow> -1 | Mismatch j \<Rightarrow> int (k + j))"
  by (induction k word input rule: compare_from.induct)
     (auto simp: compare_spec_def same_char_def Let_def split: cmp_result.splits)

lemma common_prefix_len_less:
  "\<not> prefix a b \<Longrightarrow> common_prefix_len a b < length a"
  by (induction a b rule: common_prefix_len.induct) auto

lemma common_prefix_len_less2:
  "\<not> prefix a b \<Longrightarrow> \<not> prefix b a \<Longrightarrow> common_prefix_len a b < length b"
  by (induction a b rule: common_prefix_len.induct) auto

lemma compare_from_take:
  "k \<le> length w \<Longrightarrow> compare_from i w (take k w) = (if k < length w then -1 else -2)"
proof (induction k arbitrary: i w)
  case 0
  then show ?case by (cases w) auto
next
  case (Suc k)
  then show ?case by (cases w) (auto simp: same_char_def)
qed

lemma compare_from_mismatch:
  "k < length w \<Longrightarrow> \<not> same_char (w ! k) c \<Longrightarrow> compare_from i w (take k w @ [c]) = int (i + k)"
proof (induction k arbitrary: i w)
  case 0
  then show ?case by (cases w) auto
next
  case (Suc k)
  then show ?case by (cases w) (auto simp: same_char_def)
qed

text \<open>
  C13: Read the way \<open>src/index.ts\<close> reads it, the coded comparator implements the
  three-outcome contract of the specification: complete when the (case-folded) word is a
  prefix of the input, continue when the input is a proper prefix of the word, otherwise a
  mismatch at the length of their longest common prefix.
\<close>

theorem compareWord_refines_spec: "decode_cmp (compareWord word input) = compare_spec word input"
  by (simp add: compareWord_def compare_from_spec decode_cmp_def split: cmp_result.split)

text \<open>Every code is \<open>-2\<close>, \<open>-1\<close> or an index into both the word and the input.\<close>

lemma compareWord_bounds:
  "compareWord word input = -2 \<or> compareWord word input = -1 \<or>
   (0 \<le> compareWord word input \<and> compareWord word input < int (length word)
    \<and> compareWord word input < int (length input))"
  using common_prefix_len_less [of "map lower_char word" "map lower_char input"]
    common_prefix_len_less2 [of "map lower_char word" "map lower_char input"]
  by (simp add: compareWord_def compare_from_spec compare_spec_def Let_def)

text \<open>
  C25: A mismatch reported to the document listener is the index of a character that exists
  in both the target word and the typed input.
\<close>

theorem mismatch_index_in_bounds:
  assumes "decode_cmp (compareWord word input) = Mismatch k"
  shows "k < length word \<and> k < length input"
  using assms compareWord_bounds [of word input] by (auto simp: decode_cmp_def split: if_splits)

theorem mismatch_index_in_bounds_witness:
  "decode_cmp (compareWord ''cat'' ''cx'') = Mismatch 1 \<and> 1 < length ''cat'' \<and> 1 < length ''cx''"
proof -
  have m: "decode_cmp (compareWord ''cat'' ''cx'') = Mismatch 1"
    by (simp add: compareWord_def decode_cmp_def same_char_def lower_char_def)
  show ?thesis using mismatch_index_in_bounds [OF m] m by simp
qed

lemma compareWord_take [simp]:
  "k \<le> length w \<Longrightarrow> compareWord w (take k w) = (if k < length w then -1 else -2)"
  by (simp add: compareWord_def compare_from_take)

lemma compareWord_mismatch:
  "k < length w \<Longrightarrow> \<not> same_char (w ! k) c \<Longrightarrow> compareWord w (take k w @ [c]) = int k"
  using compare_from_mismatch [of k w c 0] by (simp add: compareWord_def)

end
