(* ===== verification/PluginState.thy ===== *)
theory PluginState
  imports Dictionary Comparator
begin

text \<open>
  The session object \<open>PluginState\<close> of \<open>src/utils/PluginState\<close> (outside \<open>src/\<close>: modelled
  from the specification, sections 3 and 4.2, and from every use \<open>src/index.ts\<close> makes of
  it). Its fields are the record \<open>plugin_state\<close>; each method or setter is one definition
  returning the updated state; a getter that reads \<open>currentWord.name\<close> of a word that does
  not exist (JavaScript \<open>undefined\<close>, a \<open>TypeError\<close>) returns \<open>None\<close>.

  The position within a dictionary is the pair (\<open>chapterIndex\<close> for the field \<open>chapter\<close>, \<open>order\<close>). Its abstraction is
  the global index \<open>position\<close> into the dictionary's word list: \<open>finishWord\<close> and
  \<open>nextWord\<close> refine "add one modulo the dictionary size", \<open>prevWord\<close> refines
  "subtract one modulo the size", so every word of a dictionary is visited in turn and
  navigation never leaves the dictionary (\<open>plugin_inv\<close>).
\<close>

section \<open>State\<close>

record plugin_state =
  dictionaries :: library
  dictKey :: string
  chapterIndex :: nat
  order :: nat
  chapterLength :: nat
  currentInput :: string
  hasWrong :: bool
  isStart :: bool
  wordVisibility :: bool
  readOnlyMode :: bool
  voiceLock :: bool
  readOnlyIntervalId :: "nat option"
  placeholder :: string

definition dictWords :: "plugin_state \<Rightarrow> word list" where
  "dictWords s = getDictFile (dictionaries s) (dictKey s)"

definition totalChapters :: "plugin_state \<Rightarrow> nat" where
  "totalChapters s = chapter_count (dictWords s) (chapterLength s)"

definition chapterWords :: "plugin_state \<Rightarrow> word list" where
  "chapterWords s = chapter_slice (dictWords s) (chapterLength s) (chapterIndex s)"

definition currentWord :: "plugin_state \<Rightarrow> word option" where
  "currentWord s = (if order s < length (chapterWords s) then Some (chapterWords s ! order s) else None)"

section \<open>Methods\<close>

definition reset_input :: "plugin_state \<Rightarrow> plugin_state" where
  "reset_input s = s\<lparr>currentInput := [], hasWrong := False\<rparr>"

definition finishWord :: "plugin_state \<Rightarrow> plugin_state" where
  "finishWord s =
     (if Suc (order s) < length (chapterWords s) then (reset_input s)\<lparr>order := Suc (order s)\<rparr>
      else (reset_input s)\<lparr>order := 0,
             chapterIndex := (if Suc (chapterIndex s) < totalChapters s then Suc (chapterIndex s) else 0)\<rparr>)"

definition nextWord :: "plugin_state \<Rightarrow> plugin_state" where
  "nextWord s = finishWord s"

definition prevWord :: "plugin_state \<Rightarrow> plugin_state" where
  "prevWord s =
     (if 0 < order s then (reset_input s)\<lparr>order := order s - 1\<rparr>
      else let c = (if 0 < chapterIndex s then chapterIndex s - 1 else totalChapters s - 1)
           in (reset_input s)\<lparr>chapterIndex := c,
                order := length (chapter_slice (dictWords s) (chapterLength s) c) - 1\<rparr>)"

definition setChapter :: "nat \<Rightarrow> plugin_state \<Rightarrow> plugin_state" where
  "setChapter c s = (reset_input s)\<lparr>chapterIndex := c, order := 0\<rparr>"

definition setDictKey :: "string \<Rightarrow> plugin_state \<Rightarrow> plugin_state" where
  "setDictKey k s = (reset_input s)\<lparr>dictKey := k, chapterIndex := 0, order := 0\<rparr>"

definition setChapterLength :: "nat \<Rightarrow> plugin_state \<Rightarrow> plugin_state" where
  "setChapterLength n s = (reset_input s)\<lparr>chapterLength := n, chapterIndex := 0, order := 0\<rparr>"

definition wrongInput :: "plugin_state \<Rightarrow> plugin_state" where
  "wrongInput s = s\<lparr>hasWrong := True\<rparr>"

definition clearWrong :: "plugin_state \<Rightarrow> plugin_state" where
  "clearWrong s = s\<lparr>hasWrong := False, currentInput := []\<rparr>"

text \<open>\<open>getCurrentInputBarContent(text)\<close>: appends the typed text and returns what the input bar shows.\<close>

definition getCurrentInputBarContent :: "plugin_state \<Rightarrow> string \<Rightarrow> plugin_state \<times> string" where
  "getCurrentInputBarContent s text =
     (s\<lparr>currentInput := currentInput s @ text\<rparr>, currentInput s @ text)"

definition compareResult :: "plugin_state \<Rightarrow> int option" where
  "compareResult s = map_option (\<lambda>w. compareWord (name w) (currentInput s)) (currentWord s)"

definition shouldPlayVoice :: "plugin_state \<Rightarrow> bool" where
  "shouldPlayVoice s \<longleftrightarrow> \<not> voiceLock s"

definition getInitialWordBarContent :: "plugin_state \<Rightarrow> string option" where
  "getInitialWordBarContent s =
     map_option (\<lambda>w. if wordVisibility s then name w
                     else concat (replicate (length (name w)) (placeholder s))) (currentWord s)"

definition getInitialTransBarContent :: "plugin_state \<Rightarrow> string option" where
  "getInitialTransBarContent s =
     map_option (\<lambda>w. (js_join ''; '' (word_trans w))) (currentWord s)"

definition getInitialInputBarContent :: "plugin_state \<Rightarrow> string" where
  "getInitialInputBarContent s = currentInput s"

section \<open>The invariant and the position abstraction\<close>


definition position :: "plugin_state \<Rightarrow> nat" where
  "position s = chapterIndex s * chapterLength s + order s"

definition plugin_inv :: "plugin_state \<Rightarrow> bool" where
  "plugin_inv s \<longleftrightarrow> library_wf (dictionaries s) \<and> dictKey s \<in> set (map fst (dictionaries s))
     \<and> 0 < chapterLength s \<and> chapterIndex s < totalChapters s \<and> order s < length (chapterWords s)"

definition dict_ok :: "plugin_state \<Rightarrow> bool" where
  "dict_ok s \<longleftrightarrow> library_wf (dictionaries s) \<and> dictKey s \<in> set (map fst (dictionaries s))
     \<and> 0 < chapterLength s"

lemma plugin_inv_position:
  "plugin_inv s \<longleftrightarrow> dict_ok s \<and> order s < chapterLength s \<and> position s < length (dictWords s)"
proof -
  have "c * cl \<le> c * cl + k" for c cl k :: nat by simp
  then show ?thesis
    unfolding plugin_inv_def dict_ok_def position_def totalChapters_def chapterWords_def
    by (auto simp: index_in_chapter chapter_count_less_iff)
qed

lemma finishWord_position:
  assumes "plugin_inv s"
  shows "position (finishWord s) = Suc (position s) mod length (dictWords s)"
proof -
  let ?n = "length (dictWords s)" and ?cl = "chapterLength s"
    and ?c = "chapterIndex s" and ?o = "order s"
  have o: "?o < ?cl" and p: "?c * ?cl + ?o < ?n" and cl: "0 < ?cl"
    using assms by (auto simp: plugin_inv_position position_def dict_ok_def)
  have len: "length (chapterWords s) = min ?cl (?n - ?c * ?cl)"
    by (simp add: chapterWords_def length_chapter_slice)
  have tot: "Suc ?c < totalChapters s \<longleftrightarrow> ?c * ?cl + ?cl < ?n"
    using cl by (simp add: totalChapters_def chapter_count_less_iff add.commute)
  show ?thesis
  proof (cases "Suc ?o < length (chapterWords s)")
    case True
    with len p have "Suc (?c * ?cl + ?o) < ?n" by auto
    with True show ?thesis by (simp add: finishWord_def position_def reset_input_def)
  next
    case False
    show ?thesis
    proof (cases "Suc ?c < totalChapters s")
      case True
      with False o len tot have "Suc (?c * ?cl + ?o) = ?c * ?cl + ?cl" by auto
      with True False tot show ?thesis by (simp add: finishWord_def position_def reset_input_def)
    next
      case nxt: False
      with False o p len tot have "Suc (?c * ?cl + ?o) = ?n" by auto
      with nxt False show ?thesis by (simp add: finishWord_def position_def reset_input_def)
    qed
  qed
qed


lemma add_pred_mod:
  fixes p n :: nat
  assumes "0 < p" "p < n" shows "(p + n - 1) mod n = p - 1"
proof -
  have "p + n - 1 = (p - 1) + n" using assms by simp
  then have "(p + n - 1) mod n = (p - 1) mod n" by (simp only: mod_add_self2)
  then show ?thesis using assms by simp
qed

lemma prevWord_position:
  assumes "plugin_inv s"
  shows "position (prevWord s) = (position s + length (dictWords s) - 1) mod length (dictWords s)"
proof -
  let ?n = "length (dictWords s)" and ?cl = "chapterLength s"
    and ?c = "chapterIndex s" and ?o = "order s" and ?T = "totalChapters s"
  have o: "?o < ?cl" and p: "position s < ?n" and cl: "0 < ?cl"
    using assms by (auto simp: plugin_inv_position dict_ok_def)
  have lenc: "length (chapter_slice (dictWords s) ?cl c) = min ?cl (?n - c * ?cl)" for c
    by (simp add: length_chapter_slice)
  have step: "position (prevWord s) = (if 0 < position s then position s - 1 else ?n - 1)"
  proof (cases "0 < ?o")
    case True
    then show ?thesis by (simp add: prevWord_def position_def reset_input_def)
  next
    case o0: False
    show ?thesis
    proof (cases "0 < ?c")
      case True
      then obtain d where d: "?c = Suc d" by (cases ?c) auto
      with p o0 have "d * ?cl + ?cl < ?n" by (simp add: position_def add.commute)
      then have "length (chapter_slice (dictWords s) ?cl d) = ?cl" by (simp add: lenc)
      with o0 True d cl show ?thesis
        by (simp add: prevWord_def position_def reset_input_def)
    next
      case c0: False
      have "0 < ?T" using assms by (auto simp: plugin_inv_def)
      then obtain d where T: "?T = Suc d" by (cases ?T) auto
      have "d * ?cl < ?n" using cl T by (simp add: totalChapters_def chapter_count_less_iff [symmetric])
      moreover have "\<not> ?n > d * ?cl + ?cl"
        using cl T chapter_count_less_iff [of ?cl "Suc d" "dictWords s"]
        by (simp add: totalChapters_def add.commute)
      ultimately have "length (chapter_slice (dictWords s) ?cl d) = ?n - d * ?cl" by (simp add: lenc)
      with o0 c0 T \<open>d * ?cl < ?n\<close> show ?thesis
        by (simp add: prevWord_def position_def reset_input_def)
    qed
  qed
  show ?thesis
    using step p add_pred_mod [of "position s" ?n] by auto
qed



lemma position_unique:
  fixes c c' k k' cl :: nat
  assumes "k < cl" "k' < cl" "c * cl + k = c' * cl + k'"
  shows "c = c' \<and> k = k'"
proof -
  have "(c * cl + k) div cl = c" "(c * cl + k) mod cl = k"
    using assms(1) by (simp_all add: add.commute)
  moreover have "(c' * cl + k') div cl = c'" "(c' * cl + k') mod cl = k'"
    using assms(2) by (simp_all add: add.commute)
  ultimately show ?thesis using assms(3) by metis
qed

definition move_to :: "nat \<Rightarrow> nat \<Rightarrow> plugin_state \<Rightarrow> plugin_state" where
  "move_to c k s = (reset_input s)\<lparr>chapterIndex := c, order := k\<rparr>"

lemma move_to_move_to [simp]: "move_to c k (move_to c' k' s) = move_to c k s"
  by (simp add: move_to_def reset_input_def)

lemma move_to_same [simp]: "move_to (chapterIndex s) (order s) s = reset_input s"
  by (simp add: move_to_def reset_input_def)

lemma move_to_sel [simp]:
  "chapterIndex (move_to c k s) = c" "order (move_to c k s) = k"
  "dictWords (move_to c k s) = dictWords s" "chapterLength (move_to c k s) = chapterLength s"
  "dict_ok (move_to c k s) = dict_ok s"
  by (simp_all add: move_to_def reset_input_def dictWords_def dict_ok_def)

lemma finishWord_move_to:
  "finishWord s = move_to (chapterIndex (finishWord s)) (order (finishWord s)) s"
  by (simp add: finishWord_def move_to_def reset_input_def)

lemma prevWord_move_to:
  "prevWord s = move_to (chapterIndex (prevWord s)) (order (prevWord s)) s"
  by (simp add: prevWord_def move_to_def reset_input_def Let_def)


lemma finishWord_order_bound:
  "plugin_inv s \<Longrightarrow> order (finishWord s) < chapterLength s"
  by (auto simp: finishWord_def reset_input_def plugin_inv_def chapterWords_def length_chapter_slice)

lemma prevWord_order_bound:
  "plugin_inv s \<Longrightarrow> order (prevWord s) < chapterLength s"
  by (auto simp: prevWord_def reset_input_def plugin_inv_position dict_ok_def Let_def length_chapter_slice)


lemma move_to_inv:
  assumes "plugin_inv s" "k < chapterLength s" "c * chapterLength s + k < length (dictWords s)"
  shows "plugin_inv (move_to c k s)"
  using assms by (simp add: plugin_inv_position position_def)

lemma moved_inv:
  assumes inv: "plugin_inv s" and eq: "t = move_to (chapterIndex t) (order t) s"
    and k: "order t < chapterLength s" and p: "position t < length (dictWords s)"
  shows "plugin_inv t"
proof -
  have "chapterLength t = chapterLength s" by (subst eq) simp
  then have "chapterIndex t * chapterLength s + order t < length (dictWords s)"
    using p by (simp add: position_def)
  then have "plugin_inv (move_to (chapterIndex t) (order t) s)"
    using move_to_inv [OF inv k] by simp
  with eq show ?thesis by simp
qed

theorem finishWord_inv: "plugin_inv s \<Longrightarrow> plugin_inv (finishWord s)"
proof -
  assume inv: "plugin_inv s"
  then have "0 < length (dictWords s)" by (auto simp: plugin_inv_position)
  then have "position (finishWord s) < length (dictWords s)"
    using finishWord_position [OF inv] by simp
  then show ?thesis
    using moved_inv [OF inv finishWord_move_to finishWord_order_bound [OF inv]] by simp
qed

theorem prevWord_inv: "plugin_inv s \<Longrightarrow> plugin_inv (prevWord s)"
proof -
  assume inv: "plugin_inv s"
  then have "0 < length (dictWords s)" by (auto simp: plugin_inv_position)
  then have "position (prevWord s) < length (dictWords s)"
    using prevWord_position [OF inv] by simp
  then show ?thesis
    using moved_inv [OF inv prevWord_move_to prevWord_order_bound [OF inv]] by simp
qed

lemma mod_succ_pred:
  fixes p n :: nat assumes "p < n" shows "(Suc p mod n + n - 1) mod n = p"
proof (cases "Suc p < n")
  case True
  then have "Suc p mod n + n - 1 = p + n" by simp
  then show ?thesis using assms by simp
next
  case False
  with assms have "Suc p = n" by simp
  then show ?thesis by simp
qed

lemma mod_pred_succ:
  fixes p n :: nat assumes "p < n" shows "Suc ((p + n - 1) mod n) mod n = p"
proof (cases "0 < p")
  case True
  with assms add_pred_mod [of p n] show ?thesis by simp
next
  case False
  with assms have "(p + n - 1) mod n = n - 1" by simp
  with assms False show ?thesis by simp
qed

lemma same_position_reset:
  assumes inv: "plugin_inv s" and eq: "r = move_to (chapterIndex r) (order r) s"
    and k: "order r < chapterLength s" and p: "position r = position s"
  shows "r = reset_input s"
proof -
  have "chapterLength r = chapterLength s" by (subst eq) simp
  with p have "chapterIndex r * chapterLength s + order r = chapterIndex s * chapterLength s + order s"
    by (simp add: position_def)
  moreover have "order s < chapterLength s" using inv by (simp add: plugin_inv_position)
  ultimately have "chapterIndex r = chapterIndex s \<and> order r = order s"
    using position_unique k by blast
  with eq show ?thesis by simp
qed

theorem prevWord_nextWord: "plugin_inv s \<Longrightarrow> prevWord (nextWord s) = reset_input s"
proof -
  assume inv: "plugin_inv s"
  let ?t = "finishWord s" and ?n = "length (dictWords s)"
  have invt: "plugin_inv ?t" using inv by (rule finishWord_inv)
  have nt: "dictWords ?t = dictWords s" "chapterLength ?t = chapterLength s"
    by (subst finishWord_move_to, simp)+
  have p: "position s < ?n" using inv by (simp add: plugin_inv_position)
  have "position (prevWord ?t) = position s"
    using prevWord_position [OF invt] finishWord_position [OF inv] nt mod_succ_pred [OF p] by simp
  moreover have "prevWord ?t = move_to (chapterIndex (prevWord ?t)) (order (prevWord ?t)) s"
    using prevWord_move_to [of ?t] finishWord_move_to [of s] by (metis move_to_move_to)
  moreover have "order (prevWord ?t) < chapterLength s"
    using prevWord_order_bound [OF invt] nt by simp
  ultimately show ?thesis
    using same_position_reset [OF inv] by (simp add: nextWord_def)
qed

theorem nextWord_prevWord: "plugin_inv s \<Longrightarrow> nextWord (prevWord s) = reset_input s"
proof -
  assume inv: "plugin_inv s"
  let ?t = "prevWord s" and ?n = "length (dictWords s)"
  have invt: "plugin_inv ?t" using inv by (rule prevWord_inv)
  have nt: "dictWords ?t = dictWords s" "chapterLength ?t = chapterLength s"
    by (subst prevWord_move_to, simp)+
  have p: "position s < ?n" using inv by (simp add: plugin_inv_position)
  have "position (finishWord ?t) = position s"
    using finishWord_position [OF invt] prevWord_position [OF inv] nt mod_pred_succ [OF p] by simp
  moreover have "finishWord ?t = move_to (chapterIndex (finishWord ?t)) (order (finishWord ?t)) s"
    using finishWord_move_to [of ?t] prevWord_move_to [of s] by (metis move_to_move_to)
  moreover have "order (finishWord ?t) < chapterLength s"
    using finishWord_order_bound [OF invt] nt by simp
  ultimately show ?thesis
    using same_position_reset [OF inv] by (simp add: nextWord_def)
qed

text \<open>The derived getters read only the dictionary, the position and the chapter length.\<close>

lemma getters_ignore_flags [simp]:
  "dictWords (s\<lparr>voiceLock := x0\<rparr>) = dictWords s"
  "dictWords (s\<lparr>isStart := x1\<rparr>) = dictWords s"
  "dictWords (s\<lparr>hasWrong := x2\<rparr>) = dictWords s"
  "dictWords (s\<lparr>currentInput := x3\<rparr>) = dictWords s"
  "dictWords (s\<lparr>wordVisibility := x4\<rparr>) = dictWords s"
  "dictWords (s\<lparr>readOnlyMode := x5\<rparr>) = dictWords s"
  "dictWords (s\<lparr>readOnlyIntervalId := x6\<rparr>) = dictWords s"
  "dictWords (s\<lparr>placeholder := x7\<rparr>) = dictWords s"
  "totalChapters (s\<lparr>voiceLock := x0\<rparr>) = totalChapters s"
  "totalChapters (s\<lparr>isStart := x1\<rparr>) = totalChapters s"
  "totalChapters (s\<lparr>hasWrong := x2\<rparr>) = totalChapters s"
  "totalChapters (s\<lparr>currentInput := x3\<rparr>) = totalChapters s"
  "totalChapters (s\<lparr>wordVisibility := x4\<rparr>) = totalChapters s"
  "totalChapters (s\<lparr>readOnlyMode := x5\<rparr>) = totalChapters s"
  "totalChapters (s\<lparr>readOnlyIntervalId := x6\<rparr>) = totalChapters s"
  "totalChapters (s\<lparr>placeholder := x7\<rparr>) = totalChapters s"
  "chapterWords (s\<lparr>voiceLock := x0\<rparr>) = chapterWords s"
  "chapterWords (s\<lparr>isStart := x1\<rparr>) = chapterWords s"
  "chapterWords (s\<lparr>hasWrong := x2\<rparr>) = chapterWords s"
  "chapterWords (s\<lparr>currentInput := x3\<rparr>) = chapterWords s"
  "chapterWords (s\<lparr>wordVisibility := x4\<rparr>) = chapterWords s"
  "chapterWords (s\<lparr>readOnlyMode := x5\<rparr>) = chapterWords s"
  "chapterWords (s\<lparr>readOnlyIntervalId := x6\<rparr>) = chapterWords s"
  "chapterWords (s\<lparr>placeholder := x7\<rparr>) = chapterWords s"
  "currentWord (s\<lparr>voiceLock := x0\<rparr>) = currentWord s"
  "currentWord (s\<lparr>isStart := x1\<rparr>) = currentWord s"
  "currentWord (s\<lparr>hasWrong := x2\<rparr>) = currentWord s"
  "currentWord (s\<lparr>currentInput := x3\<rparr>) = currentWord s"
  "currentWord (s\<lparr>wordVisibility := x4\<rparr>) = currentWord s"
  "currentWord (s\<lparr>readOnlyMode := x5\<rparr>) = currentWord s"
  "currentWord (s\<lparr>readOnlyIntervalId := x6\<rparr>) = currentWord s"
  "currentWord (s\<lparr>placeholder := x7\<rparr>) = currentWord s"
  "position (s\<lparr>voiceLock := x0\<rparr>) = position s"
  "position (s\<lparr>isStart := x1\<rparr>) = position s"
  "position (s\<lparr>hasWrong := x2\<rparr>) = position s"
  "position (s\<lparr>currentInput := x3\<rparr>) = position s"
  "position (s\<lparr>wordVisibility := x4\<rparr>) = position s"
  "position (s\<lparr>readOnlyMode := x5\<rparr>) = position s"
  "position (s\<lparr>readOnlyIntervalId := x6\<rparr>) = position s"
  "position (s\<lparr>placeholder := x7\<rparr>) = position s"
  "plugin_inv (s\<lparr>voiceLock := x0\<rparr>) = plugin_inv s"
  "plugin_inv (s\<lparr>isStart := x1\<rparr>) = plugin_inv s"
  "plugin_inv (s\<lparr>hasWrong := x2\<rparr>) = plugin_inv s"
  "plugin_inv (s\<lparr>currentInput := x3\<rparr>) = plugin_inv s"
  "plugin_inv (s\<lparr>wordVisibility := x4\<rparr>) = plugin_inv s"
  "plugin_inv (s\<lparr>readOnlyMode := x5\<rparr>) = plugin_inv s"
  "plugin_inv (s\<lparr>readOnlyIntervalId := x6\<rparr>) = plugin_inv s"
  "plugin_inv (s\<lparr>placeholder := x7\<rparr>) = plugin_inv s"
  by (simp_all add: dictWords_def totalChapters_def chapterWords_def currentWord_def position_def
      plugin_inv_def)

text \<open>The methods move the position and reset the input; they leave the flags alone.\<close>

lemma methods_keep_flags [simp]:
  "voiceLock (reset_input s) = voiceLock s"
  "isStart (reset_input s) = isStart s"
  "wordVisibility (reset_input s) = wordVisibility s"
  "readOnlyMode (reset_input s) = readOnlyMode s"
  "readOnlyIntervalId (reset_input s) = readOnlyIntervalId s"
  "placeholder (reset_input s) = placeholder s"
  "dictionaries (reset_input s) = dictionaries s"
  "voiceLock (finishWord s) = voiceLock s"
  "isStart (finishWord s) = isStart s"
  "wordVisibility (finishWord s) = wordVisibility s"
  "readOnlyMode (finishWord s) = readOnlyMode s"
  "readOnlyIntervalId (finishWord s) = readOnlyIntervalId s"
  "placeholder (finishWord s) = placeholder s"
  "dictionaries (finishWord s) = dictionaries s"
  "voiceLock (nextWord s) = voiceLock s"
  "isStart (nextWord s) = isStart s"
  "wordVisibility (nextWord s) = wordVisibility s"
  "readOnlyMode (nextWord s) = readOnlyMode s"
  "readOnlyIntervalId (nextWord s) = readOnlyIntervalId s"
  "placeholder (nextWord s) = placeholder s"
  "dictionaries (nextWord s) = dictionaries s"
  "voiceLock (prevWord s) = voiceLock s"
  "isStart (prevWord s) = isStart s"
  "wordVisibility (prevWord s) = wordVisibility s"
  "readOnlyMode (prevWord s) = readOnlyMode s"
  "readOnlyIntervalId (prevWord s) = readOnlyIntervalId s"
  "placeholder (prevWord s) = placeholder s"
  "dictionaries (prevWord s) = dictionaries s"
  "voiceLock (setChapter c s) = voiceLock s"
  "isStart (setChapter c s) = isStart s"
  "wordVisibility (setChapter c s) = wordVisibility s"
  "readOnlyMode (setChapter c s) = readOnlyMode s"
  "readOnlyIntervalId (setChapter c s) = readOnlyIntervalId s"
  "placeholder (setChapter c s) = placeholder s"
  "dictionaries (setChapter c s) = dictionaries s"
  "voiceLock (setDictKey k s) = voiceLock s"
  "isStart (setDictKey k s) = isStart s"
  "wordVisibility (setDictKey k s) = wordVisibility s"
  "readOnlyMode (setDictKey k s) = readOnlyMode s"
  "readOnlyIntervalId (setDictKey k s) = readOnlyIntervalId s"
  "placeholder (setDictKey k s) = placeholder s"
  "dictionaries (setDictKey k s) = dictionaries s"
  "voiceLock (setChapterLength n s) = voiceLock s"
  "isStart (setChapterLength n s) = isStart s"
  "wordVisibility (setChapterLength n s) = wordVisibility s"
  "readOnlyMode (setChapterLength n s) = readOnlyMode s"
  "readOnlyIntervalId (setChapterLength n s) = readOnlyIntervalId s"
  "placeholder (setChapterLength n s) = placeholder s"
  "dictionaries (setChapterLength n s) = dictionaries s"
  "voiceLock (wrongInput s) = voiceLock s"
  "isStart (wrongInput s) = isStart s"
  "wordVisibility (wrongInput s) = wordVisibility s"
  "readOnlyMode (wrongInput s) = readOnlyMode s"
  "readOnlyIntervalId (wrongInput s) = readOnlyIntervalId s"
  "placeholder (wrongInput s) = placeholder s"
  "dictionaries (wrongInput s) = dictionaries s"
  "voiceLock (clearWrong s) = voiceLock s"
  "isStart (clearWrong s) = isStart s"
  "wordVisibility (clearWrong s) = wordVisibility s"
  "readOnlyMode (clearWrong s) = readOnlyMode s"
  "readOnlyIntervalId (clearWrong s) = readOnlyIntervalId s"
  "placeholder (clearWrong s) = placeholder s"
  "dictionaries (clearWrong s) = dictionaries s"
  "voiceLock (fst (getCurrentInputBarContent s t)) = voiceLock s"
  "isStart (fst (getCurrentInputBarContent s t)) = isStart s"
  "wordVisibility (fst (getCurrentInputBarContent s t)) = wordVisibility s"
  "readOnlyMode (fst (getCurrentInputBarContent s t)) = readOnlyMode s"
  "readOnlyIntervalId (fst (getCurrentInputBarContent s t)) = readOnlyIntervalId s"
  "placeholder (fst (getCurrentInputBarContent s t)) = placeholder s"
  "dictionaries (fst (getCurrentInputBarContent s t)) = dictionaries s"
  by (simp_all add: reset_input_def finishWord_def nextWord_def prevWord_def setChapter_def
      setDictKey_def setChapterLength_def wrongInput_def clearWrong_def
      getCurrentInputBarContent_def Let_def)

text \<open>Navigation stays within the current dictionary and chapter length.\<close>

lemma methods_keep_dict [simp]:
  "dictKey (reset_input s) = dictKey s"
  "chapterLength (reset_input s) = chapterLength s"
  "dictWords (reset_input s) = dictWords s"
  "totalChapters (reset_input s) = totalChapters s"
  "dictKey (finishWord s) = dictKey s"
  "chapterLength (finishWord s) = chapterLength s"
  "dictWords (finishWord s) = dictWords s"
  "totalChapters (finishWord s) = totalChapters s"
  "dictKey (nextWord s) = dictKey s"
  "chapterLength (nextWord s) = chapterLength s"
  "dictWords (nextWord s) = dictWords s"
  "totalChapters (nextWord s) = totalChapters s"
  "dictKey (prevWord s) = dictKey s"
  "chapterLength (prevWord s) = chapterLength s"
  "dictWords (prevWord s) = dictWords s"
  "totalChapters (prevWord s) = totalChapters s"
  "dictKey (setChapter c s) = dictKey s"
  "chapterLength (setChapter c s) = chapterLength s"
  "dictWords (setChapter c s) = dictWords s"
  "totalChapters (setChapter c s) = totalChapters s"
  "dictKey (wrongInput s) = dictKey s"
  "chapterLength (wrongInput s) = chapterLength s"
  "dictWords (wrongInput s) = dictWords s"
  "totalChapters (wrongInput s) = totalChapters s"
  "dictKey (clearWrong s) = dictKey s"
  "chapterLength (clearWrong s) = chapterLength s"
  "dictWords (clearWrong s) = dictWords s"
  "totalChapters (clearWrong s) = totalChapters s"
  "dictKey (fst (getCurrentInputBarContent s t)) = dictKey s"
  "chapterLength (fst (getCurrentInputBarContent s t)) = chapterLength s"
  "dictWords (fst (getCurrentInputBarContent s t)) = dictWords s"
  "totalChapters (fst (getCurrentInputBarContent s t)) = totalChapters s"
  by (simp_all add: reset_input_def finishWord_def nextWord_def prevWord_def setChapter_def
      wrongInput_def clearWrong_def getCurrentInputBarContent_def Let_def dictWords_def
      totalChapters_def)

section \<open>Setters and getters under the invariant\<close>

lemma currentWord_inv:
  "plugin_inv s \<Longrightarrow> currentWord s = Some (dictWords s ! position s)"
  by (auto simp: currentWord_def plugin_inv_def chapterWords_def chapter_slice_nth position_def)

lemma compareResult_inv:
  "plugin_inv s \<Longrightarrow> compareResult s = Some (compareWord (name (dictWords s ! position s)) (currentInput s))"
  by (simp add: compareResult_def currentWord_inv)

lemma setChapter_inv:
  "plugin_inv s \<Longrightarrow> plugin_inv (setChapter c s) \<longleftrightarrow> c < totalChapters s"
  by (auto simp: plugin_inv_def setChapter_def reset_input_def totalChapters_def chapterWords_def
                 dictWords_def length_chapter_slice chapter_count_less_iff)

lemma setDictKey_inv:
  assumes "plugin_inv s" "k \<in> set (map fst (dictionaries s))"
  shows "plugin_inv (setDictKey k s)"
proof -
  have wf: "library_wf (dictionaries s)" and cl: "0 < chapterLength s"
    using assms(1) by (simp_all add: plugin_inv_def)
  obtain ws where "(k, ws) \<in> set (dictionaries s)" using assms(2) by auto
  then have "getDictFile (dictionaries s) k \<noteq> []" using wf by (rule getDictFile_wf [rotated])
  then show ?thesis using assms wf cl
    by (simp add: plugin_inv_position dict_ok_def setDictKey_def reset_input_def position_def dictWords_def)
qed

lemma setChapterLength_inv:
  "plugin_inv s \<Longrightarrow> plugin_inv (setChapterLength n s) \<longleftrightarrow> 0 < n"
  by (auto simp: plugin_inv_position dict_ok_def setChapterLength_def reset_input_def position_def
                 dictWords_def)

lemma funpow_finishWord:
  "plugin_inv s \<Longrightarrow> plugin_inv ((finishWord ^^ k) s) \<and>
     dictWords ((finishWord ^^ k) s) = dictWords s \<and>
     position ((finishWord ^^ k) s) = (position s + k) mod length (dictWords s)"
proof (induction k)
  case 0
  then show ?case by (simp add: plugin_inv_position)
next
  case (Suc k)
  let ?t = "(finishWord ^^ k) s"
  have "dictWords (finishWord ?t) = dictWords ?t" by (subst finishWord_move_to, simp)
  with Suc finishWord_inv [of ?t] finishWord_position [of ?t] show ?case
    by (simp add: mod_Suc_eq)
qed

end
