(* ===== verification/Extension.thy ===== *)
theory Extension
  imports PluginState
begin

text \<open>
  The extension's entry point \<open>activate\<close> of \<open>src/index.ts\<close>: five status-bar items, the
  text-document listener that intercepts keystrokes, the configuration listener, the eight
  commands, and the closures \<open>initializeBar\<close>, \<open>playVoice\<close>, \<open>setUpWordBar\<close>,
  \<open>setUpTransBar\<close>, \<open>setUpInputBar\<close>, \<open>setUpReadOnlyInterval\<close> and
  \<open>removeReadOnlyInterval\<close>. The closure state and the host's pending callbacks (the
  wrong-input \<open>setTimeout\<close>s, the read-only \<open>setInterval\<close>, the voice player's completion
  callback, an open quick pick) form the record \<open>world\<close>; every handler is a function from
  a world to a \<open>world res\<close>, \<open>Exc\<close> when it throws. Sounds, edits and voice playback are
  recorded in \<open>effects\<close>, in the order the code requests them. The command identifiers
  the items carry and the registry of commands (\<open>command_event\<close>) are here; what a click
  on an item delivers is in theory \<open>StatusBar\<close>.
\<close>

section \<open>Host data\<close>

record status_bar_item =
  item_text :: string
  item_color :: "string option"
  item_visible :: bool
  item_command :: "string option"

record config =
  cfgPlaceholder :: string
  cfgChapterLength :: nat
  highlightWrongColor :: string

datatype pos = Pos nat nat

datatype text_range = Range pos pos

datatype uri = Uri (scheme: string) (path: string)

datatype content_change = ContentChange (change_range: text_range) (change_text: string) (rangeLength: nat)

datatype sound = Click | Success | Wrong

datatype effect = PlaySound sound | ApplyDelete uri text_range | PlayVoice string

datatype pick = ChapterPick "string list" | DictPick "string list"

record world =
  ps :: plugin_state
  wordBar :: status_bar_item
  inputBar :: status_bar_item
  transBar :: status_bar_item
  prevWordItem :: status_bar_item
  nextWordItem :: status_bar_item
  cfg :: config
  pendingWrongTimeouts :: nat
  activeIntervals :: "nat list"
  nextTimerId :: nat
  pendingVoice :: nat
  quickPick :: "pick option"
  effects :: "effect list"
  deactivated :: bool

section \<open>Activation\<close>

definition bar_item :: "string \<Rightarrow> status_bar_item" where
  "bar_item t = \<lparr>item_text = t, item_color = None, item_visible = False, item_command = None\<rparr>"

text \<open>The command identifiers the status-bar items carry (\<open>src/index.ts\<close> lines 11 to 13).\<close>

definition PLAY_VOICE_COMMAND :: string where
  "PLAY_VOICE_COMMAND = ''qwerty-learner.playVoice''"

definition PREV_WORD_COMMAND :: string where
  "PREV_WORD_COMMAND = ''qwerty-learner.prevWord''"

definition NEXT_WORD_COMMAND :: string where
  "NEXT_WORD_COMMAND = ''qwerty-learner.nextWord''"

definition activate :: "plugin_state \<Rightarrow> config \<Rightarrow> world" where
  "activate p c =
     \<lparr>ps = p, wordBar = bar_item [], inputBar = bar_item [],
      transBar = (bar_item [])\<lparr>item_command := Some PLAY_VOICE_COMMAND\<rparr>,
      prevWordItem = (bar_item ''<'')\<lparr>item_command := Some PREV_WORD_COMMAND\<rparr>,
      nextWordItem = (bar_item ''>'')\<lparr>item_command := Some NEXT_WORD_COMMAND\<rparr>, cfg = c,
      pendingWrongTimeouts = 0, activeIntervals = [], nextTimerId = 1, pendingVoice = 0,
      quickPick = None, effects = [], deactivated = False\<rparr>"

definition emit :: "effect \<Rightarrow> world \<Rightarrow> world" where
  "emit e w = w\<lparr>effects := effects w @ [e]\<rparr>"

definition set_ps :: "plugin_state \<Rightarrow> world \<Rightarrow> world" where
  "set_ps p w = w\<lparr>ps := p\<rparr>"

section \<open>The closures of activate\<close>

definition playVoice :: "world \<Rightarrow> world res" where
  "playVoice w =
     (if shouldPlayVoice (ps w) then
        let w1 = set_ps ((ps w)\<lparr>voiceLock := True\<rparr>) w in
        (case currentWord (ps w1) of
           None \<Rightarrow> Exc TypeError w1
         | Some wd \<Rightarrow> Ok ((emit (PlayVoice (name wd)) w1)\<lparr>pendingVoice := pendingVoice w1 + 1\<rparr>))
      else Ok w)"

definition setUpWordBar :: "world \<Rightarrow> world res" where
  "setUpWordBar w =
     (case getInitialWordBarContent (ps w) of
        None \<Rightarrow> Exc TypeError w
      | Some t \<Rightarrow> playVoice (w\<lparr>wordBar := (wordBar w)\<lparr>item_text := t\<rparr>\<rparr>))"

definition setUpTransBar :: "world \<Rightarrow> world res" where
  "setUpTransBar w =
     (case getInitialTransBarContent (ps w) of
        None \<Rightarrow> Exc TypeError w
      | Some t \<Rightarrow> Ok (w\<lparr>transBar := (transBar w)\<lparr>item_text := t\<rparr>\<rparr>))"

definition setUpInputBar :: "world \<Rightarrow> world res" where
  "setUpInputBar w = Ok (w\<lparr>inputBar := (inputBar w)\<lparr>item_text := getInitialInputBarContent (ps w)\<rparr>\<rparr>)"

definition initializeBar :: "world \<Rightarrow> world res" where
  "initializeBar w = bind_res (setUpWordBar w) (\<lambda>w1. bind_res (setUpTransBar w1) setUpInputBar)"

text \<open>JavaScript truthiness of the stored interval handle (\<open>null\<close> and \<open>0\<close> are falsy).\<close>

definition handle_truthy :: "nat option \<Rightarrow> bool" where
  "handle_truthy h \<longleftrightarrow> (case h of None \<Rightarrow> False | Some i \<Rightarrow> i \<noteq> 0)"

definition setUpReadOnlyInterval :: "world \<Rightarrow> world" where
  "setUpReadOnlyInterval w =
     (if \<not> handle_truthy (readOnlyIntervalId (ps w)) then
        let i = nextTimerId w in
        (set_ps ((ps w)\<lparr>readOnlyIntervalId := Some i\<rparr>) w)\<lparr>activeIntervals := activeIntervals w @ [i],
           nextTimerId := Suc i\<rparr>
      else w)"

definition removeReadOnlyInterval :: "world \<Rightarrow> world" where
  "removeReadOnlyInterval w =
     (if handle_truthy (readOnlyIntervalId (ps w)) then
        (set_ps ((ps w)\<lparr>readOnlyIntervalId := None\<rparr>) w)\<lparr>activeIntervals :=
           removeAll (the (readOnlyIntervalId (ps w))) (activeIntervals w)\<rparr>
      else w)"

text \<open>The callback \<open>setInterval\<close> runs in read-only mode, and the one \<open>setTimeout\<close> runs after a wrong key.\<close>

definition readOnlyTick :: "world \<Rightarrow> world res" where
  "readOnlyTick w = initializeBar (set_ps (finishWord (ps w)) w)"

definition wrongTimeout :: "world \<Rightarrow> world res" where
  "wrongTimeout w =
     initializeBar ((set_ps (clearWrong (ps w)) w)\<lparr>inputBar := (inputBar w)\<lparr>item_color := None\<rparr>\<rparr>)"

section \<open>The text-document listener\<close>

text \<open>\<open>new vscode.Range(start.line, start.character, end.line, end.character + 1)\<close>.\<close>

fun revert_range :: "text_range \<Rightarrow> text_range" where
  "revert_range (Range (Pos l1 c1) (Pos l2 c2)) = Range (Pos l1 c1) (Pos l2 (Suc c2))"

definition set_input_text :: "string \<Rightarrow> world \<Rightarrow> world" where
  "set_input_text t w = w\<lparr>inputBar := (inputBar w)\<lparr>item_text := t\<rparr>\<rparr>"

definition onDidChangeTextDocument :: "world \<Rightarrow> uri \<Rightarrow> content_change list \<Rightarrow> world res" where
  "onDidChangeTextDocument w u changes =
     (if \<not> isStart (ps w) then Ok w
      else if js_indexOf (scheme u) ''vscode'' \<noteq> -1 then Ok w
      else case changes of
        [] \<Rightarrow> Exc TypeError w
      | ch # _ \<Rightarrow>
          if \<not> (change_text ch \<noteq> [] \<and> length (change_text ch) = 1) then Ok w
          else
            let w1 = emit (ApplyDelete u (revert_range (change_range ch))) w in
            if hasWrong (ps w1) then Ok w1
            else
              let w2 = emit (PlaySound Click) w1;
                  (s3, content) = getCurrentInputBarContent (ps w2) (change_text ch);
                  w3 = set_input_text content (set_ps s3 w2)
              in case compareResult s3 of
                   None \<Rightarrow> Exc TypeError w3
                 | Some r \<Rightarrow>
                     if r = -2 then initializeBar (set_ps (finishWord s3) (emit (PlaySound Success) w3))
                     else if 0 \<le> r then
                       Ok ((emit (PlaySound Wrong)
                              ((set_ps (wrongInput s3) w3)\<lparr>inputBar :=
                                 (inputBar w3)\<lparr>item_color := Some (highlightWrongColor (cfg w3))\<rparr>\<rparr>))
                           \<lparr>pendingWrongTimeouts := Suc (pendingWrongTimeouts w3)\<rparr>)
                     else Ok w3)"

section \<open>The configuration listener\<close>

definition onDidChangeConfiguration :: "world \<Rightarrow> string list \<Rightarrow> config \<Rightarrow> world res" where
  "onDidChangeConfiguration w keys c =
     (let w0 = w\<lparr>cfg := c\<rparr> in
      bind_res
        (if ''qwerty-learner.placeholder'' \<in> set keys
         then initializeBar (set_ps ((ps w0)\<lparr>placeholder := cfgPlaceholder c\<rparr>) w0) else Ok w0)
        (\<lambda>w1. if ''qwerty-learner.chapterLength'' \<in> set keys
              then initializeBar (set_ps (setChapterLength (cfgChapterLength c) (ps w1)) w1)
              else Ok w1))"

section \<open>Commands\<close>

definition set_visible :: "bool \<Rightarrow> world \<Rightarrow> world" where
  "set_visible b w =
     w\<lparr>wordBar := (wordBar w)\<lparr>item_visible := b\<rparr>, inputBar := (inputBar w)\<lparr>item_visible := b\<rparr>,
       transBar := (transBar w)\<lparr>item_visible := b\<rparr>, prevWordItem := (prevWordItem w)\<lparr>item_visible := b\<rparr>,
       nextWordItem := (nextWordItem w)\<lparr>item_visible := b\<rparr>\<rparr>"

definition cmdStart :: "world \<Rightarrow> world res" where
  "cmdStart w =
     (let w1 = set_ps ((ps w)\<lparr>isStart := \<not> isStart (ps w)\<rparr>) w in
      if isStart (ps w1) then
        bind_res (initializeBar w1)
          (\<lambda>w2. let w3 = set_visible True w2 in
                Ok (if readOnlyMode (ps w3) then setUpReadOnlyInterval w3 else w3))
      else Ok (removeReadOnlyInterval (set_visible False w1)))"

text \<open>\<open>range(1, totalChapters + 1).map(i => i.toString())\<close>: the items of the chapter pick.\<close>

definition chapter_items :: "plugin_state \<Rightarrow> string list" where
  "chapter_items s = map string_of_nat [1..<Suc (totalChapters s)]"

definition cmdChangeChapter :: "world \<Rightarrow> world res" where
  "cmdChangeChapter w = Ok (w\<lparr>quickPick := Some (ChapterPick (chapter_items (ps w)))\<rparr>)"

text \<open>
  The continuation after \<open>await showQuickPick\<close>: \<open>chapter = parseInt(inputChapter) - 1\<close>.
  A chapter that is not a natural number (\<open>NaN\<close>, \<open>-1\<close>) cannot be stored in the model;
  the code would go on with an undefined current word, so the model stops with
  \<open>RangeError\<close>. No item the pick offers leads there (\<open>chapterChosen_items\<close>).
\<close>

definition chapterChosen :: "string \<Rightarrow> world \<Rightarrow> world res" where
  "chapterChosen str w =
     (case parse_int str of
        Some n \<Rightarrow> if 1 \<le> n then initializeBar (set_ps (setChapter (nat (n - 1)) (ps w)) w)
                  else Exc RangeError w
      | None \<Rightarrow> Exc RangeError w)"

definition cmdChangeDict :: "world \<Rightarrow> world res" where
  "cmdChangeDict w =
     (if dictKey (ps w) \<in> set (map fst (dictionaries (ps w)))
      then Ok (w\<lparr>quickPick := Some (DictPick (map fst (dictionaries (ps w))))\<rparr>)
      else Exc TypeError w)"

definition dictChosen :: "string \<Rightarrow> world \<Rightarrow> world res" where
  "dictChosen key w = initializeBar (set_ps (setDictKey key (ps w)) w)"

definition quickPickClosed :: "nat option \<Rightarrow> world \<Rightarrow> world res" where
  "quickPickClosed sel w =
     (let w1 = w\<lparr>quickPick := None\<rparr> in
      case (quickPick w, sel) of
        (Some (ChapterPick items), Some i) \<Rightarrow> chapterChosen (items ! i) w1
      | (Some (DictPick keys), Some i) \<Rightarrow> dictChosen (keys ! i) w1
      | _ \<Rightarrow> Ok w1)"

definition cmdToggleWordVisibility :: "world \<Rightarrow> world res" where
  "cmdToggleWordVisibility w =
     initializeBar (set_ps ((ps w)\<lparr>wordVisibility := \<not> wordVisibility (ps w)\<rparr>) w)"

definition cmdToggleReadOnlyMode :: "world \<Rightarrow> world" where
  "cmdToggleReadOnlyMode w =
     (let w1 = set_ps ((ps w)\<lparr>readOnlyMode := \<not> readOnlyMode (ps w)\<rparr>) w in
      if readOnlyMode (ps w1) then setUpReadOnlyInterval w1 else removeReadOnlyInterval w1)"

definition cmdPrevWord :: "world \<Rightarrow> world res" where
  "cmdPrevWord w = initializeBar (set_ps (prevWord (ps w)) w)"

definition cmdNextWord :: "world \<Rightarrow> world res" where
  "cmdNextWord w = initializeBar (set_ps (nextWord (ps w)) w)"

definition voiceFinished :: "world \<Rightarrow> world" where
  "voiceFinished w = (set_ps ((ps w)\<lparr>voiceLock := False\<rparr>) w)\<lparr>pendingVoice := pendingVoice w - 1\<rparr>"

section \<open>Events and the event loop\<close>

datatype event =
    TextDocumentChanged uri "content_change list"
  | ConfigurationChanged "string list" config
  | CmdStart | CmdChangeChapter | CmdChangeDict | CmdToggleWordVisibility
  | CmdToggleReadOnlyMode | CmdPlayVoice | CmdPrevWord | CmdNextWord
  | QuickPickClosed "nat option"
  | WrongTimeoutFired | IntervalFired nat | VoiceFinished
  | Deactivate

text \<open>
  The registry of \<open>context.subscriptions.push(...)\<close>: the command each identifier runs, as
  the host delivers it when the command is invoked, for instance by clicking a status-bar
  item that carries the identifier.
\<close>

definition command_event :: "string \<Rightarrow> event option" where
  "command_event cid =
     (if cid = ''qwerty-learner.start'' then Some CmdStart
      else if cid = ''qwerty-learner.changeChapter'' then Some CmdChangeChapter
      else if cid = ''qwerty-learner.changeDict'' then Some CmdChangeDict
      else if cid = ''qwerty-learner.toggleWordVisibility'' then Some CmdToggleWordVisibility
      else if cid = ''qwerty-learner.toggleReadOnlyMode'' then Some CmdToggleReadOnlyMode
      else if cid = PLAY_VOICE_COMMAND then Some CmdPlayVoice
      else if cid = PREV_WORD_COMMAND then Some CmdPrevWord
      else if cid = NEXT_WORD_COMMAND then Some CmdNextWord
      else None)"

fun pick_items :: "pick \<Rightarrow> string list" where
  "pick_items (ChapterPick items) = items"
| "pick_items (DictPick keys) = keys"

text \<open>
  Host callbacks arrive only when they are pending; a pick is closed with one of its items or
  none. Deactivation disposes \<open>context.subscriptions\<close>, which hold the commands only: the
  two workspace listeners were registered without keeping their disposables, and
  \<open>src/index.ts\<close> exports no \<open>deactivate\<close> that would clear the interval, so those
  callbacks stay live.
\<close>

fun enabled :: "world \<Rightarrow> event \<Rightarrow> bool" where
  "enabled w (QuickPickClosed sel) =
     (case quickPick w of None \<Rightarrow> False
      | Some p \<Rightarrow> (case sel of None \<Rightarrow> True | Some i \<Rightarrow> i < length (pick_items p)))"
| "enabled w WrongTimeoutFired = (0 < pendingWrongTimeouts w)"
| "enabled w (IntervalFired i) = (i \<in> set (activeIntervals w))"
| "enabled w VoiceFinished = (0 < pendingVoice w)"
| "enabled w (TextDocumentChanged u chs) = True"
| "enabled w (ConfigurationChanged keys c) = True"
| "enabled w Deactivate = (\<not> deactivated w)"
| "enabled w _ = (\<not> deactivated w)"

fun step :: "world \<Rightarrow> event \<Rightarrow> world res" where
  "step w (TextDocumentChanged u chs) = onDidChangeTextDocument w u chs"
| "step w (ConfigurationChanged keys c) = onDidChangeConfiguration w keys c"
| "step w CmdStart = cmdStart w"
| "step w CmdChangeChapter = cmdChangeChapter w"
| "step w CmdChangeDict = cmdChangeDict w"
| "step w CmdToggleWordVisibility = cmdToggleWordVisibility w"
| "step w CmdToggleReadOnlyMode = Ok (cmdToggleReadOnlyMode w)"
| "step w CmdPlayVoice = playVoice w"
| "step w CmdPrevWord = cmdPrevWord w"
| "step w CmdNextWord = cmdNextWord w"
| "step w (QuickPickClosed sel) = quickPickClosed sel w"
| "step w WrongTimeoutFired = wrongTimeout (w\<lparr>pendingWrongTimeouts := pendingWrongTimeouts w - 1\<rparr>)"
| "step w (IntervalFired i) = readOnlyTick w"
| "step w VoiceFinished = Ok (voiceFinished w)"
| "step w Deactivate = Ok (w\<lparr>deactivated := True\<rparr>)"

text \<open>A run: the events in the order the host delivers them; a thrown exception is logged by the host and the world reached so far persists.\<close>

fun run :: "world \<Rightarrow> event list \<Rightarrow> world" where
  "run w [] = w"
| "run w (e # es) = run (state_of (step w e)) es"

fun valid_run :: "world \<Rightarrow> event list \<Rightarrow> bool" where
  "valid_run w [] = True"
| "valid_run w (e # es) = (enabled w e \<and> valid_run (state_of (step w e)) es)"

definition fresh_state :: "plugin_state \<Rightarrow> bool" where
  "fresh_state p \<longleftrightarrow> \<not> isStart p \<and> \<not> hasWrong p \<and> currentInput p = [] \<and> \<not> voiceLock p
     \<and> readOnlyIntervalId p = None"

inductive reach :: "world \<Rightarrow> bool" where
  init: "fresh_state p \<Longrightarrow> reach (activate p c)"
| step: "reach w \<Longrightarrow> enabled w e \<Longrightarrow> reach (state_of (step w e))"

section \<open>Frame lemmas and the invariants of every reachable world\<close>

text \<open>
  \<open>ctl\<close>, \<open>tv\<close>: the parts of a world the bar refresh and the non-timer events leave alone.
  \<open>timers_inv\<close>: the host runs exactly the interval whose handle the plugin state stores,
  with a truthy handle, and only in read-only mode (the single-instance promise of the
  specification, section 9). \<open>voice_inv\<close>: at most one voice playback is in flight, and
  only while \<open>voiceLock\<close> is held (section 5).
\<close>


definition ctl :: "world \<Rightarrow> nat list \<times> nat \<times> nat \<times> pick option \<times> config" where
  "ctl w = (activeIntervals w, nextTimerId w, pendingWrongTimeouts w, quickPick w, cfg w)"

definition voice_after :: "plugin_state \<Rightarrow> plugin_state" where
  "voice_after p = (if shouldPlayVoice p then p\<lparr>voiceLock := True\<rparr> else p)"

lemma ps_frames:
  "ps (emit e w) = ps w" "ps (set_input_text t w) = ps w" "ps (set_ps p w) = p"
  by (simp_all add: emit_def set_input_text_def set_ps_def)

lemma playVoice_frame:
  "ps (state_of (playVoice w)) = voice_after (ps w)"
  "ctl (state_of (playVoice w)) = ctl w"
  "pendingVoice (state_of (playVoice w)) =
     pendingVoice w + (if shouldPlayVoice (ps w) \<and> currentWord (ps w) \<noteq> None then 1 else 0)"
  "count_list (effects (state_of (playVoice w))) (PlaySound k) = count_list (effects w) (PlaySound k)"
  by (auto simp: playVoice_def voice_after_def set_ps_def emit_def ctl_def Let_def
           shouldPlayVoice_def split: option.split)

lemma state_of_bind_res:
  "(\<And>a. g (state_of (f a)) = g a) \<Longrightarrow> g (state_of (bind_res r f)) = g (state_of r)"
  by (cases r) auto

lemma setUpTransBar_frame:
  "ps (state_of (setUpTransBar w)) = ps w" "ctl (state_of (setUpTransBar w)) = ctl w"
  "effects (state_of (setUpTransBar w)) = effects w"
  "pendingVoice (state_of (setUpTransBar w)) = pendingVoice w"
  by (auto simp: setUpTransBar_def ctl_def split: option.split)

lemma setUpInputBar_frame:
  "ps (state_of (setUpInputBar w)) = ps w" "ctl (state_of (setUpInputBar w)) = ctl w"
  "effects (state_of (setUpInputBar w)) = effects w"
  "pendingVoice (state_of (setUpInputBar w)) = pendingVoice w"
  by (auto simp: setUpInputBar_def ctl_def)

lemma initializeBar_state:
  "g (state_of (initializeBar w)) = g (state_of (setUpWordBar w))"
  if "\<And>a. g (state_of (setUpTransBar a)) = g a" "\<And>a. g (state_of (setUpInputBar a)) = g a"
proof -
  have "g (state_of (bind_res (setUpTransBar a) setUpInputBar)) = g a" for a
    using state_of_bind_res [of g setUpInputBar "setUpTransBar a"] that by simp
  then show ?thesis unfolding initializeBar_def by (rule state_of_bind_res)
qed

lemma setUpWordBar_frame:
  "ps (state_of (setUpWordBar w)) =
     (if getInitialWordBarContent (ps w) = None then ps w else voice_after (ps w))"
  "ctl (state_of (setUpWordBar w)) = ctl w"
  "count_list (effects (state_of (setUpWordBar w))) (PlaySound k) = count_list (effects w) (PlaySound k)"
  by (simp_all add: setUpWordBar_def playVoice_frame split: option.split)
     (auto simp: ctl_def playVoice_frame(2) [of "w\<lparr>wordBar := x\<rparr>" for x, unfolded ctl_def])

lemma initializeBar_frame:
  "ps (state_of (initializeBar w)) =
     (if getInitialWordBarContent (ps w) = None then ps w else voice_after (ps w))"
  "ctl (state_of (initializeBar w)) = ctl w"
  "count_list (effects (state_of (initializeBar w))) (PlaySound k) = count_list (effects w) (PlaySound k)"
  by (simp_all only: initializeBar_state setUpTransBar_frame setUpInputBar_frame setUpWordBar_frame)



definition tv :: "world \<Rightarrow> nat option \<times> bool \<times> nat list \<times> nat" where
  "tv w = (readOnlyIntervalId (ps w), readOnlyMode (ps w), activeIntervals w, nextTimerId w)"

lemma initializeBar_keeps [simp]:
  "dictionaries (ps (state_of (initializeBar w))) = dictionaries (ps w)"
  "dictKey (ps (state_of (initializeBar w))) = dictKey (ps w)"
  "chapterIndex (ps (state_of (initializeBar w))) = chapterIndex (ps w)"
  "order (ps (state_of (initializeBar w))) = order (ps w)"
  "chapterLength (ps (state_of (initializeBar w))) = chapterLength (ps w)"
  "currentInput (ps (state_of (initializeBar w))) = currentInput (ps w)"
  "hasWrong (ps (state_of (initializeBar w))) = hasWrong (ps w)"
  "isStart (ps (state_of (initializeBar w))) = isStart (ps w)"
  "wordVisibility (ps (state_of (initializeBar w))) = wordVisibility (ps w)"
  "readOnlyMode (ps (state_of (initializeBar w))) = readOnlyMode (ps w)"
  "readOnlyIntervalId (ps (state_of (initializeBar w))) = readOnlyIntervalId (ps w)"
  "placeholder (ps (state_of (initializeBar w))) = placeholder (ps w)"
  "activeIntervals (state_of (initializeBar w)) = activeIntervals w"
  "nextTimerId (state_of (initializeBar w)) = nextTimerId w"
  "pendingWrongTimeouts (state_of (initializeBar w)) = pendingWrongTimeouts w"
  "quickPick (state_of (initializeBar w)) = quickPick w"
  "cfg (state_of (initializeBar w)) = cfg w"
  using initializeBar_frame(1,2) [of w] by (simp_all add: ctl_def voice_after_def)


lemma tv_text [simp]: "tv (state_of (onDidChangeTextDocument w u chs)) = tv w"
  by (auto simp: onDidChangeTextDocument_def Let_def emit_def set_ps_def set_input_text_def tv_def
           getCurrentInputBarContent_def
           split: list.split option.split prod.split)



lemma getInitialWordBarContent_None:
  "getInitialWordBarContent p = None \<longleftrightarrow> currentWord p = None"
  by (simp add: getInitialWordBarContent_def)

lemma initializeBar_voice [simp]:
  "voiceLock (ps (state_of (initializeBar w))) = (voiceLock (ps w) \<or> currentWord (ps w) \<noteq> None)"
  "pendingVoice (state_of (initializeBar w)) =
     pendingVoice w + (if \<not> voiceLock (ps w) \<and> currentWord (ps w) \<noteq> None then 1 else 0)"
proof -
  show "voiceLock (ps (state_of (initializeBar w))) = (voiceLock (ps w) \<or> currentWord (ps w) \<noteq> None)"
    using initializeBar_frame(1) [of w]
    by (auto simp: voice_after_def shouldPlayVoice_def getInitialWordBarContent_None)
  have "pendingVoice (state_of (initializeBar w)) = pendingVoice (state_of (setUpWordBar w))"
    by (rule initializeBar_state) (simp_all add: setUpTransBar_frame setUpInputBar_frame)
  then show "pendingVoice (state_of (initializeBar w)) =
     pendingVoice w + (if \<not> voiceLock (ps w) \<and> currentWord (ps w) \<noteq> None then 1 else 0)"
    by (auto simp: setUpWordBar_def playVoice_frame(3) shouldPlayVoice_def getInitialWordBarContent_None
        split: option.split)
qed

definition timers_inv :: "world \<Rightarrow> bool" where
  "timers_inv w \<longleftrightarrow> 0 < nextTimerId w \<and>
     (case readOnlyIntervalId (ps w) of
        None \<Rightarrow> activeIntervals w = []
      | Some i \<Rightarrow> activeIntervals w = [i] \<and> 0 < i \<and> i < nextTimerId w \<and> readOnlyMode (ps w))"

definition voice_inv :: "world \<Rightarrow> bool" where
  "voice_inv w \<longleftrightarrow> pendingVoice w \<le> 1 \<and> (pendingVoice w = 1 \<longrightarrow> voiceLock (ps w))"

lemma voice_inv_initializeBar [intro]: "voice_inv w \<Longrightarrow> voice_inv (state_of (initializeBar w))"
  by (auto simp: voice_inv_def)

lemma voice_inv_playVoice [intro]: "voice_inv w \<Longrightarrow> voice_inv (state_of (playVoice w))"
  using playVoice_frame(1,3) [of w]
  by (auto simp: voice_inv_def voice_after_def shouldPlayVoice_def)

lemma step_deactivated [simp]: "deactivated (state_of (step w e)) = (deactivated w \<or> e = Deactivate)"
proof -
  have "deactivated (state_of (initializeBar v)) = deactivated (state_of (setUpWordBar v))" for v
    by (rule initializeBar_state) (simp_all add: setUpTransBar_def setUpInputBar_def split: option.split)
  then have ib: "deactivated (state_of (initializeBar v)) = deactivated v" for v
    by (simp add: setUpWordBar_def playVoice_def set_ps_def emit_def Let_def split: option.split)
  have cfg: "deactivated (state_of (onDidChangeConfiguration w keys c)) = deactivated w" for keys c
    unfolding onDidChangeConfiguration_def Let_def
    by (subst state_of_bind_res [where g = deactivated]) (simp_all add: ib set_ps_def)
  have st: "deactivated (state_of (cmdStart w)) = deactivated w"
    unfolding cmdStart_def Let_def
    by (auto simp: ib set_ps_def set_visible_def removeReadOnlyInterval_def setUpReadOnlyInterval_def
        Let_def state_of_bind_res [where g = deactivated])
  show ?thesis
    by (cases e) (auto simp: ib cfg st onDidChangeTextDocument_def
        cmdChangeChapter_def cmdChangeDict_def cmdToggleWordVisibility_def cmdToggleReadOnlyMode_def
        playVoice_def cmdPrevWord_def cmdNextWord_def quickPickClosed_def chapterChosen_def dictChosen_def
        wrongTimeout_def readOnlyTick_def voiceFinished_def setUpReadOnlyInterval_def
        removeReadOnlyInterval_def set_ps_def emit_def set_input_text_def Let_def
        split: list.split option.split prod.split pick.split)
qed

lemma step_tv:
  "e \<noteq> CmdStart \<Longrightarrow> e \<noteq> CmdToggleReadOnlyMode \<Longrightarrow> tv (state_of (step w e)) = tv w"
proof (cases e)
  case (TextDocumentChanged u chs)
  then show ?thesis by (simp only: step.simps tv_text)
next
  case (ConfigurationChanged keys c)
  have "tv (state_of (onDidChangeConfiguration w keys c)) =
        tv (state_of (if ''qwerty-learner.placeholder'' \<in> set keys
           then initializeBar (set_ps ((ps (w\<lparr>cfg := c\<rparr>))\<lparr>placeholder := cfgPlaceholder c\<rparr>) (w\<lparr>cfg := c\<rparr>))
           else Ok (w\<lparr>cfg := c\<rparr>)))"
    unfolding onDidChangeConfiguration_def Let_def
    by (rule state_of_bind_res) (simp add: tv_def set_ps_def)
  with ConfigurationChanged show ?thesis by (simp add: tv_def set_ps_def)
qed (auto simp: tv_def set_ps_def cmdChangeChapter_def cmdChangeDict_def cmdToggleWordVisibility_def
     playVoice_def cmdPrevWord_def cmdNextWord_def quickPickClosed_def chapterChosen_def dictChosen_def
     wrongTimeout_def readOnlyTick_def voiceFinished_def emit_def Let_def
     split: option.split pick.split prod.split)



lemma timers_inv_tv: "tv w = tv w' \<Longrightarrow> timers_inv w \<longleftrightarrow> timers_inv w'"
  unfolding timers_inv_def tv_def by (auto split: option.splits)

lemma timers_inv_setUp:
  "timers_inv w \<Longrightarrow> readOnlyMode (ps w) \<Longrightarrow> timers_inv (setUpReadOnlyInterval w)"
  by (auto simp: timers_inv_def setUpReadOnlyInterval_def handle_truthy_def set_ps_def Let_def
           split: option.splits)

lemma timers_inv_remove: "timers_inv w \<Longrightarrow> timers_inv (removeReadOnlyInterval w)"
  by (auto simp: timers_inv_def removeReadOnlyInterval_def handle_truthy_def set_ps_def
           split: option.splits)

lemma tv_set_visible [simp]: "tv (set_visible b w) = tv w"
  by (simp add: tv_def set_visible_def)

lemma tv_isStart [simp]: "tv (set_ps ((ps w)\<lparr>isStart := b\<rparr>) w) = tv w"
  by (simp add: tv_def set_ps_def)

lemma tv_initializeBar: "tv (state_of (initializeBar w)) = tv w"
  by (simp add: tv_def)

lemma timers_inv_cmdStart: "timers_inv w \<Longrightarrow> timers_inv (state_of (cmdStart w))"
proof -
  assume inv: "timers_inv w"
  let ?w1 = "set_ps ((ps w)\<lparr>isStart := \<not> isStart (ps w)\<rparr>) w"
  have i1: "timers_inv ?w1" using inv timers_inv_tv [OF tv_isStart] by blast
  have "timers_inv (state_of (initializeBar ?w1))"
    using i1 timers_inv_tv [OF tv_initializeBar] by blast
  moreover have "timers_inv (set_visible True a)" if "timers_inv a" for a
    using that timers_inv_tv [OF tv_set_visible] by blast
  moreover have "readOnlyMode (ps (set_visible True a)) = readOnlyMode (ps a)" for a
    by (simp add: set_visible_def)
  ultimately have on: "timers_inv (state_of (bind_res (initializeBar ?w1)
      (\<lambda>w2. let w3 = set_visible True w2 in
            Ok (if readOnlyMode (ps w3) then setUpReadOnlyInterval w3 else w3))))"
    by (cases "initializeBar ?w1") (auto simp: Let_def intro: timers_inv_setUp)
  have off: "timers_inv (removeReadOnlyInterval (set_visible False ?w1))"
    using i1 timers_inv_tv [OF tv_set_visible] timers_inv_remove by blast
  show ?thesis using on off by (simp add: cmdStart_def Let_def)
qed

lemma timers_inv_toggleReadOnly: "timers_inv w \<Longrightarrow> timers_inv (cmdToggleReadOnlyMode w)"
proof -
  assume inv: "timers_inv w"
  let ?w1 = "set_ps ((ps w)\<lparr>readOnlyMode := \<not> readOnlyMode (ps w)\<rparr>) w"
  show ?thesis
  proof (cases "readOnlyMode (ps w)")
    case True
    then have "timers_inv (removeReadOnlyInterval ?w1)"
      using inv by (auto simp: timers_inv_def removeReadOnlyInterval_def handle_truthy_def set_ps_def
                   split: option.splits)
    with True show ?thesis by (simp add: cmdToggleReadOnlyMode_def set_ps_def)
  next
    case False
    have "timers_inv ?w1" using inv False by (auto simp: timers_inv_def set_ps_def split: option.splits)
    then have "timers_inv (setUpReadOnlyInterval ?w1)"
      using False by (intro timers_inv_setUp) (simp_all add: set_ps_def)
    with False show ?thesis by (simp add: cmdToggleReadOnlyMode_def set_ps_def)
  qed
qed

lemma timers_inv_step: "timers_inv w \<Longrightarrow> timers_inv (state_of (step w e))"
proof (cases "e = CmdStart \<or> e = CmdToggleReadOnlyMode")
  case True
  assume "timers_inv w"
  with True show ?thesis using timers_inv_cmdStart timers_inv_toggleReadOnly by auto
next
  case False
  assume "timers_inv w"
  with False show ?thesis using step_tv [of e w] timers_inv_tv by blast
qed

lemma timers_inv_activate: "fresh_state p \<Longrightarrow> timers_inv (activate p c)"
  by (simp add: timers_inv_def activate_def fresh_state_def)



lemma voice_inv_cong:
  "voiceLock (ps w') = voiceLock (ps w) \<Longrightarrow> pendingVoice w' = pendingVoice w \<Longrightarrow> voice_inv w' = voice_inv w"
  by (simp add: voice_inv_def)

lemma voice_inv_bind:
  assumes "voice_inv (state_of r)" "\<And>a. voice_inv a \<Longrightarrow> voice_inv (state_of (f a))"
  shows "voice_inv (state_of (bind_res r f))"
  using assms by (cases r) auto

lemma voice_inv_text:
  "voice_inv w \<Longrightarrow> voice_inv (state_of (onDidChangeTextDocument w u chs))"
  by (auto simp: onDidChangeTextDocument_def Let_def emit_def set_ps_def set_input_text_def
      getCurrentInputBarContent_def voice_inv_def split: list.split option.split)

lemma voice_inv_config:
  "voice_inv w \<Longrightarrow> voice_inv (state_of (onDidChangeConfiguration w keys c))"
  unfolding onDidChangeConfiguration_def Let_def
  by (rule voice_inv_bind) (auto simp: voice_inv_def set_ps_def)

lemma voice_inv_cmdStart:
  "voice_inv w \<Longrightarrow> voice_inv (state_of (cmdStart w))"
proof -
  assume v: "voice_inv w"
  have vis: "voice_inv (set_visible b a) = voice_inv a" for a b
    by (simp add: voice_inv_def set_visible_def)
  have up: "voice_inv (setUpReadOnlyInterval a) = voice_inv a" for a
    by (simp add: voice_inv_def setUpReadOnlyInterval_def set_ps_def Let_def)
  have rm: "voice_inv (removeReadOnlyInterval a) = voice_inv a" for a
    by (simp add: voice_inv_def removeReadOnlyInterval_def set_ps_def)
  let ?w1 = "set_ps ((ps w)\<lparr>isStart := \<not> isStart (ps w)\<rparr>) w"
  have v1: "voice_inv ?w1" using v by (simp add: voice_inv_def set_ps_def)
  have on: "voice_inv (state_of (bind_res (initializeBar ?w1)
      (\<lambda>w2. let w3 = set_visible True w2 in
            Ok (if readOnlyMode (ps w3) then setUpReadOnlyInterval w3 else w3))))"
    using v1 by (intro voice_inv_bind) (auto simp: Let_def vis up)
  have off: "voice_inv (removeReadOnlyInterval (set_visible False ?w1))"
    using v1 by (simp add: vis rm)
  show ?thesis using on off by (simp add: cmdStart_def Let_def)
qed

lemma voice_inv_step: "voice_inv w \<Longrightarrow> voice_inv (state_of (step w e))"
proof (cases e)
  case (TextDocumentChanged u chs)
  assume "voice_inv w" then show ?thesis using TextDocumentChanged voice_inv_text by simp
next
  case (ConfigurationChanged keys c)
  assume "voice_inv w" then show ?thesis using ConfigurationChanged voice_inv_config by simp
next
  case CmdStart
  assume "voice_inv w" then show ?thesis using CmdStart voice_inv_cmdStart by simp
next
  case CmdToggleReadOnlyMode
  assume "voice_inv w" then show ?thesis using CmdToggleReadOnlyMode
    by (simp add: voice_inv_def cmdToggleReadOnlyMode_def setUpReadOnlyInterval_def
        removeReadOnlyInterval_def set_ps_def Let_def)
next
  case CmdPlayVoice
  assume "voice_inv w" then show ?thesis using CmdPlayVoice voice_inv_playVoice by simp
next
  case VoiceFinished
  assume "voice_inv w" then show ?thesis using VoiceFinished
    by (simp add: voice_inv_def voiceFinished_def set_ps_def)
qed (auto simp: voice_inv_def set_ps_def cmdChangeChapter_def cmdChangeDict_def cmdToggleWordVisibility_def
     cmdPrevWord_def cmdNextWord_def quickPickClosed_def chapterChosen_def dictChosen_def
     wrongTimeout_def readOnlyTick_def Let_def intro: voice_inv_playVoice [unfolded voice_inv_def]
     split: option.split pick.split prod.split)

lemma voice_inv_activate: "fresh_state p \<Longrightarrow> voice_inv (activate p c)"
  by (simp add: voice_inv_def activate_def fresh_state_def)


lemma reach_run: "reach w \<Longrightarrow> valid_run w es \<Longrightarrow> reach (run w es)"
  by (induction es arbitrary: w) (auto intro: reach.step)

lemma reach_timers_inv: "reach w \<Longrightarrow> timers_inv w"
  by (induction rule: reach.induct) (auto intro: timers_inv_activate timers_inv_step)

lemma reach_voice_inv: "reach w \<Longrightarrow> voice_inv w"
  by (induction rule: reach.induct) (auto intro: voice_inv_activate voice_inv_step)

section \<open>Safe runs: the invariant of the specification and the absence of exceptions\<close>

text \<open>
  \<open>world_inv\<close>: the plugin invariant of the specification holds and an open quick pick
  offers exactly the items the current state would offer. Two kinds of event break it, as
  the counterexamples of the root theory show: a configuration change to chapter length 0,
  and a chapter-length change while the chapter pick is open (its items were computed for
  the old chapter count). \<open>safe_event\<close> excludes exactly these; \<open>safe_reach\<close> are the
  worlds reachable by safe events.
\<close>


definition chapter_pick_open :: "world \<Rightarrow> bool" where
  "chapter_pick_open w = (case quickPick w of Some (ChapterPick _) \<Rightarrow> True | _ \<Rightarrow> False)"

definition pick_ok :: "world \<Rightarrow> bool" where
  "pick_ok w =
     (case quickPick w of
        None \<Rightarrow> True
      | Some (ChapterPick items) \<Rightarrow> items = chapter_items (ps w)
      | Some (DictPick keys) \<Rightarrow> keys = map fst (dictionaries (ps w)))"

definition world_inv :: "world \<Rightarrow> bool" where
  "world_inv w \<longleftrightarrow> plugin_inv (ps w) \<and> pick_ok w"

fun safe_event :: "world \<Rightarrow> event \<Rightarrow> bool" where
  "safe_event w (ConfigurationChanged keys c) =
     (''qwerty-learner.chapterLength'' \<in> set keys \<longrightarrow> 0 < cfgChapterLength c \<and> \<not> chapter_pick_open w)"
| "safe_event w _ = True"

lemma initializeBar_ok:
  "currentWord (ps w) \<noteq> None \<Longrightarrow> initializeBar w = Ok (state_of (initializeBar w))"
  by (auto simp: initializeBar_def setUpWordBar_def setUpTransBar_def setUpInputBar_def playVoice_def
      getInitialWordBarContent_def getInitialTransBarContent_def set_ps_def emit_def Let_def split: option.split)

lemma currentWord_some: "plugin_inv p \<Longrightarrow> currentWord p \<noteq> None"
  by (simp add: currentWord_inv)

lemma initializeBar_world_inv:
  "world_inv (state_of (initializeBar w)) = world_inv w"
proof -
  have "plugin_inv (ps (state_of (initializeBar w))) = plugin_inv (ps w)"
    using initializeBar_frame(1) [of w] by (simp add: voice_after_def)
  moreover have "chapter_items (ps (state_of (initializeBar w))) = chapter_items (ps w)"
    using initializeBar_frame(1) [of w] by (simp add: voice_after_def chapter_items_def)
  ultimately show ?thesis by (auto simp: world_inv_def pick_ok_def split: option.split pick.split)
qed



lemma plugin_inv_ops [simp]:
  "plugin_inv (wrongInput s) = plugin_inv s" "plugin_inv (clearWrong s) = plugin_inv s"
  "plugin_inv (fst (getCurrentInputBarContent s t)) = plugin_inv s"
  by (simp_all add: wrongInput_def clearWrong_def getCurrentInputBarContent_def)

lemma world_inv_cong:
  "ps v' = ps v \<Longrightarrow> quickPick v' = quickPick v \<Longrightarrow> world_inv v' = world_inv v"
  by (auto simp: world_inv_def pick_ok_def split: option.split pick.split)

lemma world_inv_set_ps:
  assumes "world_inv v" "plugin_inv p" "dictionaries p = dictionaries (ps v)"
    "totalChapters p = totalChapters (ps v)"
  shows "world_inv (set_ps p v)"
  using assms by (auto simp: world_inv_def pick_ok_def set_ps_def chapter_items_def
                       split: option.split pick.split)

lemma initializeBar_good:
  "world_inv v \<Longrightarrow> world_inv (state_of (initializeBar v)) \<and> is_ok (initializeBar v)"
proof -
  assume wi: "world_inv v"
  then have "currentWord (ps v) \<noteq> None" by (simp add: world_inv_def currentWord_some)
  then have "is_ok (initializeBar v)" by (subst initializeBar_ok) simp_all
  with wi show ?thesis by (simp add: initializeBar_world_inv)
qed

lemma world_inv_text:
  assumes wi: "world_inv w" and ne: "chs \<noteq> [] \<or> \<not> isStart (ps w) \<or> sublist ''vscode'' (scheme u)"
  shows "world_inv (state_of (onDidChangeTextDocument w u chs)) \<and> is_ok (onDidChangeTextDocument w u chs)"
proof (cases "isStart (ps w) \<and> \<not> sublist ''vscode'' (scheme u)")
  case False
  then show ?thesis using wi by (auto simp: onDidChangeTextDocument_def)
next
  case True
  with ne obtain ch rest where chs: "chs = ch # rest" by (cases chs) auto
  let ?t = "change_text ch"
  let ?w1 = "emit (ApplyDelete u (revert_range (change_range ch))) w"
  let ?w2 = "emit (PlaySound Click) ?w1"
  let ?s3 = "(ps w)\<lparr>currentInput := currentInput (ps w) @ ?t\<rparr>"
  let ?w3 = "set_input_text (currentInput (ps w) @ ?t) (set_ps ?s3 ?w2)"
  have pi: "plugin_inv (ps w)" using wi by (simp add: world_inv_def)
  have w1: "world_inv ?w1" using wi world_inv_cong [of ?w1 w] by (simp add: emit_def)
  have w3: "world_inv ?w3"
    using wi pi by (auto simp: world_inv_def pick_ok_def set_input_text_def set_ps_def emit_def
                         chapter_items_def split: option.split pick.split)
  obtain r where cr: "compareResult ?s3 = Some r"
    using pi by (simp add: compareResult_inv)
  have ps3: "ps ?w3 = ?s3" by (simp add: set_input_text_def set_ps_def emit_def)
  have succ: "world_inv (set_ps (finishWord ?s3) (emit (PlaySound Success) ?w3))"
  proof (rule world_inv_set_ps)
    show "world_inv (emit (PlaySound Success) ?w3)"
      using w3 world_inv_cong [of "emit (PlaySound Success) ?w3" ?w3] by (simp add: emit_def)
    show "plugin_inv (finishWord ?s3)" using pi by (simp add: finishWord_inv)
  qed (simp_all add: emit_def set_input_text_def set_ps_def)
  have wrong: "world_inv ((emit (PlaySound Wrong) ((set_ps (wrongInput ?s3) ?w3)\<lparr>inputBar :=
       (inputBar ?w3)\<lparr>item_color := Some (highlightWrongColor (cfg ?w3))\<rparr>\<rparr>))
       \<lparr>pendingWrongTimeouts := Suc (pendingWrongTimeouts ?w3)\<rparr>)"
    using w3 ps3 by (auto simp: world_inv_def pick_ok_def emit_def set_ps_def wrongInput_def
                         chapter_items_def split: option.split pick.split)
  let ?wr = "(emit (PlaySound Wrong) ((set_ps (wrongInput ?s3) ?w3)\<lparr>inputBar :=
       (inputBar ?w3)\<lparr>item_color := Some (highlightWrongColor (cfg ?w3))\<rparr>\<rparr>))
       \<lparr>pendingWrongTimeouts := Suc (pendingWrongTimeouts ?w3)\<rparr>"
  let ?ws = "set_ps (finishWord ?s3) (emit (PlaySound Success) ?w3)"
  have eq: "onDidChangeTextDocument w u chs =
     (if \<not> (?t \<noteq> [] \<and> length ?t = 1) then Ok w
      else if hasWrong (ps w) then Ok ?w1
      else if r = -2 then initializeBar ?ws
      else if 0 \<le> r then Ok ?wr else Ok ?w3)"
    using True chs cr unfolding onDidChangeTextDocument_def
    by (simp add: Let_def getCurrentInputBarContent_def emit_def)
  show ?thesis
    unfolding eq using wi w1 w3 succ wrong initializeBar_good [OF succ] by simp
qed



lemma good_bind:
  assumes "world_inv (state_of r) \<and> is_ok r"
    and "\<And>a. world_inv a \<Longrightarrow> world_inv (state_of (f a)) \<and> is_ok (f a)"
  shows "world_inv (state_of (bind_res r f)) \<and> is_ok (bind_res r f)"
  using assms by (cases r) auto

lemma world_inv_no_chapter_pick:
  assumes "world_inv v" "\<not> chapter_pick_open v" "plugin_inv p" "dictionaries p = dictionaries (ps v)"
  shows "world_inv (set_ps p v)"
  using assms by (auto simp: world_inv_def pick_ok_def chapter_pick_open_def set_ps_def
                       split: option.split pick.split)

lemma chapter_item_nth:
  "i < length (chapter_items s) \<Longrightarrow> chapter_items s ! i = string_of_nat (Suc i)
    \<and> i < totalChapters s"
  by (simp add: chapter_items_def del: upt_Suc)

lemma chapterChosen_good:
  assumes "world_inv w" "i < totalChapters (ps w)"
  shows "world_inv (state_of (chapterChosen (string_of_nat (Suc i)) w))
       \<and> is_ok (chapterChosen (string_of_nat (Suc i)) w)"
proof -
  have "plugin_inv (setChapter i (ps w))"
    using assms by (simp add: world_inv_def setChapter_inv)
  then have "world_inv (set_ps (setChapter i (ps w)) w)"
    using assms(1) by (intro world_inv_set_ps) simp_all
  then show ?thesis
    using initializeBar_good by (simp add: chapterChosen_def)
qed

lemma dictChosen_good:
  assumes "world_inv w" "k \<in> set (map fst (dictionaries (ps w)))" "\<not> chapter_pick_open w"
  shows "world_inv (state_of (dictChosen k w)) \<and> is_ok (dictChosen k w)"
proof -
  have "plugin_inv (setDictKey k (ps w))"
    using assms by (simp add: world_inv_def setDictKey_inv)
  then have "world_inv (set_ps (setDictKey k (ps w)) w)"
    using assms(1,3) by (intro world_inv_no_chapter_pick) simp_all
  then show ?thesis using initializeBar_good by (simp add: dictChosen_def)
qed



lemma world_inv_ps_flag:
  "world_inv v \<Longrightarrow> plugin_inv p \<Longrightarrow> dictionaries p = dictionaries (ps v) \<Longrightarrow>
   totalChapters p = totalChapters (ps v) \<Longrightarrow> world_inv (set_ps p v)"
  by (rule world_inv_set_ps)

lemma world_inv_timers:
  "world_inv (setUpReadOnlyInterval v) = world_inv v" "world_inv (removeReadOnlyInterval v) = world_inv v"
  "world_inv (set_visible b v) = world_inv v"
  by (auto simp: world_inv_def pick_ok_def setUpReadOnlyInterval_def removeReadOnlyInterval_def
      set_visible_def set_ps_def chapter_items_def Let_def split: option.split pick.split)

lemma config_good:
  assumes wi: "world_inv w" and safe: "safe_event w (ConfigurationChanged keys c)"
  shows "world_inv (state_of (onDidChangeConfiguration w keys c))
       \<and> is_ok (onDidChangeConfiguration w keys c)"
proof -
  let ?w0 = "w\<lparr>cfg := c\<rparr>"
  have w0: "world_inv ?w0" using wi world_inv_cong [of ?w0 w] by simp
  have first: "world_inv (state_of r) \<and> is_ok r"
    if "r = (if ''qwerty-learner.placeholder'' \<in> set keys
             then initializeBar (set_ps ((ps ?w0)\<lparr>placeholder := cfgPlaceholder c\<rparr>) ?w0) else Ok ?w0)" for r
  proof -
    have "world_inv (set_ps ((ps ?w0)\<lparr>placeholder := cfgPlaceholder c\<rparr>) ?w0)"
      using w0 by (intro world_inv_set_ps) (simp_all add: world_inv_def)
    then show ?thesis using that w0 initializeBar_good by auto
  qed
  have second: "world_inv (state_of (if ''qwerty-learner.chapterLength'' \<in> set keys
              then initializeBar (set_ps (setChapterLength (cfgChapterLength c) (ps a)) a)
              else Ok a)) \<and> is_ok (if ''qwerty-learner.chapterLength'' \<in> set keys
              then initializeBar (set_ps (setChapterLength (cfgChapterLength c) (ps a)) a)
              else Ok a)"
    if wa: "world_inv a" and qa: "quickPick a = quickPick w" for a
  proof (cases "''qwerty-learner.chapterLength'' \<in> set keys")
    case True
    with safe have n: "0 < cfgChapterLength c" and np: "\<not> chapter_pick_open a"
      using qa by (simp_all add: chapter_pick_open_def)
    have "plugin_inv (setChapterLength (cfgChapterLength c) (ps a))"
      using wa n by (simp add: world_inv_def setChapterLength_inv)
    then have "world_inv (set_ps (setChapterLength (cfgChapterLength c) (ps a)) a)"
      using wa np by (intro world_inv_no_chapter_pick) (simp_all add: setChapterLength_def reset_input_def)
    then show ?thesis using True initializeBar_good by simp
  next
    case False
    then show ?thesis using wa by simp
  qed
  have qp: "quickPick (state_of r) = quickPick w"
    if "r = (if ''qwerty-learner.placeholder'' \<in> set keys
             then initializeBar (set_ps ((ps ?w0)\<lparr>placeholder := cfgPlaceholder c\<rparr>) ?w0) else Ok ?w0)" for r
    using that by (simp add: set_ps_def)
  show ?thesis
    unfolding onDidChangeConfiguration_def Let_def
    using first [OF refl] second qp [OF refl]
    by (cases "if ''qwerty-learner.placeholder'' \<in> set keys
             then initializeBar (set_ps ((ps ?w0)\<lparr>placeholder := cfgPlaceholder c\<rparr>) ?w0) else Ok ?w0")
       (simp_all del: bind_res_Ok_iff)
qed



lemma flag_set_ps_good:
  assumes "world_inv w" "plugin_inv p" "dictionaries p = dictionaries (ps w)"
    "totalChapters p = totalChapters (ps w)"
  shows "world_inv (state_of (initializeBar (set_ps p w))) \<and> is_ok (initializeBar (set_ps p w))"
  using initializeBar_good [OF world_inv_set_ps [OF assms]] .

lemma cmdStart_good:
  assumes wi: "world_inv w"
  shows "world_inv (state_of (cmdStart w)) \<and> is_ok (cmdStart w)"
proof -
  let ?w1 = "set_ps ((ps w)\<lparr>isStart := \<not> isStart (ps w)\<rparr>) w"
  have w1: "world_inv ?w1" using wi by (intro world_inv_set_ps) (simp_all add: world_inv_def)
  have on: "world_inv (state_of (bind_res (initializeBar ?w1)
      (\<lambda>w2. let w3 = set_visible True w2 in
            Ok (if readOnlyMode (ps w3) then setUpReadOnlyInterval w3 else w3))))
      \<and> is_ok (bind_res (initializeBar ?w1)
      (\<lambda>w2. let w3 = set_visible True w2 in
            Ok (if readOnlyMode (ps w3) then setUpReadOnlyInterval w3 else w3)))"
    using w1 initializeBar_good by (intro good_bind) (simp_all add: Let_def world_inv_timers)
  show ?thesis using on w1 by (auto simp: cmdStart_def Let_def world_inv_timers)
qed

lemma quickPickClosed_good:
  assumes wi: "world_inv w" and en: "enabled w (QuickPickClosed sel)"
  shows "world_inv (state_of (quickPickClosed sel w)) \<and> is_ok (quickPickClosed sel w)"
proof -
  let ?w1 = "w\<lparr>quickPick := None\<rparr>"
  have w1: "world_inv ?w1" and np: "\<not> chapter_pick_open ?w1"
    using wi by (simp_all add: world_inv_def pick_ok_def chapter_pick_open_def)
  obtain p where qp: "quickPick w = Some p" using en by (cases "quickPick w") auto
  show ?thesis
  proof (cases sel)
    case None
    then show ?thesis using w1 qp by (cases p) (simp_all add: quickPickClosed_def)
  next
    case (Some i)
    show ?thesis
    proof (cases p)
      case (ChapterPick items)
      have items: "items = chapter_items (ps w)" using wi qp ChapterPick by (simp add: world_inv_def pick_ok_def)
      have i: "i < length items" using en qp ChapterPick Some by simp
      then have "items ! i = string_of_nat (Suc i)" "i < totalChapters (ps ?w1)"
        using chapter_item_nth items by simp_all
      then show ?thesis
        using chapterChosen_good [OF w1] qp ChapterPick Some by (simp add: quickPickClosed_def)
    next
      case (DictPick keys)
      have keys: "keys = map fst (dictionaries (ps w))" using wi qp DictPick by (simp add: world_inv_def pick_ok_def)
      have "i < length keys" using en qp DictPick Some by simp
      then have "keys ! i \<in> set (map fst (dictionaries (ps ?w1)))" using keys by simp
      then show ?thesis
        using dictChosen_good [OF w1 _ np] qp DictPick Some by (simp add: quickPickClosed_def)
    qed
  qed
qed

theorem world_inv_step:
  assumes wi: "world_inv w" and en: "enabled w e" and safe: "safe_event w e"
    and ne: "\<forall>u. e \<noteq> TextDocumentChanged u []"
  shows "world_inv (state_of (step w e)) \<and> is_ok (step w e)"
proof (cases e)
  case (TextDocumentChanged u chs)
  with ne have "chs \<noteq> []" by auto
  then show ?thesis using world_inv_text [OF wi] TextDocumentChanged by simp
next
  case (ConfigurationChanged keys c)
  then show ?thesis using config_good [OF wi] safe by simp
next
  case CmdStart
  then show ?thesis using cmdStart_good [OF wi] by simp
next
  case CmdChangeChapter
  then show ?thesis using wi by (simp add: cmdChangeChapter_def world_inv_def pick_ok_def)
next
  case CmdChangeDict
  then show ?thesis using wi by (simp add: cmdChangeDict_def world_inv_def pick_ok_def plugin_inv_def)
next
  case CmdToggleWordVisibility
  then show ?thesis using flag_set_ps_good [OF wi] wi
    by (simp add: cmdToggleWordVisibility_def world_inv_def)
next
  case CmdToggleReadOnlyMode
  have "world_inv (set_ps ((ps w)\<lparr>readOnlyMode := \<not> readOnlyMode (ps w)\<rparr>) w)"
    using wi by (intro world_inv_set_ps) (simp_all add: world_inv_def)
  then show ?thesis using CmdToggleReadOnlyMode
    by (simp add: cmdToggleReadOnlyMode_def Let_def world_inv_timers)
next
  case CmdPlayVoice
  obtain wd where cw: "currentWord (ps w) = Some wd"
    using wi by (auto simp: world_inv_def currentWord_inv)
  let ?v = "set_ps ((ps w)\<lparr>voiceLock := True\<rparr>) w"
  let ?v' = "(emit (PlayVoice (name wd)) ?v)\<lparr>pendingVoice := pendingVoice ?v + 1\<rparr>"
  have v: "world_inv ?v" using wi by (intro world_inv_set_ps) (simp_all add: world_inv_def)
  have v': "world_inv ?v'" using v world_inv_cong [of ?v' ?v] by (simp add: emit_def)
  have "playVoice w = (if shouldPlayVoice (ps w) then Ok ?v' else Ok w)"
    using cw by (simp add: playVoice_def set_ps_def)
  then show ?thesis using CmdPlayVoice wi v' by simp
next
  case CmdPrevWord
  then show ?thesis using flag_set_ps_good [OF wi, of "prevWord (ps w)"] wi
    by (simp add: cmdPrevWord_def world_inv_def prevWord_inv)
next
  case CmdNextWord
  then show ?thesis using flag_set_ps_good [OF wi, of "nextWord (ps w)"] wi
    by (simp add: cmdNextWord_def world_inv_def finishWord_inv nextWord_def)
next
  case (QuickPickClosed sel)
  then show ?thesis using quickPickClosed_good [OF wi] en by simp
next
  case WrongTimeoutFired
  let ?v = "w\<lparr>pendingWrongTimeouts := pendingWrongTimeouts w - 1\<rparr>"
  have v: "world_inv ?v" using wi world_inv_cong [of ?v w] by simp
  let ?u = "set_ps (clearWrong (ps ?v)) ?v"
  have u: "world_inv ?u" using v by (intro world_inv_set_ps) (simp_all add: world_inv_def)
  have "world_inv (?u\<lparr>inputBar := (inputBar ?v)\<lparr>item_color := None\<rparr>\<rparr>)"
    using u world_inv_cong [of "?u\<lparr>inputBar := (inputBar ?v)\<lparr>item_color := None\<rparr>\<rparr>" ?u] by simp
  then show ?thesis using WrongTimeoutFired initializeBar_good by (simp add: wrongTimeout_def)
next
  case (IntervalFired i)
  then show ?thesis using flag_set_ps_good [OF wi, of "finishWord (ps w)"] wi
    by (simp add: readOnlyTick_def world_inv_def finishWord_inv)
next
  case VoiceFinished
  have "world_inv (voiceFinished w)"
    using wi by (auto simp: voiceFinished_def world_inv_def pick_ok_def set_ps_def chapter_items_def
                    split: option.split pick.split)
  then show ?thesis using VoiceFinished by simp
next
  case Deactivate
  then show ?thesis using wi world_inv_cong [of "w\<lparr>deactivated := True\<rparr>" w] by simp
qed


lemma world_inv_step_state:
  assumes wi: "world_inv w" and en: "enabled w e" and safe: "safe_event w e"
  shows "world_inv (state_of (step w e))"
proof (cases "\<exists>u. e = TextDocumentChanged u []")
  case True
  then obtain u where "e = TextDocumentChanged u []" by blast
  then show ?thesis using wi by (simp add: onDidChangeTextDocument_def)
next
  case False
  then show ?thesis using world_inv_step [OF wi en safe] by blast
qed

inductive safe_reach :: "world \<Rightarrow> bool" where
  init: "fresh_state p \<Longrightarrow> plugin_inv p \<Longrightarrow> safe_reach (activate p c)"
| step: "safe_reach w \<Longrightarrow> enabled w e \<Longrightarrow> safe_event w e \<Longrightarrow> safe_reach (state_of (step w e))"

lemma safe_reach_world_inv: "safe_reach w \<Longrightarrow> world_inv w"
proof (induction rule: safe_reach.induct)
  case (init p c)
  then show ?case by (simp add: world_inv_def pick_ok_def activate_def)
next
  case (step w e)
  then show ?case using world_inv_step_state by blast
qed

lemma safe_reach_reach: "safe_reach w \<Longrightarrow> reach w"
  by (induction rule: safe_reach.induct) (auto intro: reach.intros)

fun safe_run :: "world \<Rightarrow> event list \<Rightarrow> bool" where
  "safe_run w [] = True"
| "safe_run w (e # es) = (enabled w e \<and> safe_event w e \<and> safe_run (state_of (step w e)) es)"

lemma safe_reach_run: "safe_reach w \<Longrightarrow> safe_run w es \<Longrightarrow> safe_reach (run w es)"
  by (induction es arbitrary: w) (auto intro: safe_reach.step)

end
