(* ===== verification/Typing.thy ===== *)
theory Typing
  imports Extension
begin

text \<open>
  The typing state machine of spec section 4.2 (Typing, then Correct and advance, or Wrong,
  flash and reset) as an invariant of the plugin state: without the wrong flag the typed
  buffer is a correct prefix of the current word (case-folded, as the comparator compares),
  shorter than the word unless both are empty; with the wrong flag it is a correct prefix
  followed by exactly one wrong character. Every handler of \<open>src/index.ts\<close> keeps it, in
  every reachable world, exceptions included.
\<close>

definition matches_prefix :: "string \<Rightarrow> string \<Rightarrow> bool" where
  "matches_prefix word inp \<longleftrightarrow> length inp \<le> length word \<and> list_all2 same_char (take (length inp) word) inp"

definition input_ok :: "plugin_state \<Rightarrow> bool" where
  "input_ok s \<longleftrightarrow> (case currentWord s of
      None \<Rightarrow> True
    | Some wd \<Rightarrow>
        (if hasWrong s
         then currentInput s \<noteq> [] \<and> length (currentInput s) \<le> length (name wd)
              \<and> matches_prefix (name wd) (butlast (currentInput s))
              \<and> \<not> same_char (name wd ! (length (currentInput s) - 1)) (last (currentInput s))
         else matches_prefix (name wd) (currentInput s)
              \<and> (currentInput s = [] \<or> length (currentInput s) < length (name wd))))"

text \<open>
  The document listener written against the abstractions instead of the encodings the code
  uses: the scheme guard as a substring test instead of \<open>indexOf(...) !== -1\<close>, and the
  branch on the comparator's outcome (complete, mismatch, continue) of the specification
  instead of the numeric codes \<open>-2\<close>, \<open>\<ge> 0\<close> and the rest. Everything else is as in
  \<open>onDidChangeTextDocument\<close>.
\<close>

definition listener_ref :: "world \<Rightarrow> uri \<Rightarrow> content_change list \<Rightarrow> world res" where
  "listener_ref w u changes =
     (if \<not> isStart (ps w) \<or> sublist ''vscode'' (scheme u) then Ok w
      else case changes of
        [] \<Rightarrow> Exc TypeError w
      | ch # _ \<Rightarrow>
          if length (change_text ch) \<noteq> 1 then Ok w
          else
            let w1 = emit (ApplyDelete u (revert_range (change_range ch))) w in
            if hasWrong (ps w1) then Ok w1
            else
              let s3 = (ps w1)\<lparr>currentInput := currentInput (ps w1) @ change_text ch\<rparr>;
                  w3 = set_input_text (currentInput s3) (set_ps s3 (emit (PlaySound Click) w1))
              in case currentWord s3 of
                   None \<Rightarrow> Exc TypeError w3
                 | Some wd \<Rightarrow>
                     (case compare_spec (name wd) (currentInput s3) of
                        Complete \<Rightarrow> initializeBar (set_ps (finishWord s3) (emit (PlaySound Success) w3))
                      | Mismatch k \<Rightarrow>
                          Ok ((emit (PlaySound Wrong)
                                 ((set_ps (wrongInput s3) w3)\<lparr>inputBar :=
                                    (inputBar w3)\<lparr>item_color := Some (highlightWrongColor (cfg w3))\<rparr>\<rparr>))
                              \<lparr>pendingWrongTimeouts := Suc (pendingWrongTimeouts w3)\<rparr>)
                      | Continue \<Rightarrow> Ok w3))"

section \<open>The comparator on a correct prefix\<close>

lemma matches_prefix_snoc:
  "matches_prefix w (old @ [c]) \<longleftrightarrow>
     matches_prefix w old \<and> length old < length w \<and> same_char (w ! length old) c"
proof (cases "length old < length w")
  case True
  then have "take (Suc (length old)) w = take (length old) w @ [w ! length old]"
    by (simp add: take_Suc_conv_app_nth)
  with True show ?thesis by (simp add: matches_prefix_def list_all2_append)
next
  case False
  then show ?thesis by (simp add: matches_prefix_def)
qed

lemma compare_from_extend:
  "matches_prefix w old \<Longrightarrow> length old < length w \<Longrightarrow>
   compare_from i w (old @ [c]) =
     (if same_char (w ! length old) c then (if Suc (length old) = length w then -2 else -1)
      else int (i + length old))"
proof (induction old arbitrary: w i)
  case Nil
  then obtain x xs where "w = x # xs" by (cases w) auto
  then show ?case by (cases xs) auto
next
  case (Cons a old)
  then obtain x xs where w: "w = x # xs" by (cases w) auto
  with Cons.prems have "same_char x a" "matches_prefix xs old" "length old < length xs"
    by (auto simp: matches_prefix_def)
  with Cons.IH [of xs "Suc i"] show ?case by (simp add: w)
qed

section \<open>Operations that keep or reset the buffer\<close>

lemma input_ok_reset: "currentInput s = [] \<Longrightarrow> \<not> hasWrong s \<Longrightarrow> input_ok s"
  by (simp add: input_ok_def matches_prefix_def split: option.split)

lemma input_ok_flags [simp]:
  "input_ok (s\<lparr>voiceLock := b\<rparr>) = input_ok s"
  "input_ok (s\<lparr>isStart := b\<rparr>) = input_ok s"
  "input_ok (s\<lparr>wordVisibility := b\<rparr>) = input_ok s"
  "input_ok (s\<lparr>readOnlyMode := b\<rparr>) = input_ok s"
  "input_ok (s\<lparr>readOnlyIntervalId := h\<rparr>) = input_ok s"
  "input_ok (s\<lparr>placeholder := t\<rparr>) = input_ok s"
  by (simp_all add: input_ok_def split: option.split)

lemma input_ok_methods [simp]:
  "input_ok (reset_input s)" "input_ok (finishWord s)" "input_ok (nextWord s)"
  "input_ok (prevWord s)" "input_ok (setChapter c s)" "input_ok (setDictKey k s)"
  "input_ok (setChapterLength n s)" "input_ok (clearWrong s)"
  by (auto intro: input_ok_reset simp: reset_input_def finishWord_def nextWord_def prevWord_def
      setChapter_def setDictKey_def setChapterLength_def clearWrong_def Let_def)

lemma input_ok_initializeBar [simp]: "input_ok (ps (state_of (initializeBar w))) = input_ok (ps w)"
  using initializeBar_frame(1) [of w] by (simp add: voice_after_def)

section \<open>The document listener keeps the buffer well formed\<close>

text \<open>What the comparator answers on a buffer extended by one character.\<close>

lemma compareResult_extend:
  assumes ok: "input_ok s" and nw: "\<not> hasWrong s" and cw: "currentWord s = Some wd"
  shows "compareResult (s\<lparr>currentInput := currentInput s @ [c]\<rparr>) = Some
     (if length (currentInput s) < length (name wd) \<and> \<not> same_char (name wd ! length (currentInput s)) c
      then int (length (currentInput s))
      else if length (currentInput s) < length (name wd) \<and> Suc (length (currentInput s)) < length (name wd)
      then -1 else -2)"
proof (cases "length (currentInput s) < length (name wd)")
  case True
  with ok nw cw have "matches_prefix (name wd) (currentInput s)" by (simp add: input_ok_def)
  with True cw show ?thesis by (simp add: compareResult_def compareWord_def compare_from_extend)
next
  case False
  with ok nw cw have "currentInput s = [] \<and> name wd = []" by (auto simp: input_ok_def)
  with cw show ?thesis by (simp add: compareResult_def compareWord_def)
qed

lemma input_ok_extend:
  assumes ok: "input_ok s" and nw: "\<not> hasWrong s" and cw: "currentWord s = Some wd"
  shows "compareResult (s\<lparr>currentInput := currentInput s @ [c]\<rparr>) = Some (-1) \<Longrightarrow>
           input_ok (s\<lparr>currentInput := currentInput s @ [c]\<rparr>)"
    and "0 \<le> r \<Longrightarrow> compareResult (s\<lparr>currentInput := currentInput s @ [c]\<rparr>) = Some r \<Longrightarrow>
           input_ok (wrongInput (s\<lparr>currentInput := currentInput s @ [c]\<rparr>))"
proof -
  have mp: "matches_prefix (name wd) (currentInput s)"
    using ok nw cw by (simp add: input_ok_def)
  note cr = compareResult_extend [OF ok nw cw, of c]
  show "compareResult (s\<lparr>currentInput := currentInput s @ [c]\<rparr>) = Some (-1) \<Longrightarrow>
           input_ok (s\<lparr>currentInput := currentInput s @ [c]\<rparr>)"
    using cr mp nw cw by (auto simp: input_ok_def matches_prefix_snoc split: if_splits)
  show "0 \<le> r \<Longrightarrow> compareResult (s\<lparr>currentInput := currentInput s @ [c]\<rparr>) = Some r \<Longrightarrow>
           input_ok (wrongInput (s\<lparr>currentInput := currentInput s @ [c]\<rparr>))"
    using cr mp nw cw by (auto simp: input_ok_def wrongInput_def split: if_splits)
qed

lemma input_ok_text:
  assumes ok: "input_ok (ps w)"
  shows "input_ok (ps (state_of (onDidChangeTextDocument w u chs)))"
proof (cases "isStart (ps w) \<and> js_indexOf (scheme u) ''vscode'' = -1 \<and> chs \<noteq> []
              \<and> length (change_text (hd chs)) = 1 \<and> \<not> hasWrong (ps w)")
  case False
  then show ?thesis using ok
    by (auto simp: onDidChangeTextDocument_def emit_def Let_def split: list.split)
next
  case True
  then obtain ch rest c where chs: "chs = ch # rest" and t: "change_text ch = [c]"
    by (cases chs) (auto simp: length_Suc_conv)
  let ?s3 = "(ps w)\<lparr>currentInput := currentInput (ps w) @ [c]\<rparr>"
  note defs = onDidChangeTextDocument_def Let_def emit_def set_ps_def set_input_text_def
    getCurrentInputBarContent_def
  show ?thesis
  proof (cases "compareResult ?s3")
    case None
    then have "currentWord (ps w) = None" by (simp add: compareResult_def)
    with None True chs t show ?thesis by (simp add: defs input_ok_def)
  next
    case (Some r)
    then obtain wd where cw: "currentWord (ps w) = Some wd" by (auto simp: compareResult_def)
    have nw: "\<not> hasWrong (ps w)" using True by simp
    consider "r = -2" | "r \<noteq> -2" "0 \<le> r" | "r = -1"
      using compareResult_extend [OF ok nw cw, of c] Some by (auto split: if_splits)
    then show ?thesis
    proof cases
      case 1
      with Some True chs t show ?thesis by (simp add: defs)
    next
      case 2
      with Some True chs t input_ok_extend(2) [OF ok nw cw, of r c] show ?thesis by (simp add: defs)
    next
      case 3
      with Some True chs t input_ok_extend(1) [OF ok nw cw, of c] show ?thesis by (simp add: defs)
    qed
  qed
qed

section \<open>Every handler keeps the buffer well formed\<close>

lemma input_ok_timers [simp]:
  "input_ok (ps (setUpReadOnlyInterval w)) = input_ok (ps w)"
  "input_ok (ps (removeReadOnlyInterval w)) = input_ok (ps w)"
  "ps (set_visible b w) = ps w"
  by (simp_all add: setUpReadOnlyInterval_def removeReadOnlyInterval_def set_ps_def set_visible_def Let_def)

lemma input_ok_step:
  assumes ok: "input_ok (ps w)"
  shows "input_ok (ps (state_of (step w e)))"
proof (cases e)
  case (TextDocumentChanged u chs)
  then show ?thesis using input_ok_text [OF ok] by simp
next
  case (ConfigurationChanged keys c)
  have "input_ok (ps (state_of (onDidChangeConfiguration w keys c)))"
    unfolding onDidChangeConfiguration_def Let_def
    by (rule inv_bind_res [where P = "\<lambda>v. input_ok (ps v)"]) (simp_all add: ok set_ps_def)
  then show ?thesis using ConfigurationChanged by simp
next
  case CmdStart
  have "input_ok (ps (state_of (cmdStart w)))"
    unfolding cmdStart_def Let_def
    by (auto intro!: inv_bind_res [where P = "\<lambda>v. input_ok (ps v)"] simp: ok set_ps_def)
  then show ?thesis using CmdStart by simp
next
  case (QuickPickClosed sel)
  have "input_ok (ps (state_of (quickPickClosed sel w)))"
    using ok by (auto simp: quickPickClosed_def chapterChosen_def dictChosen_def set_ps_def Let_def
        split: option.split pick.split)
  then show ?thesis using QuickPickClosed by simp
next
  case WrongTimeoutFired
  then show ?thesis by (simp add: wrongTimeout_def set_ps_def)
qed (use ok in \<open>auto simp: cmdChangeChapter_def cmdChangeDict_def cmdToggleWordVisibility_def
      cmdToggleReadOnlyMode_def playVoice_def cmdPrevWord_def cmdNextWord_def readOnlyTick_def
      voiceFinished_def set_ps_def emit_def Let_def split: option.split\<close>)

section \<open>The numeric protocol between comparator and listener\<close>

lemma compareWord_cases:
  "compareWord w i = (case compare_spec w i of Complete \<Rightarrow> -2 | Continue \<Rightarrow> -1 | Mismatch j \<Rightarrow> int j)"
  by (simp add: compareWord_def compare_from_spec split: cmp_result.split)

text \<open>
  C14: The listener's encodings are faithful: \<open>onDidChangeTextDocument\<close>, which tests the
  scheme with \<open>indexOf\<close> and branches on the numeric code of the comparator, behaves exactly
  as the reference listener that tests for the substring and branches on the outcome of the
  specification's comparator contract, on every world, URI and change list.
\<close>

theorem listener_equiv_ref: "onDidChangeTextDocument w u chs = listener_ref w u chs"
  by (simp add: onDidChangeTextDocument_def listener_ref_def Let_def compareResult_def
      compareWord_cases getCurrentInputBarContent_def emit_def set_ps_def
      split: list.split option.split cmp_result.split)

end
