(* ===== verification/Document.thy ===== *)
theory Document
  imports Extension
begin

text \<open>
  The host document as the listener's edits see it. The editor keeps a text document as a
  list of lines; a content change replaces a range by a text, and a workspace edit deletes
  a range. Both go through the host's position validation: a line past the end becomes the
  end of the last line, a character past the end of its line becomes the end of the line,
  and a range is normalised so that its start comes first. This is the host API
  (\<open>vscode.TextDocument\<close>, \<open>WorkspaceEdit.delete\<close>, \<open>workspace.applyEdit\<close>), modelled from
  its documentation; the range the listener deletes is \<open>revert_range\<close> of theory
  \<open>Extension\<close> (\<open>src/index.ts\<close> line 48).
\<close>

type_synonym document = "string list"

abbreviation nl :: char where
  "nl \<equiv> CHR 0x0A"

fun split_lines :: "string \<Rightarrow> string list" where
  "split_lines [] = [[]]"
| "split_lines (c # cs) =
     (let ls = split_lines cs in if c = nl then [] # ls else (c # hd ls) # tl ls)"

definition valid_doc :: "document \<Rightarrow> bool" where
  "valid_doc d \<longleftrightarrow> d \<noteq> [] \<and> list_all (\<lambda>l. nl \<notin> set l) d"

fun valid_pos :: "document \<Rightarrow> pos \<Rightarrow> bool" where
  "valid_pos d (Pos l c) \<longleftrightarrow> l < length d \<and> c \<le> length (d ! l)"

fun validate_pos :: "document \<Rightarrow> pos \<Rightarrow> pos" where
  "validate_pos d (Pos l c) =
     (if l < length d then Pos l (min c (length (d ! l))) else Pos (length d - 1) (length (last d)))"

fun pos_le :: "pos \<Rightarrow> pos \<Rightarrow> bool" where
  "pos_le (Pos l1 c1) (Pos l2 c2) \<longleftrightarrow> l1 < l2 \<or> l1 = l2 \<and> c1 \<le> c2"

fun replace_valid :: "document \<Rightarrow> pos \<Rightarrow> pos \<Rightarrow> string \<Rightarrow> document" where
  "replace_valid d (Pos l1 c1) (Pos l2 c2) t =
     take l1 d @ split_lines (take c1 (d ! l1) @ t @ drop c2 (d ! l2)) @ drop (Suc l2) d"

fun apply_edit :: "document \<Rightarrow> text_range \<Rightarrow> string \<Rightarrow> document" where
  "apply_edit d (Range p q) t =
     (let p' = validate_pos d p; q' = validate_pos d q in
      if pos_le p' q' then replace_valid d p' q' t else replace_valid d q' p' t)"

definition is_edit :: "effect \<Rightarrow> bool" where
  "is_edit e \<longleftrightarrow> (case e of ApplyDelete _ _ \<Rightarrow> True | _ \<Rightarrow> False)"

fun host_apply :: "uri \<Rightarrow> document \<Rightarrow> effect list \<Rightarrow> document" where
  "host_apply u d [] = d"
| "host_apply u d (ApplyDelete v r # es) = host_apply u (if v = u then apply_edit d r [] else d) es"
| "host_apply u d (PlaySound s # es) = host_apply u d es"
| "host_apply u d (PlayVoice s # es) = host_apply u d es"

definition new_effects :: "world \<Rightarrow> world res \<Rightarrow> effect list" where
  "new_effects w r = drop (length (effects w)) (effects (state_of r))"

section \<open>Edits on a well-formed document\<close>

lemma split_lines_single [simp]: "nl \<notin> set s \<Longrightarrow> split_lines s = [s]"
  by (induction s) (auto simp: Let_def)

lemma valid_doc_line: "valid_doc d \<Longrightarrow> l < length d \<Longrightarrow> nl \<notin> set (d ! l)"
  by (simp add: valid_doc_def list_all_length)

text \<open>Typing a character other than a line break at a valid position inserts it into its line.\<close>

lemma insert_char:
  assumes "valid_pos d (Pos l c)" "nl \<notin> set (d ! l)" "x \<noteq> nl"
  shows "apply_edit d (Range (Pos l c) (Pos l c)) [x] = d[l := take c (d ! l) @ x # drop c (d ! l)]"
proof -
  have "nl \<notin> set (take c (d ! l) @ x # drop c (d ! l))"
    using assms(2,3) by (auto dest: in_set_takeD in_set_dropD)
  then show ?thesis using assms(1) by (simp add: upd_conv_take_nth_drop min_def)
qed

text \<open>Deleting the character after a position of the line it was inserted into removes it.\<close>

lemma delete_inserted:
  assumes "valid_pos d (Pos l c)" "nl \<notin> set (d ! l)"
  shows "apply_edit (d[l := take c (d ! l) @ x # drop c (d ! l)]) (Range (Pos l c) (Pos l (Suc c))) [] = d"
proof -
  let ?L = "d ! l" let ?L' = "take c ?L @ x # drop c ?L" let ?d' = "d[l := ?L']"
  have l: "l < length d" and c: "c \<le> length ?L" using assms(1) by simp_all
  have tk: "take c ?L' = take c ?L" and dr: "drop (Suc c) ?L' = drop c ?L"
    using c by simp_all
  have "validate_pos ?d' (Pos l c) = Pos l c" "validate_pos ?d' (Pos l (Suc c)) = Pos l (Suc c)"
    using l c by simp_all
  then have "apply_edit ?d' (Range (Pos l c) (Pos l (Suc c))) [] =
      take l d @ split_lines (take c ?L @ drop c ?L) @ drop (Suc l) d"
    using l by (simp add: tk dr)
  also have "\<dots> = d" using assms(2) l by (simp add: id_take_nth_drop [symmetric])
  finally show ?thesis .
qed

text \<open>On the document, the listener's delete range undoes a typed character other than a line break.\<close>

lemma revert_insertion:
  assumes "valid_doc d" "valid_pos d p" "x \<noteq> nl"
  shows "apply_edit (apply_edit d (Range p p) [x]) (revert_range (Range p p)) [] = d"
proof -
  obtain l c where p: "p = Pos l c" by (cases p)
  have v: "valid_pos d (Pos l c)" and line: "nl \<notin> set (d ! l)"
    using assms(1,2) p by (simp_all add: valid_doc_line)
  have ins: "apply_edit d (Range p p) [x] = d[l := take c (d ! l) @ x # drop c (d ! l)]"
    unfolding p using v line assms(3) by (rule insert_char)
  have "revert_range (Range p p) = Range (Pos l c) (Pos l (Suc c))" by (simp add: p)
  then show ?thesis unfolding ins by (simp only: delete_inserted [OF v line])
qed

lemma host_apply_non_edits:
  "list_all (\<lambda>e. \<not> is_edit e) es \<Longrightarrow> host_apply u d es = d"
  by (induction u d es rule: host_apply.induct) (simp_all add: is_edit_def)

section \<open>The edits the handlers request\<close>

lemma is_edit_simps [simp]:
  "is_edit (ApplyDelete u r)" "\<not> is_edit (PlaySound k)" "\<not> is_edit (PlayVoice t)"
  by (simp_all add: is_edit_def)

definition voice_effects :: "world \<Rightarrow> effect list" where
  "voice_effects w =
     (if getInitialWordBarContent (ps w) \<noteq> None \<and> shouldPlayVoice (ps w)
      then (case currentWord (ps w) of Some wd \<Rightarrow> [PlayVoice (name wd)] | None \<Rightarrow> []) else [])"

lemma initializeBar_effects:
  "effects (state_of (initializeBar w)) = effects w @ voice_effects w"
proof -
  have "effects (state_of (initializeBar w)) = effects (state_of (setUpWordBar w))"
    by (rule initializeBar_state) (simp_all add: setUpTransBar_def setUpInputBar_def split: option.split)
  then show ?thesis
    by (auto simp: setUpWordBar_def playVoice_def emit_def set_ps_def Let_def voice_effects_def
             split: option.split)
qed

lemma voice_effects_non_edit: "list_all (\<lambda>e. \<not> is_edit e) (voice_effects w)"
  by (simp add: voice_effects_def split: option.split)

lemma listener_effects:
  assumes "isStart (ps w)" "\<not> sublist ''vscode'' (scheme u)"
  shows "\<exists>vs. new_effects w (onDidChangeTextDocument w u (ContentChange r [x] n # rest)) =
                ApplyDelete u (revert_range r) # vs \<and> list_all (\<lambda>e. \<not> is_edit e) vs"
  using assms
  by (auto simp: onDidChangeTextDocument_def new_effects_def emit_def set_ps_def set_input_text_def
      Let_def initializeBar_effects voice_effects_non_edit getCurrentInputBarContent_def
      split: option.split prod.split)


text \<open>The document after the listener's requested edits are applied, whatever branch it takes.\<close>

lemma host_apply_listener:
  assumes "isStart (ps w)" "\<not> sublist ''vscode'' (scheme u)"
  shows "host_apply u d (new_effects w (onDidChangeTextDocument w u (ContentChange r [x] n # rest))) =
           apply_edit d (revert_range r) []"
proof -
  obtain vs where "new_effects w (onDidChangeTextDocument w u (ContentChange r [x] n # rest)) =
      ApplyDelete u (revert_range r) # vs" and "list_all (\<lambda>e. \<not> is_edit e) vs"
    using listener_effects [OF assms] by blast
  then show ?thesis by (simp add: host_apply_non_edits)
qed

end
