(* ===== verification/Voice.thy ===== *)
theory Voice
  imports Document
begin

text \<open>
  The voice player \<open>voicePlayer(word, callback)\<close> of \<open>src/resource/voice\<close> as the code
  sees it: \<open>playVoice\<close> requests a playback (the effect \<open>PlayVoice\<close>) and sets
  \<open>voiceLock\<close>; only the completion callback (the event \<open>VoiceFinished\<close>) clears it again.
  This theory shows what follows when the callback never comes (a playback that fails
  without calling back; spec section 7 says such failures are not surfaced): the lock is
  never released and no voice is requested again, whatever the user does.
\<close>

definition is_voice :: "effect \<Rightarrow> bool" where
  "is_voice e \<longleftrightarrow> (case e of PlayVoice _ \<Rightarrow> True | _ \<Rightarrow> False)"

lemma is_voice_simps [simp]:
  "is_voice (PlayVoice t)" "\<not> is_voice (PlaySound k)" "\<not> is_voice (ApplyDelete u r)"
  by (simp_all add: is_voice_def)

definition voice_view :: "world \<Rightarrow> bool \<times> effect list" where
  "voice_view w = (voiceLock (ps w), filter is_voice (effects w))"

lemma voice_effects_locked: "voiceLock (ps w) \<Longrightarrow> voice_effects w = []"
  by (simp add: voice_effects_def shouldPlayVoice_def)

lemma initializeBar_locked:
  "voiceLock (ps w) \<Longrightarrow> voice_view (state_of (initializeBar w)) = voice_view w"
  using initializeBar_effects [of w] by (simp add: voice_view_def voice_effects_locked)

lemma voice_view_frame [simp]:
  "voice_view (emit (PlaySound k) w) = voice_view w"
  "voice_view (emit (ApplyDelete u r) w) = voice_view w"
  "voice_view (set_input_text t w) = voice_view w"
  "voice_view (set_visible b w) = voice_view w"
  "voice_view (setUpReadOnlyInterval w) = voice_view w"
  "voice_view (removeReadOnlyInterval w) = voice_view w"
  by (simp_all add: voice_view_def emit_def set_input_text_def set_visible_def
      setUpReadOnlyInterval_def removeReadOnlyInterval_def set_ps_def Let_def)

declare ps_frames [simp]

lemma voice_view_set_ps [simp]:
  "voiceLock p = voiceLock (ps w) \<Longrightarrow> voice_view (set_ps p w) = voice_view w"
  by (simp add: voice_view_def set_ps_def)

lemma voice_view_fields [simp]:
  "voice_view (w\<lparr>cfg := c\<rparr>) = voice_view w"
  "voice_view (w\<lparr>quickPick := q\<rparr>) = voice_view w"
  "voice_view (w\<lparr>pendingWrongTimeouts := n\<rparr>) = voice_view w"
  "voice_view (w\<lparr>inputBar := b\<rparr>) = voice_view w"
  "voice_view (w\<lparr>deactivated := x\<rparr>) = voice_view w"
  by (simp_all add: voice_view_def)

lemma voice_view_locked: "voice_view v = voice_view w \<Longrightarrow> voiceLock (ps v) = voiceLock (ps w)"
  by (simp add: voice_view_def)

lemma initializeBar_kept:
  "voice_view v = voice_view w \<Longrightarrow> voiceLock (ps w) \<Longrightarrow> voice_view (state_of (initializeBar v)) = voice_view w"
  using initializeBar_locked [of v] voice_view_locked [of v w] by simp

text \<open>Without the completion callback, no handler releases the lock or requests a voice.\<close>

lemma step_locked:
  assumes lock: "voiceLock (ps w)" and e: "e \<noteq> VoiceFinished"
  shows "voice_view (state_of (step w e)) = voice_view w"
proof (cases e)
  case (ConfigurationChanged keys c)
  have "voice_view (state_of (onDidChangeConfiguration w keys c)) = voice_view w"
    unfolding onDidChangeConfiguration_def Let_def
    by (rule inv_bind_res [where P = "\<lambda>v. voice_view v = voice_view w"])
       (auto intro!: initializeBar_kept simp: lock)
  then show ?thesis using ConfigurationChanged by simp
next
  case CmdStart
  have "voice_view (state_of (cmdStart w)) = voice_view w"
    unfolding cmdStart_def Let_def
    by (auto intro!: inv_bind_res [where P = "\<lambda>v. voice_view v = voice_view w"] initializeBar_kept
        simp: lock)
  then show ?thesis using CmdStart by simp
next
  case (TextDocumentChanged u chs)
  have "voice_view (state_of (onDidChangeTextDocument w u chs)) = voice_view w"
    using lock
    by (auto intro!: initializeBar_kept simp: onDidChangeTextDocument_def Let_def
        getCurrentInputBarContent_def wrongInput_def split: list.split option.split prod.split)
  then show ?thesis using TextDocumentChanged by simp
qed (use lock e in \<open>auto intro!: initializeBar_kept simp: cmdChangeChapter_def
      cmdChangeDict_def cmdToggleWordVisibility_def cmdToggleReadOnlyMode_def playVoice_def
      shouldPlayVoice_def cmdPrevWord_def cmdNextWord_def quickPickClosed_def chapterChosen_def
      dictChosen_def wrongTimeout_def readOnlyTick_def Let_def split: option.split pick.split\<close>)

end
