(* ===== verification/Editing.thy ===== *)
theory Editing
  imports Document
begin

text \<open>
  The listener's delete edit is asynchronous: \<open>vscode.workspace.applyEdit(editAction)\<close>
  (\<open>src/index.ts\<close> line 51) is not awaited, so the editor applies it later, and the user may
  type again before it is applied. This theory composes the document of theory
  \<open>Document\<close> with the extension's world: a \<open>session\<close> holds the world, the document of
  one URI and the delete edits requested but not yet applied, in order. Two events
  interleave: the user types a character at a position (the editor changes the document and
  delivers the change to the listener, which requests its delete edit), and the editor
  handles the oldest pending edit.

  The document has a version, raised by every change. A text edit of a
  \<open>WorkspaceEdit\<close> carries the version of the document the extension host knew when
  \<open>applyEdit\<close> was called, which is the version the change event produced; the editor
  refuses an edit whose version is not the document's current one (the promise of
  \<open>applyEdit\<close> resolves \<open>false\<close> and nothing changes). An applied edit raises the version
  and its deletion is delivered to the listener too.
\<close>

record session =
  sw :: world
  sdoc :: document
  sversion :: nat
  pending :: "(text_range \<times> nat) list"

datatype sys_event = UserTypes pos char | HostApplies

fun edits_for :: "uri \<Rightarrow> effect list \<Rightarrow> text_range list" where
  "edits_for u [] = []"
| "edits_for u (ApplyDelete v r # es) = (if v = u then r # edits_for u es else edits_for u es)"
| "edits_for u (PlaySound k # es) = edits_for u es"
| "edits_for u (PlayVoice t # es) = edits_for u es"

fun sys_step :: "uri \<Rightarrow> session \<Rightarrow> sys_event \<Rightarrow> session" where
  "sys_step u s (UserTypes p c) =
     (let ch = ContentChange (Range p p) [c] 0;
          r = onDidChangeTextDocument (sw s) u [ch]
      in s\<lparr>sw := state_of r, sdoc := apply_edit (sdoc s) (Range p p) [c],
           sversion := Suc (sversion s),
           pending := pending s @ map (\<lambda>rg. (rg, Suc (sversion s))) (edits_for u (new_effects (sw s) r))\<rparr>)"
| "sys_step u s HostApplies =
     (case pending s of
        [] \<Rightarrow> s
      | (rg, v) # rest \<Rightarrow>
          if v = sversion s then
            s\<lparr>sw := state_of (onDidChangeTextDocument (sw s) u [ContentChange rg [] 1]),
              sdoc := apply_edit (sdoc s) rg [], sversion := Suc (sversion s), pending := rest\<rparr>
          else s\<lparr>pending := rest\<rparr>)"

fun sys_run :: "uri \<Rightarrow> session \<Rightarrow> sys_event list \<Rightarrow> session" where
  "sys_run u s [] = s"
| "sys_run u s (e # es) = sys_run u (sys_step u s e) es"

section \<open>One keystroke and its edit\<close>

lemma edits_for_non_edits: "list_all (\<lambda>e. \<not> is_edit e) es \<Longrightarrow> edits_for u es = []"
  by (induction u es rule: edits_for.induct) auto

lemma listener_keeps_start:
  "isStart (ps (state_of (onDidChangeTextDocument w u chs))) = isStart (ps w)"
  by (auto simp: onDidChangeTextDocument_def Let_def emit_def set_ps_def set_input_text_def
      getCurrentInputBarContent_def finishWord_def reset_input_def wrongInput_def
      split: list.split option.split prod.split)

lemma listener_edits:
  assumes "isStart (ps w)" "\<not> sublist ''vscode'' (scheme u)"
  shows "edits_for u (new_effects w (onDidChangeTextDocument w u [ContentChange r [x] n])) = [revert_range r]"
proof -
  obtain vs where "new_effects w (onDidChangeTextDocument w u [ContentChange r [x] n]) =
      ApplyDelete u (revert_range r) # vs" and "list_all (\<lambda>e. \<not> is_edit e) vs"
    using listener_effects [OF assms] by blast
  then show ?thesis by (simp add: edits_for_non_edits)
qed

lemma listener_ignores_deletion: "onDidChangeTextDocument w u [ContentChange r [] n] = Ok w"
  by (simp add: onDidChangeTextDocument_def)

lemma user_types_step:
  assumes "isStart (ps (sw s))" "\<not> sublist ''vscode'' (scheme u)"
  shows "pending (sys_step u s (UserTypes p c)) = pending s @ [(revert_range (Range p p), Suc (sversion s))]"
    "sdoc (sys_step u s (UserTypes p c)) = apply_edit (sdoc s) (Range p p) [c]"
    "sversion (sys_step u s (UserTypes p c)) = Suc (sversion s)"
    "isStart (ps (sw (sys_step u s (UserTypes p c)))) = isStart (ps (sw s))"
  using listener_edits [OF assms, of "Range p p" c 0]
  by (simp_all add: Let_def listener_keeps_start)

lemma host_applies_step:
  assumes "pending s = (rg, sversion s) # rest"
  shows "pending (sys_step u s HostApplies) = rest"
    "sdoc (sys_step u s HostApplies) = apply_edit (sdoc s) rg []"
    "sversion (sys_step u s HostApplies) = Suc (sversion s)"
    "sw (sys_step u s HostApplies) = sw s"
  using assms by (simp_all add: listener_ignores_deletion)

lemma host_refuses_step:
  assumes "pending s = (rg, v) # rest" "v \<noteq> sversion s"
  shows "pending (sys_step u s HostApplies) = rest"
    "sdoc (sys_step u s HostApplies) = sdoc s"
    "sversion (sys_step u s HostApplies) = sversion s"
    "sw (sys_step u s HostApplies) = sw s"
  using assms by simp_all

lemma sys_run_append: "sys_run u s (es @ fs) = sys_run u (sys_run u s es) fs"
  by (induction es arbitrary: s) auto

text \<open>
  A keystroke whose edit the editor handles before the next keystroke leaves the document as
  it was: nothing changed the document in between, so the version matches and the edit is
  applied.
\<close>

lemma type_then_apply:
  assumes "valid_doc (sdoc s)" "valid_pos (sdoc s) p" "c \<noteq> nl" "isStart (ps (sw s))"
    "\<not> sublist ''vscode'' (scheme u)" "pending s = []"
  shows "sdoc (sys_run u s [UserTypes p c, HostApplies]) = sdoc s
    \<and> pending (sys_run u s [UserTypes p c, HostApplies]) = []
    \<and> isStart (ps (sw (sys_run u s [UserTypes p c, HostApplies])))"
proof -
  let ?s1 = "sys_step u s (UserTypes p c)"
  have p1: "pending ?s1 = [(revert_range (Range p p), sversion ?s1)]"
    and d1: "sdoc ?s1 = apply_edit (sdoc s) (Range p p) [c]" and i1: "isStart (ps (sw ?s1))"
    using user_types_step [OF assms(4,5), of p c] assms(4,6) by simp_all
  show ?thesis
    using host_applies_step [OF p1] d1 i1 revert_insertion [OF assms(1-3)] by simp
qed

end
