(* ===== verification/StatusBar.thy ===== *)
theory StatusBar
  imports Extension
begin

text \<open>
  The five status-bar items of \<open>src/index.ts\<close> (lines 18 to 30) seen from the host: which
  item is which, what a click on an item delivers, and which handlers may change what an
  item shows. No handler re-targets an item (its command is the one \<open>activate\<close> set), and
  only the start command shows or hides the items: it flips \<open>isStart\<close> first and shows
  the items only after \<open>initializeBar()\<close> returned, so a refresh that throws leaves practice
  started with every item hidden.
\<close>

section \<open>The items and a click on them\<close>

datatype bar = WordBar | InputBar | TransBar | PrevWordBar | NextWordBar

fun bar_of :: "world \<Rightarrow> bar \<Rightarrow> status_bar_item" where
  "bar_of w WordBar = wordBar w"
| "bar_of w InputBar = inputBar w"
| "bar_of w TransBar = transBar w"
| "bar_of w PrevWordBar = prevWordItem w"
| "bar_of w NextWordBar = nextWordItem w"

text \<open>
  A click on a shown status-bar item runs the command it carries; after deactivation the
  commands are disposed and a click runs nothing.
\<close>

definition bar_click :: "world \<Rightarrow> bar \<Rightarrow> event option" where
  "bar_click w b =
     (if item_visible (bar_of w b) \<and> \<not> deactivated w
      then (case item_command (bar_of w b) of Some cid \<Rightarrow> command_event cid | None \<Rightarrow> None)
      else None)"

section \<open>What the handlers leave alone\<close>

text \<open>\<open>bar_shape\<close>: the part of an item the host acts on, its command and whether it is shown.\<close>

definition bar_shape :: "world \<Rightarrow> bar \<Rightarrow> string option \<times> bool" where
  "bar_shape w b = (item_command (bar_of w b), item_visible (bar_of w b))"

lemma bar_shape_updates:
  "bar_shape (w\<lparr>ps := p\<rparr>) b = bar_shape w b"
  "bar_shape (w\<lparr>cfg := c\<rparr>) b = bar_shape w b"
  "bar_shape (w\<lparr>effects := es\<rparr>) b = bar_shape w b"
  "bar_shape (w\<lparr>pendingVoice := n\<rparr>) b = bar_shape w b"
  "bar_shape (w\<lparr>pendingWrongTimeouts := n\<rparr>) b = bar_shape w b"
  "bar_shape (w\<lparr>activeIntervals := is\<rparr>) b = bar_shape w b"
  "bar_shape (w\<lparr>nextTimerId := n\<rparr>) b = bar_shape w b"
  "bar_shape (w\<lparr>quickPick := q\<rparr>) b = bar_shape w b"
  "bar_shape (w\<lparr>deactivated := d\<rparr>) b = bar_shape w b"
  "bar_shape (set_ps p w) b = bar_shape w b"
  "bar_shape (emit ev w) b = bar_shape w b"
  "bar_shape (set_input_text t w) b = bar_shape w b"
  by (cases b; simp add: bar_shape_def set_ps_def emit_def set_input_text_def)+

lemma bar_shape_item_updates:
  "(item_command x, item_visible x) = (item_command (wordBar w), item_visible (wordBar w)) \<Longrightarrow>
     bar_shape (w\<lparr>wordBar := x\<rparr>) b = bar_shape w b"
  "(item_command x, item_visible x) = (item_command (transBar w), item_visible (transBar w)) \<Longrightarrow>
     bar_shape (w\<lparr>transBar := x\<rparr>) b = bar_shape w b"
  "(item_command x, item_visible x) = (item_command (inputBar w), item_visible (inputBar w)) \<Longrightarrow>
     bar_shape (w\<lparr>inputBar := x\<rparr>) b = bar_shape w b"
  by (cases b; simp add: bar_shape_def)+

lemmas bar_shape_simps = bar_shape_updates bar_shape_item_updates

lemma playVoice_bars:
  "bar_shape (state_of (playVoice v)) b = bar_shape v b"
  "isStart (ps (state_of (playVoice v))) = isStart (ps v)"
  by (simp_all add: playVoice_def bar_shape_simps Let_def split: option.split)
     (simp_all add: set_ps_def emit_def)

lemma initializeBar_bars: "bar_shape (state_of (initializeBar v)) b = bar_shape v b"
proof -
  have "bar_shape (state_of (initializeBar v)) b = bar_shape (state_of (setUpWordBar v)) b"
    by (rule initializeBar_state)
       (simp_all add: setUpTransBar_def setUpInputBar_def bar_shape_simps split: option.split)
  then show ?thesis
    by (simp add: setUpWordBar_def playVoice_bars bar_shape_simps split: option.split)
qed

lemma config_bars:
  "bar_shape (state_of (onDidChangeConfiguration w keys c)) b = bar_shape w b"
  "isStart (ps (state_of (onDidChangeConfiguration w keys c))) = isStart (ps w)"
proof -
  let ?g = "\<lambda>v. (bar_shape v b, isStart (ps v))"
  have "?g (state_of (onDidChangeConfiguration w keys c)) = ?g w"
    unfolding onDidChangeConfiguration_def Let_def
    by (subst state_of_bind_res [where g = ?g])
       (simp_all add: initializeBar_bars bar_shape_simps, simp_all add: set_ps_def)
  then show "bar_shape (state_of (onDidChangeConfiguration w keys c)) b = bar_shape w b"
    "isStart (ps (state_of (onDidChangeConfiguration w keys c))) = isStart (ps w)" by simp_all
qed

text \<open>Every event but the start command keeps the items' commands and visibility and \<open>isStart\<close>.\<close>

lemma step_bars:
  assumes "e \<noteq> CmdStart"
  shows "bar_shape (state_of (step w e)) b = bar_shape w b \<and> isStart (ps (state_of (step w e))) = isStart (ps w)"
  using assms
  by (cases e) (simp_all add: initializeBar_bars playVoice_bars config_bars bar_shape_simps ps_frames
      onDidChangeTextDocument_def cmdChangeChapter_def cmdChangeDict_def cmdToggleWordVisibility_def
      cmdToggleReadOnlyMode_def cmdPrevWord_def cmdNextWord_def quickPickClosed_def chapterChosen_def
      dictChosen_def wrongTimeout_def readOnlyTick_def voiceFinished_def setUpReadOnlyInterval_def
      removeReadOnlyInterval_def set_ps_def emit_def set_input_text_def getCurrentInputBarContent_def
      Let_def split: list.split option.split prod.split pick.split)

text \<open>
  The start command flips \<open>isStart\<close> whatever happens next; stopping hides every item,
  starting shows them only when the refresh before \<open>show()\<close> does not throw, that is when
  there is a current word.
\<close>

lemma initializeBar_no_word: "currentWord (ps w) = None \<Longrightarrow> initializeBar w = Exc TypeError w"
  by (simp add: initializeBar_def setUpWordBar_def getInitialWordBarContent_def)

lemma cmdStart_no_word:
  "\<not> isStart (ps w) \<Longrightarrow> currentWord (ps w) = None \<Longrightarrow>
     cmdStart w = Exc TypeError (set_ps ((ps w)\<lparr>isStart := True\<rparr>) w)"
  by (simp add: cmdStart_def Let_def initializeBar_no_word ps_frames)

lemma cmdStart_bars:
  "isStart (ps (state_of (cmdStart w))) = (\<not> isStart (ps w))"
  "item_command (bar_of (state_of (cmdStart w)) b) = item_command (bar_of w b)"
  "item_visible (bar_of (state_of (cmdStart w)) b) =
     (\<not> isStart (ps w) \<and> (currentWord (ps w) = None \<longrightarrow> item_visible (bar_of w b)))"
proof -
  define w1 where "w1 = set_ps ((ps w)\<lparr>isStart := \<not> isStart (ps w)\<rparr>) w"
  let ?f = "\<lambda>w2. let w3 = set_visible True w2 in
                Ok (if readOnlyMode (ps w3) then setUpReadOnlyInterval w3 else w3)"
  have ib: "bar_shape (state_of (initializeBar w1)) b = bar_shape w b"
    by (simp add: initializeBar_bars w1_def bar_shape_simps)
  have st: "isStart (ps (state_of (cmdStart w))) = (\<not> isStart (ps w))
      \<and> bar_shape (state_of (cmdStart w)) b =
        (item_command (bar_of w b), \<not> isStart (ps w) \<and> (currentWord (ps w) = None \<longrightarrow> item_visible (bar_of w b)))"
  proof (cases "isStart (ps w)")
    case True
    then show ?thesis
      by (cases b) (simp_all add: cmdStart_def Let_def bar_shape_def set_visible_def
          removeReadOnlyInterval_def set_ps_def)
  next
    case False
    have cmd: "cmdStart w = bind_res (initializeBar w1) ?f"
      using False by (simp add: cmdStart_def w1_def [symmetric]) (simp add: w1_def set_ps_def)
    have cw: "currentWord (ps w1) = currentWord (ps w)" and s1: "isStart (ps w1)"
      using False by (simp_all add: w1_def ps_frames)
    show ?thesis
    proof (cases "currentWord (ps w) = None")
      case True
      then show ?thesis
        using False by (simp add: cmdStart_no_word bar_shape_simps ps_frames) (simp add: bar_shape_def)
    next
      case nw: False
      have "initializeBar w1 = Ok (state_of (initializeBar w1))"
        by (rule initializeBar_ok) (simp add: cw nw)
      then obtain y where y: "initializeBar w1 = Ok y" by blast
      have "bar_shape y b = bar_shape w b" "isStart (ps y)"
        using ib s1 initializeBar_keeps(8) [of w1] by (simp_all add: y)
      then show ?thesis
        using False nw cmd y
        by (cases b) (auto simp: bar_shape_def set_visible_def setUpReadOnlyInterval_def
            set_ps_def Let_def)
    qed
  qed
  then show "isStart (ps (state_of (cmdStart w))) = (\<not> isStart (ps w))"
    "item_command (bar_of (state_of (cmdStart w)) b) = item_command (bar_of w b)"
    "item_visible (bar_of (state_of (cmdStart w)) b) =
     (\<not> isStart (ps w) \<and> (currentWord (ps w) = None \<longrightarrow> item_visible (bar_of w b)))"
    by (simp_all add: bar_shape_def)
qed

lemma step_bar_command [simp]:
  "item_command (bar_of (state_of (step w e)) b) = item_command (bar_of w b)"
  using step_bars [of e w b] cmdStart_bars(2) [of w b]
  by (cases "e = CmdStart") (simp_all add: bar_shape_def)

lemma reach_bar_command: "reach w \<Longrightarrow> item_command (bar_of w b) = item_command (bar_of (activate p c) b)"
proof (induction rule: reach.induct)
  case (init p' c')
  show ?case by (cases b) (simp_all add: activate_def)
qed simp

section \<open>What the word item shows\<close>

lemma initializeBar_word_text:
  "getInitialWordBarContent (ps v) = Some t \<Longrightarrow> item_text (wordBar (state_of (initializeBar v))) = t"
proof -
  have "item_text (wordBar (state_of (initializeBar v))) = item_text (wordBar (state_of (setUpWordBar v)))"
    by (rule initializeBar_state) (simp_all add: setUpTransBar_def setUpInputBar_def split: option.split)
  then show "getInitialWordBarContent (ps v) = Some t \<Longrightarrow> ?thesis"
    by (simp add: setUpWordBar_def playVoice_def set_ps_def emit_def Let_def split: option.split)
qed

end
