(* ===== verification/Configuration.thy ===== *)
theory Configuration
  imports StatusBar
begin

text \<open>
  The configuration listener of \<open>src/index.ts\<close> (lines 76 to 86) on every branch. The two
  settings are handled one after the other in one callback, each followed by
  \<open>initializeBar()\<close>; the refresh throws exactly when there is no current word, and then the
  rest of the callback does not run. This theory states when each refresh succeeds and what
  the callback leaves in the plugin state.
\<close>

lemma initializeBar_cases:
  "initializeBar v = (if currentWord (ps v) = None then Exc TypeError v else Ok (state_of (initializeBar v)))"
proof (cases "currentWord (ps v) = None")
  case True
  then show ?thesis by (simp add: initializeBar_no_word)
next
  case False
  then show ?thesis using initializeBar_ok [OF False] by auto
qed

lemma initializeBar_Exc_iff:
  "initializeBar v = Exc e a \<longleftrightarrow> currentWord (ps v) = None \<and> e = TypeError \<and> a = v"
  by (subst initializeBar_cases) auto

lemma initializeBar_Ok_iff:
  "initializeBar v = Ok a \<longleftrightarrow> currentWord (ps v) \<noteq> None \<and> a = state_of (initializeBar v)"
  by (subst initializeBar_cases) auto

lemma initializeBar_is_ok: "is_ok (initializeBar v) \<longleftrightarrow> currentWord (ps v) \<noteq> None"
  by (subst initializeBar_cases) simp

lemmas initializeBar_results = initializeBar_Exc_iff initializeBar_Ok_iff initializeBar_is_ok

section \<open>The two settings, one after the other\<close>

lemma currentWord_setChapterLength:
  "dictWords p = dictWords q \<Longrightarrow> currentWord (setChapterLength n p) = currentWord (setChapterLength n q)"
  by (simp add: currentWord_def chapterWords_def setChapterLength_def reset_input_def dictWords_def)

lemma dictWords_initializeBar [simp]: "dictWords (ps (state_of (initializeBar v))) = dictWords (ps v)"
  by (simp add: dictWords_def)

text \<open>
  The placeholder branch, then the chapter-length branch, each with what it leaves in the
  state and whether its refresh throws.
\<close>

lemma config_first:
  "(if ''qwerty-learner.placeholder'' \<in> set keys
          then initializeBar (set_ps ((ps (w\<lparr>cfg := c\<rparr>))\<lparr>placeholder := cfgPlaceholder c\<rparr>) (w\<lparr>cfg := c\<rparr>))
          else Ok (w\<lparr>cfg := c\<rparr>)) = r \<Longrightarrow>
     cfg (state_of r) = c \<and> dictWords (ps (state_of r)) = dictWords (ps w)
     \<and> placeholder (ps (state_of r)) =
        (if ''qwerty-learner.placeholder'' \<in> set keys then cfgPlaceholder c else placeholder (ps w))
     \<and> chapterLength (ps (state_of r)) = chapterLength (ps w)
     \<and> chapterIndex (ps (state_of r)) = chapterIndex (ps w) \<and> order (ps (state_of r)) = order (ps w)
     \<and> is_ok r = (if ''qwerty-learner.placeholder'' \<in> set keys then currentWord (ps w) \<noteq> None else True)"
  by (auto simp: set_ps_def initializeBar_is_ok dictWords_def)

lemma config_second:
  "(if ''qwerty-learner.chapterLength'' \<in> set keys
      then initializeBar (set_ps (setChapterLength n (ps v)) v) else Ok v) = r \<Longrightarrow>
     cfg (state_of r) = cfg v \<and> placeholder (ps (state_of r)) = placeholder (ps v)
     \<and> (chapterLength (ps (state_of r)), chapterIndex (ps (state_of r)), order (ps (state_of r))) =
        (if ''qwerty-learner.chapterLength'' \<in> set keys then (n, 0, 0)
         else (chapterLength (ps v), chapterIndex (ps v), order (ps v)))
     \<and> is_ok r = (if ''qwerty-learner.chapterLength'' \<in> set keys
                   then currentWord (setChapterLength n (ps v)) \<noteq> None else True)"
  by (auto simp: set_ps_def initializeBar_is_ok setChapterLength_def reset_input_def)

end
