(* ===== verification/Spec2Isabelle.thy ===== *)
theory Spec2Isabelle
  imports Typing Voice Editing Configuration
begin

text \<open>
  \<^bold>\<open>A verification library for qwerty-learner-vscode.\<close>

  The repository is a typing-practice extension for the editor: it shows a word of a
  dictionary in the status bar, swallows every character the user types into the active
  document, compares the typed prefix with the word and advances through the dictionary
  chapter by chapter. The only source under \<open>src/\<close> is \<open>src/index.ts\<close> (function
  \<open>activate\<close> and its closures); the classes and helpers it imports (\<open>PluginState\<close>,
  \<open>compareWord\<close>, the dictionaries, the sound and voice players) are not part of the
  sources and are modelled from the specification.

  \<^bold>\<open>Theories and what they model.\<close>
  \<^item> \<open>Prelude\<close>: the JavaScript run-time pieces the code relies on (\<open>indexOf\<close>,
    \<open>toString\<close>/\<open>parseInt\<close> on decimal numbers, \<open>Math.ceil\<close> of a quotient,
    \<open>join\<close>), the outcome type \<open>'a res\<close> of a handler that may throw (the state reached
    is kept, as in JavaScript) and shared list/number lemmas.
  \<^item> \<open>Comparator\<close>: \<open>compareWord\<close> (spec section 4.1) with codes \<open>-2\<close>/\<open>-1\<close>/index,
    by structural recursion on the word, and its three-outcome contract
    \<open>compare_spec\<close>.
  \<^item> \<open>Dictionary\<close>: words, the library of dictionaries, chapter slicing and the chapter
    count \<open>Math.ceil(length / chapterLength)\<close>.
  \<^item> \<open>PluginState\<close>: the session object (spec sections 3, 4.2) as the record
    \<open>plugin_state\<close>; \<open>finishWord\<close>, \<open>nextWord\<close>, \<open>prevWord\<close>, the setters, the
    bar-content getters. Its invariant \<open>plugin_inv\<close> is the one of spec section 3 (the word
    index resolves to a word of the current chapter, the chapter index is below
    \<open>totalChapters\<close>). The abstraction \<open>position\<close> (the global index of the current word)
    turns the navigation into arithmetic modulo the dictionary size.
  \<^item> \<open>Extension\<close>: \<open>src/index.ts\<close>. The record \<open>world\<close> holds the plugin state, the five
    status-bar items, the configuration, the host's pending callbacks (wrong-input
    timeouts, the read-only interval, the voice completion, an open quick pick) and the
    list of effects requested (sounds, delete edits, voice playback). Each listener,
    command and closure is one definition of the same name; \<open>step\<close> dispatches an
    \<open>event\<close> to it; \<open>reach\<close> is the set of worlds reachable from \<open>activate\<close> by
    enabled events in any order the host may deliver them (a pending timer fires, a quick
    pick is answered later, other commands may run meanwhile). \<open>Deactivate\<close> is the
    host disposing \<open>context.subscriptions\<close>: the commands stop, the rest stays live.
    The items' \<open>command\<close> fields (lines 11 to 30) and the registry of commands
    (\<open>command_event\<close>, lines 89 to 155) are part of \<open>activate\<close>.
  \<^item> \<open>StatusBar\<close>: the five items as the host sees them (\<open>bar_of\<close>), the event a click
    delivers (\<open>bar_click\<close>), and frame lemmas: no handler changes an item's command, and
    only the start command shows or hides the items (\<open>step_bars\<close>, \<open>cmdStart_bars\<close>).
  \<^item> \<open>Configuration\<close>: the configuration listener (lines 76 to 86) branch by branch: when
    each of its two refreshes throws and what the callback leaves in the plugin state.
  \<^item> \<open>Document\<close>: the host side of the listener's edit, from the editor's
    documentation: a document as a list of lines, position validation (clamping), range
    replacement, and \<open>host_apply\<close>, which applies the delete edits a handler
    requested. It lets the revert of \<open>src/index.ts\<close> lines 47 to 51 be checked on text.
  \<^item> \<open>Typing\<close>: the typing buffer invariant \<open>input_ok\<close> (the Typing / Correct / Wrong
    loop of spec section 4.2), its preservation by every handler of \<open>src/index.ts\<close>, and
    \<open>listener_ref\<close>, the document listener written against the comparator contract.
  \<^item> \<open>Voice\<close>: the voice player's interface (a request is the effect \<open>PlayVoice\<close>, its
    completion callback the event \<open>VoiceFinished\<close>) and the frame lemma that no handler
    but the callback releases the lock or requests a voice while it is set.
  \<^item> \<open>Editing\<close>: the composition of the document with the extension: a \<open>session\<close> of the
    world, the document and the delete edits requested but not yet applied, and the two
    interleaved events of the user typing and the editor handling the oldest pending edit
    (\<open>workspace.applyEdit\<close> at \<open>src/index.ts\<close> line 51 is not awaited). Each edit carries
    the document version of its change event; the editor refuses it once the document
    has changed since.
  \<^item> \<open>Spec2Isabelle\<close> (this theory): concrete demonstration data and the properties that
    span components.

  \<^bold>\<open>How the model runs.\<close> There is no fuel and no bound: every definition is total
  and structural (\<open>compare_from\<close> recurses on the word, \<open>run\<close> and \<open>sys_run\<close> on the
  event list), so every property holds for words, dictionaries, chapter lengths and event
  sequences of any size. Concrete runs use \<open>demo_world\<close> (three words in a chapter
  length of two, so both chapter and dictionary wrap-around occur) and are evaluated by
  \<open>simp\<close>.

  \<^bold>\<open>What is proved\<close> (claim ids as in the project manifest).
  \<^item> Typing (C1, C2, C8): typing the current word key by key from an empty, correct input
    clicks once per key, plays the success sound once, resets the input and moves to the next
    word; a wrong key marks the word wrong, plays the wrong sound exactly once, and every
    further key until the highlight timeout only requests its delete edit (the world is
    otherwise unchanged). In every reachable world, whatever the
    order of events, the typed buffer is a correct prefix of the current word, or a correct
    prefix and one wrong character while the wrong flag is set (theory \<open>Typing\<close>).
  \<^item> Safety of the event loop (C3, C4): from an activation with a well-formed dictionary,
    every run of events the host may deliver keeps the invariant of spec section 3, and no
    handler throws, provided no configuration change sets the chapter length to 0 or
    arrives while a chapter pick is open (\<open>safe_event\<close>) and no change event has an
    empty change list: C26 to C28 show each of these exclusions is needed.
  \<^item> The document (C6, C7, theories \<open>Document\<close> and \<open>Editing\<close>): a character other than a
    line break typed at a valid position is removed again by the listener's delete edit,
    whatever the listener does with it; typing a whole text this way leaves the file
    unchanged when the editor applies each edit before the next keystroke.
  \<^item> Navigation and the other commands (C5, C15 to C23): the next/previous commands refine
    the cycle \<open>+1\<close>/\<open>-1\<close> modulo the dictionary size on \<open>position\<close>; they are mutually
    inverse; a chapter pick selects exactly its chapter and a dictionary pick exactly its
    dictionary, at the first word; the read-only interval reaches every word; the shown
    previous/next/translation items run exactly their commands, in every reachable world,
    until deactivation; on safe runs the items are shown exactly while practice is started
    (theory \<open>StatusBar\<close>); the configuration listener on each branch, including the one
    where a throwing refresh skips the chapter-length change (theory \<open>Configuration\<close>); the
    word-visibility command masks and unmasks the word and two toggles restore the state.
  \<^item> Timers and voice (C9 to C12, theory \<open>Voice\<close>): at most one read-only interval exists
    and it is the stored handle; at most one voice playback is in flight; toggling read-only mode twice leaves no timer; a
    playback whose completion callback never comes silences the voice for good.
  \<^item> Comparator and listener protocol (C13, C14, C24, C25): the comparator implements the
    three-outcome contract; the listener's \<open>indexOf\<close> guard and numeric branches are equivalent to a reference listener
    written against the contract; its early returns; mismatch indices are in range.
  \<^item> What the code does not guarantee (C26 to C36, each a concrete reachable run):
    an empty \<open>contentChanges\<close> throws; a chapter pick answered after the chapter length
    shrank breaks the invariant; a chapter length of 0 breaks it; the read-only interval runs
    and speaks while practice is stopped; a start whose refresh throws leaves practice
    started with every item hidden while typed characters keep disappearing; with several
    carets only the first typed character is reverted; a character typed over a selection,
    or a typed line break, is not reverted and the user's file changes; a wrong-input timeout outlives its word and
    clears the input typed on the next one; deactivation leaves the interval and the document
    listener running although the spec says the session is torn down; a keystroke that
    arrives before the previous delete edit is applied makes the editor refuse that edit, so
    the earlier typed character stays in the user's file.

  \<^bold>\<open>Not modelled.\<close> Every function of \<open>src/index.ts\<close> is modelled; only its imports
  have no counterpart, and of the status-bar items the tooltips and alignment are left out
  (presentation only). Outside \<open>src/\<close>: the editor's widgets beyond the text, colour,
  visibility and command of the items; edits by other extensions or by the user between the
  change event and the delete edit (the edit is applied to the document the event
  produced); line endings other than LF; the audio players (a request is an effect,
  completion an event); loading of dictionary files; the settings store behind
  \<open>getConfig\<close> (its values arrive with the change event); persistence of the plugin state
  between sessions; the timing of timers (a pending timer may fire at any point of the
  interleaving).
\<close>

section \<open>Demonstration data\<close>

definition demo_library :: library where
  "demo_library =
     [(''cet4'', [\<lparr>name = ''cat'', word_trans = [''n. cat'']\<rparr>, \<lparr>name = ''dog'', word_trans = [''n. dog'']\<rparr>,
                 \<lparr>name = ''ox'', word_trans = [''n. ox'']\<rparr>]),
      (''gre'', [\<lparr>name = ''abate'', word_trans = [''v. lessen'']\<rparr>])]"

definition demo_state :: plugin_state where
  "demo_state =
     \<lparr>dictionaries = demo_library, dictKey = ''cet4'', chapterIndex = 0, order = 0,
      chapterLength = 2, currentInput = [], hasWrong = False, isStart = False,
      wordVisibility = True, readOnlyMode = False, voiceLock = False,
      readOnlyIntervalId = None, placeholder = ''_''\<rparr>"

definition demo_config :: config where
  "demo_config = \<lparr>cfgPlaceholder = ''_'', cfgChapterLength = 2, highlightWrongColor = ''red''\<rparr>"

definition demo_world :: world where
  "demo_world = activate demo_state demo_config"

lemmas demo_eval = demo_world_def demo_state_def demo_config_def demo_library_def activate_def
  cmdStart_def initializeBar_def setUpWordBar_def setUpTransBar_def setUpInputBar_def playVoice_def
  getInitialWordBarContent_def getInitialTransBarContent_def getInitialInputBarContent_def
  currentWord_def chapterWords_def dictWords_def getDictFile_def chapter_slice_def
  shouldPlayVoice_def set_ps_def set_visible_def emit_def Let_def cmdToggleReadOnlyMode_def
  setUpReadOnlyInterval_def removeReadOnlyInterval_def handle_truthy_def readOnlyTick_def
  finishWord_def reset_input_def totalChapters_def chapter_count_def ceil_div_def bar_item_def
  voiceFinished_def

lemma demo_active [simp]: "\<not> deactivated demo_world"
  by (simp add: demo_world_def activate_def)

lemma demo_reach: "reach demo_world"
  unfolding demo_world_def by (rule reach.init) (simp add: fresh_state_def demo_state_def)

section \<open>Timers and voice\<close>

text \<open>
  C9: In every reachable world the host runs at most one read-only interval; if it runs
  one, its handle is the one the plugin state stores and read-only mode is on.
\<close>

theorem single_read_only_interval:
  assumes "reach w"
  shows "length (activeIntervals w) \<le> 1
    \<and> (\<forall>i \<in> set (activeIntervals w). readOnlyIntervalId (ps w) = Some i \<and> readOnlyMode (ps w))"
  using reach_timers_inv [OF assms] by (auto simp: timers_inv_def split: option.splits)

theorem single_read_only_interval_witness:
  "reach (run demo_world [CmdToggleReadOnlyMode])
   \<and> length (activeIntervals (run demo_world [CmdToggleReadOnlyMode])) \<le> 1
   \<and> activeIntervals (run demo_world [CmdToggleReadOnlyMode]) = [1]
   \<and> readOnlyIntervalId (ps (run demo_world [CmdToggleReadOnlyMode])) = Some 1"
proof -
  have r: "reach (run demo_world [CmdToggleReadOnlyMode])"
    by (rule reach_run [OF demo_reach]) (simp add: demo_eval)
  have a: "activeIntervals (run demo_world [CmdToggleReadOnlyMode]) = [1]"
    by (simp add: demo_eval)
  from single_read_only_interval [OF r] a show ?thesis using r by simp
qed

section \<open>Typing\<close>
definition demo_uri :: uri where
  "demo_uri = Uri ''file'' ''/notes.txt''"

definition demo_range :: text_range where
  "demo_range = Range (Pos 0 4) (Pos 0 4)"

lemmas demo_inv_eval = plugin_inv_def library_wf_def totalChapters_def chapterWords_def dictWords_def
  getDictFile_def chapter_count_def ceil_div_def chapter_slice_def currentWord_def

lemma demo_started:
  "ps (state_of (cmdStart demo_world)) = demo_state\<lparr>isStart := True, voiceLock := True\<rparr>"
  by (simp add: demo_eval)

lemma demo_run_started: "isStart (ps (run demo_world [CmdStart]))"
  by (simp add: demo_started)

lemma file_not_vscode: "\<not> sublist ''vscode'' ''file''"
proof
  assume "sublist ''vscode'' ''file''"
  then have "length ''vscode'' \<le> length ''file''" by (rule sublist_length_le)
  then show False by simp
qed

lemma demo_uri_not_vscode: "\<not> sublist ''vscode'' (scheme demo_uri)"
  by (simp add: demo_uri_def file_not_vscode)



definition keystroke :: "uri \<Rightarrow> text_range \<Rightarrow> char \<Rightarrow> event" where
  "keystroke u r c = TextDocumentChanged u [ContentChange r [c] 0]"

lemma run_snoc: "run w (es @ [e]) = state_of (step (run w es) e)"
  by (induction es arbitrary: w) auto

lemma key_correct:
  assumes inv: "plugin_inv (ps w)" and st: "isStart (ps w)" and nw: "\<not> hasWrong (ps w)"
    and sch: "\<not> sublist ''vscode'' (scheme u)" and cw: "currentWord (ps w) = Some wd"
    and k: "k < length (name wd)" and inp: "currentInput (ps w) = take k (name wd)"
  shows "onDidChangeTextDocument w u [ContentChange r [name wd ! k] n] =
     (let w3 = set_input_text (take (Suc k) (name wd))
                 (set_ps ((ps w)\<lparr>currentInput := take (Suc k) (name wd)\<rparr>)
                   (emit (PlaySound Click) (emit (ApplyDelete u (revert_range r)) w)))
      in if Suc k < length (name wd) then Ok w3
         else initializeBar (set_ps (finishWord ((ps w)\<lparr>currentInput := name wd\<rparr>))
                (emit (PlaySound Success) w3)))"
proof -
  have app: "take k (name wd) @ [name wd ! k] = take (Suc k) (name wd)"
    using k by (simp add: take_Suc_conv_app_nth)
  have cr: "compareResult ((ps w)\<lparr>currentInput := take (Suc k) (name wd)\<rparr>) =
      Some (if Suc k < length (name wd) then -1 else -2)"
    using cw k by (simp add: compareResult_def)
  show ?thesis
    using st nw sch inp cr k
    by (simp add: onDidChangeTextDocument_def getCurrentInputBarContent_def emit_def set_ps_def
        set_input_text_def app Let_def)
qed


lemma concat_replicate_snoc: "concat (replicate k xs) @ xs = concat (replicate (Suc k) xs)"
  by (induction k) auto

lemma typing_prefix:
  assumes inv: "plugin_inv (ps w)" and st: "isStart (ps w)" and nw: "\<not> hasWrong (ps w)"
    and sch: "\<not> sublist ''vscode'' (scheme u)" and cw: "currentWord (ps w) = Some wd"
    and inp: "currentInput (ps w) = []"
  shows "k < length (name wd) \<Longrightarrow>
    ps (run w (map (keystroke u r) (take k (name wd)))) = (ps w)\<lparr>currentInput := take k (name wd)\<rparr>
    \<and> effects (run w (map (keystroke u r) (take k (name wd)))) =
        effects w @ concat (map (\<lambda>_. [ApplyDelete u (revert_range r), PlaySound Click]) (take k (name wd)))"
proof (induction k)
  case 0
  then show ?case using inp by simp
next
  case (Suc k)
  let ?w = "run w (map (keystroke u r) (take k (name wd)))"
  from Suc have ih: "ps ?w = (ps w)\<lparr>currentInput := take k (name wd)\<rparr>"
    "effects ?w = effects w @ concat (map (\<lambda>_. [ApplyDelete u (revert_range r), PlaySound Click]) (take k (name wd)))"
    by simp_all
  have tk: "take (Suc k) (name wd) = take k (name wd) @ [name wd ! k]"
    using Suc.prems by (simp add: take_Suc_conv_app_nth)
  then have "run w (map (keystroke u r) (take (Suc k) (name wd))) =
      state_of (onDidChangeTextDocument ?w u [ContentChange r [name wd ! k] 0])"
    by (simp add: run_snoc keystroke_def)
  also have "onDidChangeTextDocument ?w u [ContentChange r [name wd ! k] 0] =
      Ok (set_input_text (take (Suc k) (name wd))
            (set_ps ((ps ?w)\<lparr>currentInput := take (Suc k) (name wd)\<rparr>)
              (emit (PlaySound Click) (emit (ApplyDelete u (revert_range r)) ?w))))"
    using key_correct [of ?w u wd k r 0] ih inv st nw sch cw Suc.prems by (simp add: Let_def)
  finally show ?case
    using ih by (simp add: set_input_text_def set_ps_def emit_def tk)
qed


lemma count_clicks:
  "count_list (concat (map (\<lambda>_. [ApplyDelete a b, PlaySound Click]) xs)) (PlaySound k) =
     (if k = Click then length xs else 0)"
  by (induction xs) auto

lemma finishWord_resets: "currentInput (finishWord p) = []" "\<not> hasWrong (finishWord p)"
  by (simp_all add: finishWord_def reset_input_def)

lemma voice_after_keeps [simp]:
  "position (voice_after p) = position p" "currentInput (voice_after p) = currentInput p"
  "hasWrong (voice_after p) = hasWrong p" "dictWords (voice_after p) = dictWords p"
  by (simp_all add: voice_after_def)

text \<open>
  C1: Typing the current word character by character into a document, from an empty
  input, completes it exactly once: the plugin moves to the next word of the dictionary
  (global index plus one, modulo the dictionary size), the input is reset, one success
  sound is requested and no wrong sound.
\<close>

theorem typing_word_completes:
  assumes inv: "plugin_inv (ps w)" and st: "isStart (ps w)" and nw: "\<not> hasWrong (ps w)"
    and inp: "currentInput (ps w) = []" and sch: "\<not> sublist ''vscode'' (scheme u)"
    and cw: "currentWord (ps w) = Some wd" and ne: "name wd \<noteq> []"
  shows "position (ps (run w (map (keystroke u r) (name wd)))) =
           Suc (position (ps w)) mod length (dictWords (ps w))
    \<and> currentInput (ps (run w (map (keystroke u r) (name wd)))) = []
    \<and> \<not> hasWrong (ps (run w (map (keystroke u r) (name wd))))
    \<and> count_list (effects (run w (map (keystroke u r) (name wd)))) (PlaySound Success) =
         Suc (count_list (effects w) (PlaySound Success))
    \<and> count_list (effects (run w (map (keystroke u r) (name wd)))) (PlaySound Wrong) =
         count_list (effects w) (PlaySound Wrong)"
proof -
  let ?n = "length (name wd)"
  let ?k = "?n - 1"
  let ?wk = "run w (map (keystroke u r) (take ?k (name wd)))"
  let ?p = "finishWord ((ps w)\<lparr>currentInput := name wd\<rparr>)"
  have k: "?k < ?n" and sk: "Suc ?k = ?n" using ne by simp_all
  have pre: "ps ?wk = (ps w)\<lparr>currentInput := take ?k (name wd)\<rparr>"
    "effects ?wk = effects w @ concat (map (\<lambda>_. [ApplyDelete u (revert_range r), PlaySound Click])
                                       (take ?k (name wd)))"
    using typing_prefix [OF inv st nw sch cw inp k] by simp_all
  have "take (Suc ?k) (name wd) = take ?k (name wd) @ [name wd ! ?k]"
    using k by (rule take_Suc_conv_app_nth)
  then have split: "name wd = take ?k (name wd) @ [name wd ! ?k]"
    by (simp only: sk take_all_iff order_refl take_all)
  let ?w3 = "set_input_text (take (Suc ?k) (name wd))
               (set_ps ((ps ?wk)\<lparr>currentInput := take (Suc ?k) (name wd)\<rparr>)
                 (emit (PlaySound Click) (emit (ApplyDelete u (revert_range r)) ?wk)))"
  have last: "run w (map (keystroke u r) (name wd)) =
      state_of (initializeBar (set_ps ?p (emit (PlaySound Success) ?w3)))"
  proof -
    have "run w (map (keystroke u r) (name wd)) =
        state_of (onDidChangeTextDocument ?wk u [ContentChange r [name wd ! ?k] 0])"
      by (subst split) (simp only: map_append list.map run_snoc keystroke_def step.simps)
    also have "onDidChangeTextDocument ?wk u [ContentChange r [name wd ! ?k] 0] =
        initializeBar (set_ps ?p (emit (PlaySound Success) ?w3))"
      using key_correct [of ?wk u wd ?k r 0] pre inv st nw sch cw k sk by (simp add: Let_def)
    finally show ?thesis .
  qed
  have invp: "plugin_inv ((ps w)\<lparr>currentInput := name wd\<rparr>)" using inv by simp
  have ps_last: "ps (run w (map (keystroke u r) (name wd))) =
      (if getInitialWordBarContent ?p = None then ?p else voice_after ?p)"
    using last initializeBar_frame(1) by (simp add: set_ps_def emit_def)
  have pos: "position ?p = Suc (position (ps w)) mod length (dictWords (ps w))"
    using finishWord_position [OF invp] by simp
  have cnt: "count_list (effects (run w (map (keystroke u r) (name wd)))) (PlaySound x) =
      count_list (effects ?wk) (PlaySound x) + (if x = Click then 1 else 0) + (if x = Success then 1 else 0)"
    for x
    using last initializeBar_frame(3) by (simp add: set_ps_def emit_def set_input_text_def)
  show ?thesis
    using ps_last pos cnt [of Success] cnt [of Wrong] pre(2) finishWord_resets [of "(ps w)\<lparr>currentInput := name wd\<rparr>"]
    by (simp add: count_clicks)
qed


theorem typing_word_completes_witness:
  "position (ps (run (run demo_world [CmdStart]) (map (keystroke demo_uri demo_range) ''cat''))) = 1
   \<and> count_list (effects (run (run demo_world [CmdStart]) (map (keystroke demo_uri demo_range) ''cat'')))
        (PlaySound Success) = 1
   \<and> count_list (effects (run (run demo_world [CmdStart]) (map (keystroke demo_uri demo_range) ''cat'')))
        (PlaySound Wrong) = 0"
proof -
  let ?w = "run demo_world [CmdStart]" and ?cat = "\<lparr>name = ''cat'', word_trans = [''n. cat'']\<rparr>"
  have h: "plugin_inv (ps ?w)" "isStart (ps ?w)" "\<not> hasWrong (ps ?w)" "currentInput (ps ?w) = []"
    "\<not> sublist ''vscode'' (scheme demo_uri)" "currentWord (ps ?w) = Some ?cat" "name ?cat \<noteq> []"
    by (simp_all add: demo_started demo_state_def demo_library_def demo_inv_eval demo_uri_not_vscode)
  have e: "count_list (effects ?w) (PlaySound x) = 0" "position (ps ?w) = 0"
    "length (dictWords (ps ?w)) = 3" for x
    by (simp_all add: demo_eval position_def demo_started)
  show ?thesis using typing_word_completes [OF h, of demo_range] e by simp
qed


lemma keys_while_wrong:
  assumes "hasWrong (ps w)" "isStart (ps w)" "\<not> sublist ''vscode'' (scheme u)"
  shows "run w (map (keystroke u r) cs) =
           w\<lparr>effects := effects w @ map (\<lambda>_. ApplyDelete u (revert_range r)) cs\<rparr>"
  using assms
proof (induction cs arbitrary: w)
  case Nil
  then show ?case by simp
next
  case (Cons c cs)
  let ?w1 = "emit (ApplyDelete u (revert_range r)) w"
  have "run w (map (keystroke u r) (c # cs)) = run ?w1 (map (keystroke u r) cs)"
    using Cons.prems by (simp add: keystroke_def onDidChangeTextDocument_def emit_def)
  moreover have "hasWrong (ps ?w1)" "isStart (ps ?w1)" using Cons.prems by (simp_all add: emit_def)
  ultimately show ?case using Cons.IH [of ?w1] Cons.prems(3) by (simp add: emit_def)
qed

lemma key_wrong:
  assumes st: "isStart (ps w)" and nw: "\<not> hasWrong (ps w)"
    and sch: "\<not> sublist ''vscode'' (scheme u)" and cw: "currentWord (ps w) = Some wd"
    and k: "k < length (name wd)" and inp: "currentInput (ps w) = take k (name wd)"
    and bad: "\<not> same_char (name wd ! k) c"
  shows "ps (state_of (step w (keystroke u r c))) =
           wrongInput ((ps w)\<lparr>currentInput := take k (name wd) @ [c]\<rparr>)"
    "effects (state_of (step w (keystroke u r c))) =
           effects w @ [ApplyDelete u (revert_range r), PlaySound Click, PlaySound Wrong]"
    "pendingWrongTimeouts (state_of (step w (keystroke u r c))) = Suc (pendingWrongTimeouts w)"
proof -
  have cr: "compareResult ((ps w)\<lparr>currentInput := take k (name wd) @ [c]\<rparr>) = Some (int k)"
    using cw k bad by (simp add: compareResult_def compareWord_mismatch)
  show "ps (state_of (step w (keystroke u r c))) =
           wrongInput ((ps w)\<lparr>currentInput := take k (name wd) @ [c]\<rparr>)"
    "effects (state_of (step w (keystroke u r c))) =
           effects w @ [ApplyDelete u (revert_range r), PlaySound Click, PlaySound Wrong]"
    "pendingWrongTimeouts (state_of (step w (keystroke u r c))) = Suc (pendingWrongTimeouts w)"
    using st nw sch inp cr
    by (simp_all add: keystroke_def onDidChangeTextDocument_def getCurrentInputBarContent_def
        emit_def set_ps_def set_input_text_def Let_def)
qed

text \<open>
  C2: A wrong character never advances the word: it requests exactly one wrong sound, sets
  the wrong flag and schedules one flash timeout; every further key typed before the flash
  clears is deleted from the document and otherwise ignored (no sound, no input change).
\<close>

theorem wrong_key_signals_once:
  assumes st: "isStart (ps w)" and nw: "\<not> hasWrong (ps w)"
    and sch: "\<not> sublist ''vscode'' (scheme u)" and cw: "currentWord (ps w) = Some wd"
    and k: "k < length (name wd)" and inp: "currentInput (ps w) = take k (name wd)"
    and bad: "\<not> same_char (name wd ! k) c"
  shows "position (ps (run w (map (keystroke u r) (c # cs)))) = position (ps w)
    \<and> hasWrong (ps (run w (map (keystroke u r) (c # cs))))
    \<and> currentInput (ps (run w (map (keystroke u r) (c # cs)))) = take k (name wd) @ [c]
    \<and> count_list (effects (run w (map (keystroke u r) (c # cs)))) (PlaySound Wrong) =
         Suc (count_list (effects w) (PlaySound Wrong))
    \<and> count_list (effects (run w (map (keystroke u r) (c # cs)))) (PlaySound Success) =
         count_list (effects w) (PlaySound Success)
    \<and> pendingWrongTimeouts (run w (map (keystroke u r) (c # cs))) = Suc (pendingWrongTimeouts w)
    \<and> effects (run w (map (keystroke u r) (c # cs))) =
         effects w @ [ApplyDelete u (revert_range r), PlaySound Click, PlaySound Wrong]
           @ map (\<lambda>_. ApplyDelete u (revert_range r)) cs
    \<and> run w (map (keystroke u r) (c # cs)) =
         (run w [keystroke u r c])\<lparr>effects := effects (run w [keystroke u r c])
           @ map (\<lambda>_. ApplyDelete u (revert_range r)) cs\<rparr>"
proof -
  let ?w1 = "state_of (step w (keystroke u r c))"
  note w1 = key_wrong [OF st nw sch cw k inp bad, of r]
  have h: "hasWrong (ps ?w1)" "isStart (ps ?w1)" using w1(1) st by (simp_all add: wrongInput_def)
  have rw: "run w (map (keystroke u r) (c # cs)) =
      ?w1\<lparr>effects := effects ?w1 @ map (\<lambda>_. ApplyDelete u (revert_range r)) cs\<rparr>"
    using keys_while_wrong [OF h sch] by simp
  moreover have "count_list (map (\<lambda>_. ApplyDelete u (revert_range r)) cs) (PlaySound x) = 0" for x
    by (induction cs) auto
  moreover have "run w [keystroke u r c] = ?w1" by simp
  ultimately show ?thesis using w1 by (simp add: wrongInput_def)
qed


theorem wrong_key_signals_once_witness:
  "position (ps (run (run demo_world [CmdStart]) (map (keystroke demo_uri demo_range) ''xc''))) = 0
   \<and> hasWrong (ps (run (run demo_world [CmdStart]) (map (keystroke demo_uri demo_range) ''xc'')))
   \<and> count_list (effects (run (run demo_world [CmdStart]) (map (keystroke demo_uri demo_range) ''xc'')))
        (PlaySound Wrong) = 1"
proof -
  let ?w = "run demo_world [CmdStart]" and ?cat = "\<lparr>name = ''cat'', word_trans = [''n. cat'']\<rparr>"
  have h: "isStart (ps ?w)" "\<not> hasWrong (ps ?w)"
    "\<not> sublist ''vscode'' (scheme demo_uri)" "currentWord (ps ?w) = Some ?cat"
    "0 < length (name ?cat)" "currentInput (ps ?w) = take 0 (name ?cat)"
    "\<not> same_char (name ?cat ! 0) CHR ''x''"
    by (simp_all add: demo_started demo_state_def demo_library_def demo_inv_eval demo_uri_not_vscode
        same_char_def lower_char_def)
  have e: "count_list (effects ?w) (PlaySound x) = 0" "position (ps ?w) = 0" for x
    by (simp_all add: demo_eval position_def demo_started)
  let ?v = "run ?w (map (keystroke demo_uri demo_range) ''xc'')"
  have "position (ps ?v) = position (ps ?w) \<and> hasWrong (ps ?v)
      \<and> count_list (effects ?v) (PlaySound Wrong) = Suc (count_list (effects ?w) (PlaySound Wrong))"
    using wrong_key_signals_once [OF h, of demo_range "''c''"] by blast
  then show ?thesis using e by simp
qed

section \<open>The typing buffer in every reachable world\<close>

text \<open>
  C8: In every reachable world (any order of events, exceptions included) the typed buffer
  is well formed: without the wrong flag it is a correct (case-folded) prefix of the current
  word, shorter than the word unless both are empty; with the wrong flag it is a correct
  prefix followed by exactly one wrong character. This is the Typing / Correct / Wrong loop
  of spec section 4.2.
\<close>

theorem reach_input_ok:
  assumes "reach w"
  shows "input_ok (ps w)"
  using assms
proof (induction rule: reach.induct)
  case (init p c)
  then show ?case by (simp add: activate_def fresh_state_def input_ok_reset)
next
  case (step w e)
  then show ?case by (simp add: input_ok_step)
qed

theorem reach_input_ok_witness:
  "input_ok (ps (run demo_world [CmdStart, keystroke demo_uri demo_range (CHR ''x'')]))"
proof -
  have "reach (run demo_world [CmdStart, keystroke demo_uri demo_range (CHR ''x'')])"
    by (rule reach_run [OF demo_reach]) (simp add: keystroke_def)
  then show ?thesis by (rule reach_input_ok)
qed

section \<open>The invariant of the specification on safe runs\<close>

lemma demo_safe_reach: "safe_reach demo_world"
  unfolding demo_world_def
  by (rule safe_reach.init) (simp_all add: fresh_state_def demo_state_def demo_library_def demo_inv_eval)

lemmas demo_step_eval = demo_eval cmdNextWord_def nextWord_def cmdChangeChapter_def chapter_items_def
  onDidChangeConfiguration_def setChapterLength_def quickPickClosed_def chapterChosen_def setChapter_def
  chapter_pick_open_def

text \<open>
  C3: On every run that avoids the two unsafe configuration changes, the chapter index stays
  below \<open>totalChapters\<close>, the word index resolves to a word of the current chapter, and the
  current word exists.
\<close>

theorem safe_reach_word_valid:
  assumes "safe_reach w"
  shows "chapterIndex (ps w) < totalChapters (ps w) \<and> order (ps w) < length (chapterWords (ps w))
    \<and> currentWord (ps w) \<noteq> None"
  using safe_reach_world_inv [OF assms] by (simp add: world_inv_def plugin_inv_def currentWord_some)

theorem safe_reach_word_valid_witness:
  "chapterIndex (ps (run demo_world [CmdStart, CmdNextWord, CmdNextWord])) = 1
   \<and> chapterIndex (ps (run demo_world [CmdStart, CmdNextWord, CmdNextWord]))
       < totalChapters (ps (run demo_world [CmdStart, CmdNextWord, CmdNextWord]))
   \<and> order (ps (run demo_world [CmdStart, CmdNextWord, CmdNextWord]))
       < length (chapterWords (ps (run demo_world [CmdStart, CmdNextWord, CmdNextWord])))"
proof -
  have r: "safe_reach (run demo_world [CmdStart, CmdNextWord, CmdNextWord])"
    by (rule safe_reach_run [OF demo_safe_reach]) (simp add: demo_step_eval)
  have "chapterIndex (ps (run demo_world [CmdStart, CmdNextWord, CmdNextWord])) = 1"
    by (simp add: demo_step_eval)
  then show ?thesis using safe_reach_word_valid [OF r] by simp
qed

text \<open>
  C4: On a safe run, no listener, command or callback throws, except the text-document
  listener on an event whose \<open>contentChanges\<close> is empty (see C26).
\<close>

theorem safe_reach_no_exception:
  assumes "safe_reach w" "enabled w e" "safe_event w e" "\<forall>u. e \<noteq> TextDocumentChanged u []"
  shows "is_ok (step w e)"
  using world_inv_step [OF safe_reach_world_inv [OF assms(1)] assms(2-4)] by simp

theorem safe_reach_no_exception_witness: "is_ok (step demo_world CmdStart)"
  by (rule safe_reach_no_exception [OF demo_safe_reach]) simp_all

text \<open>
  C26: While practice is running, a change event of an ordinary document with an empty
  \<open>contentChanges\<close> list (the editor sends one when only the dirty state of a document
  changes) makes the listener throw a \<open>TypeError\<close> at \<open>e.contentChanges[0]\<close>.
\<close>

theorem empty_changes_type_error:
  assumes "isStart (ps w)" "\<not> sublist ''vscode'' (scheme u)"
  shows "step w (TextDocumentChanged u []) = Exc TypeError w"
  using assms by (simp add: onDidChangeTextDocument_def)

theorem empty_changes_type_error_witness:
  "step (run demo_world [CmdStart]) (TextDocumentChanged demo_uri []) = Exc TypeError (run demo_world [CmdStart])"
proof (rule empty_changes_type_error)
  show "isStart (ps (run demo_world [CmdStart]))" by (simp add: demo_started)
qed (rule demo_uri_not_vscode)

section \<open>Voice and read-only mode\<close>

text \<open>
  C10: In every reachable world at most one voice playback is in flight, and the extension
  requests a new one only when none is in flight.
\<close>

theorem voice_no_overlap:
  assumes "reach w"
  shows "pendingVoice w \<le> 1 \<and> (shouldPlayVoice (ps w) \<longrightarrow> pendingVoice w = 0)"
  using reach_voice_inv [OF assms] by (auto simp: voice_inv_def shouldPlayVoice_def)

theorem voice_no_overlap_witness:
  "pendingVoice (run demo_world [CmdStart]) = 1 \<and> pendingVoice (run demo_world [CmdStart]) \<le> 1"
proof -
  have r: "reach (run demo_world [CmdStart])" by (rule reach_run [OF demo_reach]) (simp add: demo_eval)
  have "pendingVoice (run demo_world [CmdStart]) = 1" by (simp add: demo_eval)
  then show ?thesis using voice_no_overlap [OF r] by simp
qed

text \<open>
  C11: Toggling read-only mode on and then off again, from a reachable world outside
  read-only mode, leaves no active timer: no interval runs and none can fire, so words
  advance only on input.
\<close>

theorem toggle_read_only_twice_no_timer:
  assumes "reach w" "\<not> readOnlyMode (ps w)"
  shows "activeIntervals (cmdToggleReadOnlyMode (cmdToggleReadOnlyMode w)) = []
    \<and> readOnlyIntervalId (ps (cmdToggleReadOnlyMode (cmdToggleReadOnlyMode w))) = None
    \<and> \<not> readOnlyMode (ps (cmdToggleReadOnlyMode (cmdToggleReadOnlyMode w)))
    \<and> (\<forall>i. \<not> enabled (cmdToggleReadOnlyMode (cmdToggleReadOnlyMode w)) (IntervalFired i))"
proof -
  have t: "timers_inv w" using reach_timers_inv [OF assms(1)] .
  with assms(2) have "readOnlyIntervalId (ps w) = None" "activeIntervals w = []" "0 < nextTimerId w"
    by (auto simp: timers_inv_def split: option.splits)
  then show ?thesis using assms(2)
    by (simp add: cmdToggleReadOnlyMode_def setUpReadOnlyInterval_def removeReadOnlyInterval_def
        handle_truthy_def set_ps_def Let_def)
qed

theorem toggle_read_only_twice_no_timer_witness:
  "activeIntervals (cmdToggleReadOnlyMode (cmdToggleReadOnlyMode demo_world)) = []
   \<and> readOnlyIntervalId (ps (cmdToggleReadOnlyMode (cmdToggleReadOnlyMode demo_world))) = None"
  using toggle_read_only_twice_no_timer [OF demo_reach] by (simp add: demo_eval)

text \<open>
  C12: The voice lock is released only by the voice player's completion callback. If a
  playback never calls back (a failure, which spec section 7 says is not surfaced), then on
  every later run of events without that callback the lock stays set and not a single
  voice is requested again: words advance silently for the rest of the session.
\<close>

theorem voice_lost_mutes_forever:
  assumes "voiceLock (ps w)" "VoiceFinished \<notin> set es"
  shows "voiceLock (ps (run w es)) \<and> filter is_voice (effects (run w es)) = filter is_voice (effects w)"
  using assms
proof (induction es arbitrary: w)
  case Nil
  then show ?case by simp
next
  case (Cons e es)
  have "voice_view (state_of (step w e)) = voice_view w"
    using Cons.prems by (intro step_locked) auto
  then have "voiceLock (ps (state_of (step w e)))"
      "filter is_voice (effects (state_of (step w e))) = filter is_voice (effects w)"
    using Cons.prems(1) by (simp_all add: voice_view_def)
  with Cons.IH [of "state_of (step w e)"] Cons.prems(2) show ?case by simp
qed

theorem voice_lost_mutes_forever_witness:
  "voiceLock (ps (run (run demo_world [CmdStart]) [CmdNextWord, CmdToggleReadOnlyMode, CmdNextWord]))
   \<and> filter is_voice (effects (run (run demo_world [CmdStart]) [CmdNextWord, CmdToggleReadOnlyMode, CmdNextWord]))
     = [PlayVoice ''cat'']"
proof -
  have "voiceLock (ps (run demo_world [CmdStart]))" by (simp add: demo_started)
  moreover have "filter is_voice (effects (run demo_world [CmdStart])) = [PlayVoice ''cat'']"
    by (simp add: demo_eval)
  ultimately show ?thesis
    using voice_lost_mutes_forever [of "run demo_world [CmdStart]" "[CmdNextWord, CmdToggleReadOnlyMode, CmdNextWord]"]
    by simp
qed

section \<open>Navigation, read-only mode and the chapter pick\<close>


lemma nav_voiceLock:
  "finishWord (s\<lparr>voiceLock := b\<rparr>) = (finishWord s)\<lparr>voiceLock := b\<rparr>"
  "prevWord (s\<lparr>voiceLock := b\<rparr>) = (prevWord s)\<lparr>voiceLock := b\<rparr>"
  by (simp_all add: finishWord_def prevWord_def reset_input_def Let_def)

lemma initializeBar_ps_cases:
  "ps (state_of (initializeBar w)) = ps w \<or>
   ps (state_of (initializeBar w)) = (ps w)\<lparr>voiceLock := True\<rparr>"
  using initializeBar_frame(1) [of w] by (auto simp: voice_after_def)

lemma cmd_nav_ps:
  "\<exists>b. ps (state_of (cmdNextWord w)) = (nextWord (ps w))\<lparr>voiceLock := b\<rparr>"
  "\<exists>b. ps (state_of (cmdPrevWord w)) = (prevWord (ps w))\<lparr>voiceLock := b\<rparr>"
proof -
  have "ps (state_of (initializeBar (set_ps p w))) = p\<lparr>voiceLock := voiceLock (ps (state_of (initializeBar (set_ps p w))))\<rparr>" for p
    using initializeBar_ps_cases [of "set_ps p w"] by (auto simp: set_ps_def)
  then show "\<exists>b. ps (state_of (cmdNextWord w)) = (nextWord (ps w))\<lparr>voiceLock := b\<rparr>"
    "\<exists>b. ps (state_of (cmdPrevWord w)) = (prevWord (ps w))\<lparr>voiceLock := b\<rparr>"
    unfolding cmdNextWord_def cmdPrevWord_def by blast+
qed

text \<open>
  C15: Moving to the next word and back with the two status-bar commands returns to the same word.
\<close>

theorem cmd_next_prev_roundtrip:
  assumes "plugin_inv (ps w)"
  shows "chapterIndex (ps (state_of (cmdPrevWord (state_of (cmdNextWord w))))) = chapterIndex (ps w)
    \<and> order (ps (state_of (cmdPrevWord (state_of (cmdNextWord w))))) = order (ps w)"
proof -
  obtain b where b: "ps (state_of (cmdNextWord w)) = (nextWord (ps w))\<lparr>voiceLock := b\<rparr>"
    using cmd_nav_ps(1) by blast
  obtain b' where b': "ps (state_of (cmdPrevWord (state_of (cmdNextWord w)))) =
      (prevWord (ps (state_of (cmdNextWord w))))\<lparr>voiceLock := b'\<rparr>"
    using cmd_nav_ps(2) by blast
  have "prevWord (nextWord (ps w)) = reset_input (ps w)" using assms by (rule prevWord_nextWord)
  then show ?thesis using b b' by (simp add: nav_voiceLock reset_input_def)
qed

text \<open>
  C16: Moving to the previous word and forward again with the two commands returns to the same word.
\<close>

theorem cmd_prev_next_roundtrip:
  assumes "plugin_inv (ps w)"
  shows "chapterIndex (ps (state_of (cmdNextWord (state_of (cmdPrevWord w))))) = chapterIndex (ps w)
    \<and> order (ps (state_of (cmdNextWord (state_of (cmdPrevWord w))))) = order (ps w)"
proof -
  obtain b where b: "ps (state_of (cmdPrevWord w)) = (prevWord (ps w))\<lparr>voiceLock := b\<rparr>"
    using cmd_nav_ps(2) by blast
  obtain b' where b': "ps (state_of (cmdNextWord (state_of (cmdPrevWord w)))) =
      (nextWord (ps (state_of (cmdPrevWord w))))\<lparr>voiceLock := b'\<rparr>"
    using cmd_nav_ps(1) by blast
  have "nextWord (prevWord (ps w)) = reset_input (ps w)" using assms by (rule nextWord_prevWord)
  then show ?thesis using b b' by (simp add: nav_voiceLock nextWord_def reset_input_def)
qed

text \<open>
  C5: The commands implement cyclic navigation over the whole dictionary: next adds one to the global word index and previous subtracts one, modulo the dictionary size (chapters roll over, the last word wraps to the first).
\<close>

theorem cmd_navigation_refines_cycle:
  assumes "plugin_inv (ps w)"
  shows "position (ps (state_of (cmdNextWord w))) = Suc (position (ps w)) mod length (dictWords (ps w))
    \<and> position (ps (state_of (cmdPrevWord w))) =
        (position (ps w) + length (dictWords (ps w)) - 1) mod length (dictWords (ps w))"
proof -
  obtain b where b: "ps (state_of (cmdNextWord w)) = (nextWord (ps w))\<lparr>voiceLock := b\<rparr>"
    using cmd_nav_ps(1) by blast
  obtain b' where b': "ps (state_of (cmdPrevWord w)) = (prevWord (ps w))\<lparr>voiceLock := b'\<rparr>"
    using cmd_nav_ps(2) by blast
  show ?thesis using b b' finishWord_position [OF assms] prevWord_position [OF assms]
    by (simp add: nextWord_def)
qed



lemma readOnlyTick_ps:
  "\<exists>b. ps (state_of (readOnlyTick w)) = (finishWord (ps w))\<lparr>voiceLock := b\<rparr>"
proof -
  have "ps (state_of (initializeBar (set_ps p w))) =
      p\<lparr>voiceLock := voiceLock (ps (state_of (initializeBar (set_ps p w))))\<rparr>" for p
    using initializeBar_ps_cases [of "set_ps p w"] by (auto simp: set_ps_def)
  then show ?thesis unfolding readOnlyTick_def by blast
qed

lemma ticks_position:
  assumes "plugin_inv (ps w)"
  shows "plugin_inv (ps (run w (replicate k (IntervalFired j))))
    \<and> dictWords (ps (run w (replicate k (IntervalFired j)))) = dictWords (ps w)
    \<and> position (ps (run w (replicate k (IntervalFired j)))) = (position (ps w) + k) mod length (dictWords (ps w))"
  using assms
proof (induction k arbitrary: w)
  case 0
  then show ?case by (simp add: plugin_inv_position)
next
  case (Suc k)
  obtain b where b: "ps (state_of (readOnlyTick w)) = (finishWord (ps w))\<lparr>voiceLock := b\<rparr>"
    using readOnlyTick_ps by blast
  have i1: "plugin_inv (ps (state_of (readOnlyTick w)))" using b finishWord_inv [OF Suc.prems] by simp
  have d1: "dictWords (ps (state_of (readOnlyTick w))) = dictWords (ps w)" using b by simp
  have p1: "position (ps (state_of (readOnlyTick w))) = Suc (position (ps w)) mod length (dictWords (ps w))"
    using b finishWord_position [OF Suc.prems] by simp
  show ?case using Suc.IH [OF i1] d1 p1 by (simp add: mod_add_left_eq)
qed

text \<open>
  C18: In read-only mode the interval visits every word: from any valid position, some number of ticks below the dictionary size shows any given word of the dictionary.
\<close>

theorem read_only_ticks_visit_every_word:
  assumes inv: "plugin_inv (ps w)" and i: "i < length (dictWords (ps w))"
  shows "\<exists>k < length (dictWords (ps w)).
           position (ps (run w (replicate k (IntervalFired j)))) = i
         \<and> currentWord (ps (run w (replicate k (IntervalFired j)))) = Some (dictWords (ps w) ! i)"
proof -
  let ?n = "length (dictWords (ps w))" and ?p = "position (ps w)"
  let ?k = "(i + ?n - ?p) mod ?n"
  have p: "?p < ?n" using inv by (simp add: plugin_inv_position)
  have "(?p + ?k) mod ?n = (?p + (i + ?n - ?p)) mod ?n" by (simp add: mod_add_right_eq)
  also have "?p + (i + ?n - ?p) = i + ?n" using p by simp
  finally have pos: "(?p + ?k) mod ?n = i" using i by simp
  have k: "?k < ?n" using p by (intro mod_less_divisor) linarith
  show ?thesis
    using ticks_position [OF inv, of ?k j] pos k currentWord_inv by (intro exI [of _ ?k]) auto
qed

text \<open>
  C17: Every item of the chapter pick round-trips: the chapter number printed by toString and read back by parseInt minus one selects exactly that chapter, at its first word, without an exception.
\<close>

theorem chapter_pick_roundtrip:
  assumes inv: "plugin_inv (ps w)" and i: "i < length (chapter_items (ps w))"
  shows "is_ok (chapterChosen (chapter_items (ps w) ! i) w)
    \<and> chapterIndex (ps (state_of (chapterChosen (chapter_items (ps w) ! i) w))) = i
    \<and> order (ps (state_of (chapterChosen (chapter_items (ps w) ! i) w))) = 0
    \<and> plugin_inv (ps (state_of (chapterChosen (chapter_items (ps w) ! i) w)))"
proof -
  have item: "chapter_items (ps w) ! i = string_of_nat (Suc i)" and t: "i < totalChapters (ps w)"
    using chapter_item_nth [OF i] by simp_all
  have eq: "chapterChosen (chapter_items (ps w) ! i) w = initializeBar (set_ps (setChapter i (ps w)) w)"
    by (simp add: item chapterChosen_def)
  have pi: "plugin_inv (setChapter i (ps w))" using inv t by (simp add: setChapter_inv)
  then have ok: "is_ok (initializeBar (set_ps (setChapter i (ps w)) w))"
    by (subst initializeBar_ok) (simp_all add: set_ps_def currentWord_some)
  have "plugin_inv (ps (state_of (initializeBar (set_ps (setChapter i (ps w)) w))))"
    using pi by (simp add: plugin_inv_def totalChapters_def chapterWords_def dictWords_def set_ps_def)
  then show ?thesis using ok eq by (simp add: set_ps_def setChapter_def reset_input_def)
qed


lemma demo_started_inv: "plugin_inv (ps (run demo_world [CmdStart]))"
  by (simp add: demo_started demo_state_def demo_library_def demo_inv_eval)

lemma demo_started_pos: "chapterIndex (ps (run demo_world [CmdStart])) = 0"
  "order (ps (run demo_world [CmdStart])) = 0" "position (ps (run demo_world [CmdStart])) = 0"
  "length (dictWords (ps (run demo_world [CmdStart]))) = 3"
  by (simp_all add: demo_started demo_state_def demo_library_def position_def dictWords_def getDictFile_def)

theorem cmd_next_prev_roundtrip_witness:
  "chapterIndex (ps (state_of (cmdPrevWord (state_of (cmdNextWord (run demo_world [CmdStart])))))) = 0
   \<and> order (ps (state_of (cmdPrevWord (state_of (cmdNextWord (run demo_world [CmdStart])))))) = 0"
  using cmd_next_prev_roundtrip [OF demo_started_inv] demo_started_pos by simp

theorem cmd_prev_next_roundtrip_witness:
  "chapterIndex (ps (state_of (cmdNextWord (state_of (cmdPrevWord (run demo_world [CmdStart])))))) = 0
   \<and> order (ps (state_of (cmdNextWord (state_of (cmdPrevWord (run demo_world [CmdStart])))))) = 0"
  using cmd_prev_next_roundtrip [OF demo_started_inv] demo_started_pos by simp

theorem cmd_navigation_refines_cycle_witness:
  "position (ps (state_of (cmdNextWord (run demo_world [CmdStart])))) = 1
   \<and> position (ps (state_of (cmdPrevWord (run demo_world [CmdStart])))) = 2"
  using cmd_navigation_refines_cycle [OF demo_started_inv] demo_started_pos by simp

theorem read_only_ticks_visit_every_word_witness:
  "\<exists>k < 3. position (ps (run (run demo_world [CmdStart]) (replicate k (IntervalFired 1)))) = 2"
  using read_only_ticks_visit_every_word [OF demo_started_inv, of 2 1] demo_started_pos by auto

theorem chapter_pick_roundtrip_witness:
  "is_ok (chapterChosen (chapter_items (ps (run demo_world [CmdStart])) ! 1) (run demo_world [CmdStart]))
   \<and> chapterIndex (ps (state_of (chapterChosen (chapter_items (ps (run demo_world [CmdStart])) ! 1)
        (run demo_world [CmdStart])))) = 1"
proof -
  have "1 < length (chapter_items (ps (run demo_world [CmdStart])))"
    by (simp add: chapter_items_def demo_started demo_state_def demo_library_def demo_inv_eval)
  then show ?thesis using chapter_pick_roundtrip [OF demo_started_inv] by simp
qed

text \<open>
  C19: The dictionary pick round trip: from a state satisfying the invariant, the
  \<open>changeDict\<close> command offers the keys of the dictionaries in library order, and choosing
  the i-th item switches to that dictionary at the first word of its first chapter, with an
  empty input, the pick closed, the invariant kept and no exception.
\<close>

theorem dict_pick_roundtrip:
  assumes inv: "plugin_inv (ps w)" and act: "\<not> deactivated w" and i: "i < length (dictionaries (ps w))"
  shows "valid_run w [CmdChangeDict, QuickPickClosed (Some i)]
    \<and> is_ok (step w CmdChangeDict) \<and> is_ok (step (run w [CmdChangeDict]) (QuickPickClosed (Some i)))
    \<and> dictKey (ps (run w [CmdChangeDict, QuickPickClosed (Some i)])) = fst (dictionaries (ps w) ! i)
    \<and> chapterIndex (ps (run w [CmdChangeDict, QuickPickClosed (Some i)])) = 0
    \<and> order (ps (run w [CmdChangeDict, QuickPickClosed (Some i)])) = 0
    \<and> currentInput (ps (run w [CmdChangeDict, QuickPickClosed (Some i)])) = []
    \<and> quickPick (run w [CmdChangeDict, QuickPickClosed (Some i)]) = None
    \<and> plugin_inv (ps (run w [CmdChangeDict, QuickPickClosed (Some i)]))"
proof -
  let ?keys = "map fst (dictionaries (ps w))"
  let ?k = "fst (dictionaries (ps w) ! i)"
  let ?v = "set_ps (setDictKey ?k (ps w)) (w\<lparr>quickPick := None\<rparr>)"
  have s1: "step w CmdChangeDict = Ok (w\<lparr>quickPick := Some (DictPick ?keys)\<rparr>)"
    using inv by (simp add: cmdChangeDict_def plugin_inv_def)
  have s2: "step (w\<lparr>quickPick := Some (DictPick ?keys)\<rparr>) (QuickPickClosed (Some i)) = initializeBar ?v"
    using i by (simp add: quickPickClosed_def dictChosen_def)
  have k: "?k \<in> set ?keys" using i by simp
  have pv: "plugin_inv (ps ?v)" using setDictKey_inv [OF inv k] by (simp add: set_ps_def)
  then have ok: "is_ok (initializeBar ?v)" by (simp add: initializeBar_is_ok currentWord_some)
  have "plugin_inv (ps (state_of (initializeBar ?v)))"
    using pv by (simp add: plugin_inv_def totalChapters_def chapterWords_def dictWords_def)
  then show ?thesis
    using s1 s2 ok act i by (simp add: set_ps_def setDictKey_def reset_input_def)
qed

theorem dict_pick_roundtrip_witness:
  "plugin_inv (ps demo_world) \<and> 1 < length (dictionaries (ps demo_world))
   \<and> dictKey (ps (run demo_world [CmdChangeDict, QuickPickClosed (Some 1)])) = ''gre''
   \<and> plugin_inv (ps (run demo_world [CmdChangeDict, QuickPickClosed (Some 1)]))"
proof -
  have inv: "plugin_inv (ps demo_world)"
    by (simp add: demo_world_def activate_def demo_state_def demo_library_def demo_inv_eval)
  have l: "1 < length (dictionaries (ps demo_world))"
    by (simp add: demo_world_def activate_def demo_state_def demo_library_def)
  show ?thesis
    using dict_pick_roundtrip [OF inv demo_active l] inv l
    by (simp add: demo_world_def activate_def demo_state_def demo_library_def)
qed

section \<open>The status-bar items and their commands\<close>

lemma demo_started_visible: "item_visible (bar_of (run demo_world [CmdStart]) b)"
  by (cases b) (simp_all add: demo_eval)

text \<open>
  C20: In every reachable world a click on the previous-word item runs the previous-word
  command, one on the next-word item the next-word command and one on the translation item
  the voice command, whenever the item is shown and the extension has not been deactivated;
  the word and input items carry no command and a click on them runs nothing.
\<close>

theorem status_bar_clicks:
  assumes "reach w"
  shows "bar_click w PrevWordBar =
           (if item_visible (prevWordItem w) \<and> \<not> deactivated w then Some CmdPrevWord else None)
    \<and> bar_click w NextWordBar =
           (if item_visible (nextWordItem w) \<and> \<not> deactivated w then Some CmdNextWord else None)
    \<and> bar_click w TransBar =
           (if item_visible (transBar w) \<and> \<not> deactivated w then Some CmdPlayVoice else None)
    \<and> bar_click w WordBar = None \<and> bar_click w InputBar = None"
proof -
  have "item_command (bar_of w b) = item_command (bar_of (activate demo_state demo_config) b)" for b
    by (rule reach_bar_command [OF assms])
  from this [of PrevWordBar] this [of NextWordBar] this [of TransBar] this [of WordBar]
    this [of InputBar]
  show ?thesis by (simp add: bar_click_def activate_def bar_item_def command_event_def PLAY_VOICE_COMMAND_def
      PREV_WORD_COMMAND_def NEXT_WORD_COMMAND_def)
qed

theorem status_bar_clicks_witness:
  "reach (run demo_world [CmdStart])
   \<and> bar_click (run demo_world [CmdStart]) PrevWordBar = Some CmdPrevWord
   \<and> bar_click (run demo_world [CmdStart]) NextWordBar = Some CmdNextWord
   \<and> bar_click (run demo_world [CmdStart]) TransBar = Some CmdPlayVoice"
proof -
  have r: "reach (run demo_world [CmdStart])"
    by (rule reach_run [OF demo_reach]) simp
  have d: "\<not> deactivated (run demo_world [CmdStart])"
    by (simp only: run.simps step_deactivated) simp
  have v: "item_visible (prevWordItem (run demo_world [CmdStart]))"
    "item_visible (nextWordItem (run demo_world [CmdStart]))"
    "item_visible (transBar (run demo_world [CmdStart]))"
    using demo_started_visible [of PrevWordBar] demo_started_visible [of NextWordBar]
      demo_started_visible [of TransBar] by simp_all
  show ?thesis using status_bar_clicks [OF r] r d v by simp
qed

text \<open>
  C21: On every safe run the five status-bar items are shown exactly while practice is
  started: the start command shows them after a refresh that cannot throw there, stopping
  hides them, and no other event touches either.
\<close>

theorem safe_reach_bars_follow_start:
  assumes "safe_reach w"
  shows "item_visible (bar_of w b) = isStart (ps w)"
  using assms
proof (induction rule: safe_reach.induct)
  case (init p c)
  then show ?case by (cases b) (simp_all add: activate_def bar_item_def fresh_state_def)
next
  case (step w e)
  have "plugin_inv (ps w)"
    using safe_reach_world_inv [OF step.hyps(1)] by (simp add: world_inv_def)
  then have "currentWord (ps w) \<noteq> None" by (rule currentWord_some)
  then show ?case
    using step.IH step_bars [of e w b] cmdStart_bars(1) [of w] cmdStart_bars(3) [of w b]
    by (cases "e = CmdStart") (auto simp: bar_shape_def)
qed

theorem safe_reach_bars_follow_start_witness:
  "safe_reach (run demo_world [CmdStart]) \<and> item_visible (bar_of (run demo_world [CmdStart]) PrevWordBar)"
proof -
  have s: "safe_reach (run demo_world [CmdStart])"
    by (rule safe_reach_run [OF demo_safe_reach]) simp
  show ?thesis
    using safe_reach_bars_follow_start [OF s, of PrevWordBar] s demo_run_started by simp
qed

text \<open>
  C30: Outside safe runs the start command can leave practice started with every item
  hidden: after a chapter length of 0 in the settings, \<open>qwerty-learner.start\<close> sets
  \<open>isStart\<close>, the refresh before \<open>wordBar.show()\<close> throws, and the items stay hidden; the
  document listener is live all the same and deletes the next character the user types.
\<close>

theorem failed_start_hides_bars:
  "reach (run demo_world [ConfigurationChanged [''qwerty-learner.chapterLength''] (demo_config\<lparr>cfgChapterLength := 0\<rparr>), CmdStart])
   \<and> \<not> is_ok (step (run demo_world [ConfigurationChanged [''qwerty-learner.chapterLength''] (demo_config\<lparr>cfgChapterLength := 0\<rparr>)]) CmdStart)
   \<and> isStart (ps (run demo_world [ConfigurationChanged [''qwerty-learner.chapterLength''] (demo_config\<lparr>cfgChapterLength := 0\<rparr>), CmdStart]))
   \<and> (\<forall>b. \<not> item_visible (bar_of (run demo_world [ConfigurationChanged [''qwerty-learner.chapterLength''] (demo_config\<lparr>cfgChapterLength := 0\<rparr>), CmdStart]) b))
   \<and> ApplyDelete demo_uri (revert_range demo_range)
       \<in> set (effects (run demo_world [ConfigurationChanged [''qwerty-learner.chapterLength''] (demo_config\<lparr>cfgChapterLength := 0\<rparr>), CmdStart,
                                       keystroke demo_uri demo_range (CHR ''c'')]))"
proof -
  define e0 where "e0 = ConfigurationChanged [''qwerty-learner.chapterLength''] (demo_config\<lparr>cfgChapterLength := 0\<rparr>)"
  define w0 where "w0 = run demo_world [e0]"
  define w1 where "w1 = state_of (step w0 CmdStart)"
  have runs: "run demo_world [e0, CmdStart] = w1"
    "run demo_world [e0, CmdStart, keystroke demo_uri demo_range (CHR ''c'')]
       = state_of (step w1 (keystroke demo_uri demo_range (CHR ''c'')))"
    by (simp_all only: w1_def w0_def run.simps)
  have cw: "currentWord (ps w0) = None" and s0: "\<not> isStart (ps w0)"
    by (simp_all add: w0_def e0_def demo_step_eval)
  have v0: "\<not> item_visible (bar_of w0 b)" for b
    using config_bars(1) [of demo_world _ _ b]
    by (cases b) (simp_all add: w0_def e0_def bar_shape_def demo_eval)
  have r0: "reach w0" unfolding w0_def by (rule reach_run [OF demo_reach]) (simp add: e0_def)
  have d0: "\<not> deactivated w0"
    by (simp only: w0_def e0_def run.simps step_deactivated demo_active event.distinct simp_thms)
  have r1: "reach w1" unfolding w1_def using reach.step [OF r0, of CmdStart] d0 by simp
  have x1: "step w0 CmdStart = Exc TypeError (set_ps ((ps w0)\<lparr>isStart := True\<rparr>) w0)"
    using s0 cw by (simp add: cmdStart_no_word)
  have s1: "isStart (ps w1)" and v1: "\<not> item_visible (bar_of w1 b)" for b
    using cmdStart_bars(1) [of w0] cmdStart_bars(3) [of w0 b] s0 cw v0 by (simp_all add: w1_def)
  have k: "ApplyDelete demo_uri (revert_range demo_range)
      \<in> set (effects (state_of (step w1 (keystroke demo_uri demo_range (CHR ''c'')))))"
    using x1 cw
    by (simp add: w1_def keystroke_def onDidChangeTextDocument_def demo_uri_not_vscode compareResult_def
        getCurrentInputBarContent_def emit_def set_input_text_def set_ps_def Let_def)
  show ?thesis
    unfolding e0_def [symmetric] w0_def [symmetric] runs using r1 x1 s1 v1 k by simp
qed

text \<open>
  C23: The word-visibility command masks and unmasks the word: with a current word, one toggle
  makes the word item show the placeholder repeated once per letter if the word was visible,
  or the word itself if it was masked; a second toggle shows the other again and restores
  the plugin state, up to the voice lock (each refresh may start the word's voice).
\<close>

theorem word_visibility_toggle:
  assumes cw: "currentWord (ps w) = Some wd" and act: "\<not> deactivated w"
  shows "item_text (wordBar (run w [CmdToggleWordVisibility])) =
      (if wordVisibility (ps w) then concat (replicate (length (name wd)) (placeholder (ps w))) else name wd)
    \<and> item_text (wordBar (run w [CmdToggleWordVisibility, CmdToggleWordVisibility])) =
      (if wordVisibility (ps w) then name wd else concat (replicate (length (name wd)) (placeholder (ps w))))
    \<and> (ps (run w [CmdToggleWordVisibility, CmdToggleWordVisibility]))\<lparr>voiceLock := voiceLock (ps w)\<rparr> = ps w"
proof -
  define flip where "flip = (\<lambda>v. set_ps ((ps v)\<lparr>wordVisibility := \<not> wordVisibility (ps v)\<rparr>) v)"
  have st: "state_of (cmdToggleWordVisibility v) = state_of (initializeBar (flip v))" for v
    by (simp add: cmdToggleWordVisibility_def flip_def)
  have cw1: "currentWord (ps (flip v)) = currentWord (ps v)" for v by (simp add: flip_def ps_frames)
  have ps1: "ps (state_of (step v CmdToggleWordVisibility)) =
      (if currentWord (ps v) = None then ps (flip v) else voice_after (ps (flip v)))" for v
    using initializeBar_frame(1) [of "flip v"] cw1 [of v]
    by (simp add: st getInitialWordBarContent_None)
  have wtext: "item_text (wordBar (state_of (step v CmdToggleWordVisibility))) =
      (if wordVisibility (ps v) then concat (replicate (length (name x)) (placeholder (ps v))) else name x)"
    if "currentWord (ps v) = Some x" for v x
    using initializeBar_word_text [of "flip v"] that
    by (simp add: st flip_def ps_frames getInitialWordBarContent_def)
  have cw2: "currentWord (ps (state_of (step w CmdToggleWordVisibility))) = Some wd"
    using cw ps1 [of w] cw1 [of w] by (simp add: voice_after_def)
  have rest: "wordVisibility (ps (state_of (step w CmdToggleWordVisibility))) = (\<not> wordVisibility (ps w))"
    "placeholder (ps (state_of (step w CmdToggleWordVisibility))) = placeholder (ps w)"
    using ps1 [of w] by (simp_all add: flip_def ps_frames voice_after_def)
  have "(ps (run w [CmdToggleWordVisibility, CmdToggleWordVisibility]))\<lparr>voiceLock := voiceLock (ps w)\<rparr> = ps w"
    using ps1 [of w] ps1 [of "state_of (step w CmdToggleWordVisibility)"] cw cw2
    by (simp add: flip_def ps_frames voice_after_def)
  then show ?thesis
    using wtext [OF cw] wtext [OF cw2] rest act by simp
qed

theorem word_visibility_toggle_witness:
  "item_text (wordBar (run demo_world [CmdToggleWordVisibility])) = ''___''
   \<and> item_text (wordBar (run demo_world [CmdToggleWordVisibility, CmdToggleWordVisibility])) = ''cat''"
proof -
  have cw: "currentWord (ps demo_world) = Some \<lparr>name = ''cat'', word_trans = [''n. cat'']\<rparr>"
    by (simp add: demo_world_def activate_def demo_state_def demo_library_def demo_inv_eval)
  have p: "wordVisibility (ps demo_world)" "placeholder (ps demo_world) = ''_''"
    by (simp_all add: demo_world_def activate_def demo_state_def)
  show ?thesis using word_visibility_toggle [OF cw demo_active] p by simp
qed

section \<open>The configuration listener\<close>

text \<open>
  C22: The configuration listener on every branch: it stores the new configuration; a
  placeholder change sets the placeholder; a chapter-length change sets the length and
  goes back to the first word of the first chapter, but only when the placeholder refresh
  before it did not throw (no current word); and the callback throws exactly when one of its
  refreshes finds no current word.
\<close>

theorem config_listener_branches:
  "cfg (state_of (onDidChangeConfiguration w keys c)) = c
   \<and> placeholder (ps (state_of (onDidChangeConfiguration w keys c))) =
       (if ''qwerty-learner.placeholder'' \<in> set keys then cfgPlaceholder c else placeholder (ps w))
   \<and> (chapterLength (ps (state_of (onDidChangeConfiguration w keys c))),
       chapterIndex (ps (state_of (onDidChangeConfiguration w keys c))),
       order (ps (state_of (onDidChangeConfiguration w keys c)))) =
       (if ''qwerty-learner.chapterLength'' \<in> set keys
           \<and> (if ''qwerty-learner.placeholder'' \<in> set keys then currentWord (ps w) \<noteq> None else True)
        then (cfgChapterLength c, 0, 0) else (chapterLength (ps w), chapterIndex (ps w), order (ps w)))
   \<and> is_ok (onDidChangeConfiguration w keys c) =
       ((if ''qwerty-learner.placeholder'' \<in> set keys then currentWord (ps w) \<noteq> None else True)
        \<and> (if ''qwerty-learner.chapterLength'' \<in> set keys
            then currentWord (setChapterLength (cfgChapterLength c) (ps w)) \<noteq> None else True))"
proof -
  obtain r1 where r1: "(if ''qwerty-learner.placeholder'' \<in> set keys
          then initializeBar (set_ps ((ps (w\<lparr>cfg := c\<rparr>))\<lparr>placeholder := cfgPlaceholder c\<rparr>) (w\<lparr>cfg := c\<rparr>))
          else Ok (w\<lparr>cfg := c\<rparr>)) = r1" by blast
  note f = config_first [OF r1]
  show ?thesis
  proof (cases r1)
    case (Ok v)
    obtain r2 where r2: "(if ''qwerty-learner.chapterLength'' \<in> set keys
      then initializeBar (set_ps (setChapterLength (cfgChapterLength c) (ps v)) v) else Ok v) = r2" by blast
    have cw: "currentWord (setChapterLength (cfgChapterLength c) (ps v)) =
        currentWord (setChapterLength (cfgChapterLength c) (ps w))"
      by (rule currentWord_setChapterLength) (use f Ok in simp)
    have "onDidChangeConfiguration w keys c = r2"
      using r1 r2 Ok by (simp add: onDidChangeConfiguration_def Let_def)
    then show ?thesis using f config_second [OF r2] Ok cw by auto
  next
    case (Exc e v)
    have "onDidChangeConfiguration w keys c = r1"
      using r1 Exc by (simp add: onDidChangeConfiguration_def Let_def)
    then show ?thesis using f Exc by (auto split: if_splits)
  qed
qed

theorem config_listener_branches_witness:
  "chapterLength (ps (run demo_world [ConfigurationChanged [''qwerty-learner.chapterLength''] (demo_config\<lparr>cfgChapterLength := 0\<rparr>),
      ConfigurationChanged [''qwerty-learner.placeholder'', ''qwerty-learner.chapterLength''] demo_config])) = 0
   \<and> \<not> is_ok (step (run demo_world [ConfigurationChanged [''qwerty-learner.chapterLength''] (demo_config\<lparr>cfgChapterLength := 0\<rparr>)])
      (ConfigurationChanged [''qwerty-learner.placeholder'', ''qwerty-learner.chapterLength''] demo_config))"
proof -
  define w0 where "w0 = run demo_world [ConfigurationChanged [''qwerty-learner.chapterLength''] (demo_config\<lparr>cfgChapterLength := 0\<rparr>)]"
  have cw: "currentWord (ps w0) = None" and l0: "chapterLength (ps w0) = 0"
    by (simp_all add: w0_def demo_step_eval)
  have "run demo_world [ConfigurationChanged [''qwerty-learner.chapterLength''] (demo_config\<lparr>cfgChapterLength := 0\<rparr>),
      ConfigurationChanged [''qwerty-learner.placeholder'', ''qwerty-learner.chapterLength''] demo_config]
      = state_of (onDidChangeConfiguration w0 [''qwerty-learner.placeholder'', ''qwerty-learner.chapterLength''] demo_config)"
    by (simp only: w0_def run.simps step.simps)
  then show ?thesis
    using config_listener_branches [of w0 "[''qwerty-learner.placeholder'', ''qwerty-learner.chapterLength'']" demo_config]
      cw l0 unfolding w0_def [symmetric] by simp
qed

section \<open>The guards of the document listener\<close>
text \<open>
  C24: The document listener changes nothing when practice is stopped, when the document scheme contains "vscode" (settings and other editor-internal documents), or when the first change is not a single character; in particular the change event caused by its own delete edit (empty text) is ignored.
\<close>

theorem listener_guards:
  assumes "\<not> isStart (ps w) \<or> sublist ''vscode'' (scheme u) \<or> (chs \<noteq> [] \<and> length (change_text (hd chs)) \<noteq> 1)"
  shows "onDidChangeTextDocument w u chs = Ok w"
  using assms by (auto simp: onDidChangeTextDocument_def split: list.split)

theorem listener_guards_witness:
  "onDidChangeTextDocument (run demo_world [CmdStart]) demo_uri [ContentChange demo_range [] 1]
   = Ok (run demo_world [CmdStart])"
  by (rule listener_guards) simp


section \<open>The delete edit restores the user's document\<close>

text \<open>
  C6: The listener undoes what the user typed (spec section 4.3: intercept and revert, so
  that the user's file is not corrupted): when a character other than a line break is
  typed at a valid position of a document, the edits the listener requests, applied by the
  editor to the changed document, give back the document as it was, on every branch of
  the listener (correct key, wrong key, completed word, pending wrong highlight).
\<close>

theorem listener_reverts_typed_char:
  assumes "valid_doc d" "valid_pos d p" "x \<noteq> nl" "isStart (ps w)" "\<not> sublist ''vscode'' (scheme u)"
  shows "host_apply u (apply_edit d (Range p p) [x])
           (new_effects w (onDidChangeTextDocument w u [ContentChange (Range p p) [x] 0])) = d"
  unfolding host_apply_listener [OF assms(4,5)] by (rule revert_insertion [OF assms(1-3)])

theorem listener_reverts_typed_char_witness:
  "host_apply demo_uri [''azbc'']
     (new_effects (run demo_world [CmdStart])
       (onDidChangeTextDocument (run demo_world [CmdStart]) demo_uri
          [ContentChange (Range (Pos 0 1) (Pos 0 1)) ''z'' 0])) = [''abc'']"
  using listener_reverts_typed_char [of "[''abc'']" "Pos 0 1" "CHR ''z''" "run demo_world [CmdStart]" demo_uri]
    demo_run_started by (simp add: valid_doc_def demo_uri_not_vscode)

section \<open>The asynchronous delete edit and later keystrokes\<close>

text \<open>
  C7: Typing any text without line breaks at one position of a document, one character at
  a time, leaves the document unchanged when the editor applies each requested delete edit
  before the next keystroke: the composition of the listener with the editor's edits
  restores the user's file after every keystroke, and no edit is left pending.
\<close>

theorem prompt_edits_restore_document:
  assumes "valid_doc (sdoc s)" "valid_pos (sdoc s) p" "nl \<notin> set cs" "isStart (ps (sw s))"
    "\<not> sublist ''vscode'' (scheme u)" "pending s = []"
  shows "sdoc (sys_run u s (concat (map (\<lambda>c. [UserTypes p c, HostApplies]) cs))) = sdoc s
    \<and> pending (sys_run u s (concat (map (\<lambda>c. [UserTypes p c, HostApplies]) cs))) = []"
  using assms
proof (induction cs arbitrary: s)
  case Nil
  then show ?case by simp
next
  case (Cons c cs)
  let ?s' = "sys_run u s [UserTypes p c, HostApplies]"
  have cn: "c \<noteq> nl" using Cons.prems(3) by auto
  note tt = type_then_apply [OF Cons.prems(1,2) cn Cons.prems(4,5,6)]
  have s': "sdoc ?s' = sdoc s" "pending ?s' = []" "isStart (ps (sw ?s'))"
    using tt by blast+
  have "sys_run u s (concat (map (\<lambda>c. [UserTypes p c, HostApplies]) (c # cs))) =
      sys_run u ?s' (concat (map (\<lambda>c. [UserTypes p c, HostApplies]) cs))"
    using sys_run_append [of u s "[UserTypes p c, HostApplies]"] by simp
  with Cons.IH [of ?s'] Cons.prems s' show ?case by simp
qed

theorem prompt_edits_restore_document_witness:
  "sdoc (sys_run demo_uri \<lparr>sw = run demo_world [CmdStart], sdoc = [''ab''], sversion = 0, pending = []\<rparr>
      (concat (map (\<lambda>c. [UserTypes (Pos 0 1) c, HostApplies]) ''cat''))) = [''ab'']
   \<and> pending (sys_run demo_uri \<lparr>sw = run demo_world [CmdStart], sdoc = [''ab''], sversion = 0, pending = []\<rparr>
      (concat (map (\<lambda>c. [UserTypes (Pos 0 1) c, HostApplies]) ''cat''))) = []"
proof -
  let ?s = "\<lparr>sw = run demo_world [CmdStart], sdoc = [''ab''], sversion = 0, pending = []\<rparr>"
  have h: "valid_doc (sdoc ?s)" "valid_pos (sdoc ?s) (Pos 0 1)" "nl \<notin> set ''cat''"
    "pending ?s = []"
    by (simp_all add: valid_doc_def)
  have i: "isStart (ps (sw ?s))" by (simp only: session.select_convs demo_run_started)
  from prompt_edits_restore_document [OF h(1-3) i demo_uri_not_vscode h(4)]
  show ?thesis by (simp only: session.select_convs)
qed

text \<open>
  C36: Keystrokes that arrive before the previous delete edit is applied leave typed
  characters in the user's document. Each delete edit carries the document version of its
  own change event, and the editor refuses it once a later keystroke has changed the
  document. Typing "c" and then "a" after the "x" of "xy" gives "xcay"; the editor refuses
  the edit for "c" and applies the one for "a", so the document ends as "xcy" with nothing
  left pending: the "c" stays in the user's file.
\<close>

theorem late_edits_keep_typed_char:
  "sdoc (sys_run demo_uri \<lparr>sw = run demo_world [CmdStart], sdoc = [''xy''], sversion = 0, pending = []\<rparr>
      [UserTypes (Pos 0 1) (CHR ''c''), UserTypes (Pos 0 2) (CHR ''a'')]) = [''xcay'']
   \<and> sdoc (sys_run demo_uri \<lparr>sw = run demo_world [CmdStart], sdoc = [''xy''], sversion = 0, pending = []\<rparr>
      [UserTypes (Pos 0 1) (CHR ''c''), UserTypes (Pos 0 2) (CHR ''a''), HostApplies, HostApplies]) = [''xcy'']
   \<and> pending (sys_run demo_uri \<lparr>sw = run demo_world [CmdStart], sdoc = [''xy''], sversion = 0, pending = []\<rparr>
      [UserTypes (Pos 0 1) (CHR ''c''), UserTypes (Pos 0 2) (CHR ''a''), HostApplies, HostApplies]) = []"
proof -
  let ?s0 = "\<lparr>sw = run demo_world [CmdStart], sdoc = [''xy''], sversion = 0, pending = []\<rparr>"
  let ?s1 = "sys_step demo_uri ?s0 (UserTypes (Pos 0 1) (CHR ''c''))"
  let ?s2 = "sys_step demo_uri ?s1 (UserTypes (Pos 0 2) (CHR ''a''))"
  have i0: "isStart (ps (sw ?s0))" by (simp only: session.select_convs demo_run_started)
  note t1 = user_types_step [OF i0 demo_uri_not_vscode, of "Pos 0 1" "CHR ''c''"]
  have i1: "isStart (ps (sw ?s1))" by (simp only: t1(4) i0)
  note t2 = user_types_step [OF i1 demo_uri_not_vscode, of "Pos 0 2" "CHR ''a''"]
  have d2: "sdoc ?s2 = [''xcay'']" unfolding t2(2) t1(2) by simp
  have v2: "sversion ?s2 = 2" unfolding t2(3) t1(3) by simp
  have p2: "pending ?s2 = [(Range (Pos 0 1) (Pos 0 2), 1), (Range (Pos 0 2) (Pos 0 3), 2)]"
    unfolding t2(1) t1(1) t1(3) by simp
  let ?s3 = "sys_step demo_uri ?s2 HostApplies"
  have ne: "1 \<noteq> sversion ?s2" unfolding v2 by simp
  note r3 = host_refuses_step [OF p2 ne, of demo_uri]
  have p3: "pending ?s3 = [(Range (Pos 0 2) (Pos 0 3), sversion ?s3)]"
    by (simp only: r3(1) r3(3) v2)
  note h4 = host_applies_step [OF p3, of demo_uri]
  have "sdoc (sys_step demo_uri ?s3 HostApplies) = [''xcy'']" unfolding h4(2) r3(2) d2 by simp
  with d2 h4(1) show ?thesis by simp
qed

section \<open>What the code does not guarantee\<close>

text \<open>
  C27: The invariant of the specification does not hold on every run. Open the chapter
  pick (two chapters of two words), raise the chapter length to 3 in the settings while the
  pick is open (one chapter left), then choose the stale item "2": the chapter index is 1
  of 1 chapters and refreshing the bar throws a \<open>TypeError\<close> (no current word).
\<close>

theorem stale_chapter_pick_breaks_invariant:
  "reach (run demo_world [CmdChangeChapter,
      ConfigurationChanged [''qwerty-learner.chapterLength''] (demo_config\<lparr>cfgChapterLength := 3\<rparr>),
      QuickPickClosed (Some 1)])
   \<and> chapterIndex (ps (run demo_world [CmdChangeChapter,
      ConfigurationChanged [''qwerty-learner.chapterLength''] (demo_config\<lparr>cfgChapterLength := 3\<rparr>),
      QuickPickClosed (Some 1)])) = 1
   \<and> totalChapters (ps (run demo_world [CmdChangeChapter,
      ConfigurationChanged [''qwerty-learner.chapterLength''] (demo_config\<lparr>cfgChapterLength := 3\<rparr>),
      QuickPickClosed (Some 1)])) = 1
   \<and> \<not> plugin_inv (ps (run demo_world [CmdChangeChapter,
      ConfigurationChanged [''qwerty-learner.chapterLength''] (demo_config\<lparr>cfgChapterLength := 3\<rparr>),
      QuickPickClosed (Some 1)]))
   \<and> \<not> is_ok (step (run demo_world [CmdChangeChapter,
      ConfigurationChanged [''qwerty-learner.chapterLength''] (demo_config\<lparr>cfgChapterLength := 3\<rparr>)])
      (QuickPickClosed (Some 1)))"
proof -
  let ?es = "[CmdChangeChapter,
      ConfigurationChanged [''qwerty-learner.chapterLength''] (demo_config\<lparr>cfgChapterLength := 3\<rparr>),
      QuickPickClosed (Some 1)]"
  have "reach (run demo_world ?es)"
    by (rule reach_run [OF demo_reach]) (simp add: demo_step_eval)
  moreover have "chapterIndex (ps (run demo_world ?es)) = 1" "totalChapters (ps (run demo_world ?es)) = 1"
    by (simp_all add: demo_step_eval)
  moreover have "\<not> is_ok (step (run demo_world (butlast ?es)) (QuickPickClosed (Some 1)))"
    by (simp add: demo_step_eval)
  ultimately show ?thesis by (simp add: plugin_inv_def)
qed

text \<open>
  C28: A chapter length of 0 in the settings (the configuration is not validated) leaves the
  plugin without a current word: the invariant fails and the refresh after the change
  throws a \<open>TypeError\<close>.
\<close>

theorem zero_chapter_length_breaks_invariant:
  "reach (run demo_world [ConfigurationChanged [''qwerty-learner.chapterLength''] (demo_config\<lparr>cfgChapterLength := 0\<rparr>)])
   \<and> \<not> plugin_inv (ps (run demo_world [ConfigurationChanged [''qwerty-learner.chapterLength'']
        (demo_config\<lparr>cfgChapterLength := 0\<rparr>)]))
   \<and> currentWord (ps (run demo_world [ConfigurationChanged [''qwerty-learner.chapterLength'']
        (demo_config\<lparr>cfgChapterLength := 0\<rparr>)])) = None
   \<and> \<not> is_ok (step demo_world (ConfigurationChanged [''qwerty-learner.chapterLength'']
        (demo_config\<lparr>cfgChapterLength := 0\<rparr>)))"
proof -
  let ?e = "ConfigurationChanged [''qwerty-learner.chapterLength''] (demo_config\<lparr>cfgChapterLength := 0\<rparr>)"
  have "reach (run demo_world [?e])" by (rule reach_run [OF demo_reach]) simp
  moreover have "currentWord (ps (run demo_world [?e])) = None" "\<not> is_ok (step demo_world ?e)"
    by (simp_all add: demo_step_eval)
  ultimately show ?thesis by (auto simp: currentWord_some)
qed

text \<open>
  C29: The read-only interval is not tied to practice being started: toggling read-only mode
  while stopped starts the interval, and each tick advances the word and plays its voice
  although the extension is stopped and its bars are hidden.
\<close>

theorem interval_ticks_while_stopped:
  "reach (run demo_world [CmdToggleReadOnlyMode, IntervalFired 1])
   \<and> \<not> isStart (ps (run demo_world [CmdToggleReadOnlyMode, IntervalFired 1]))
   \<and> activeIntervals (run demo_world [CmdToggleReadOnlyMode, IntervalFired 1]) = [1]
   \<and> order (ps (run demo_world [CmdToggleReadOnlyMode, IntervalFired 1])) = 1
   \<and> PlayVoice ''dog'' \<in> set (effects (run demo_world [CmdToggleReadOnlyMode, IntervalFired 1]))
   \<and> \<not> item_visible (wordBar (run demo_world [CmdToggleReadOnlyMode, IntervalFired 1]))"
proof -
  have "reach (run demo_world [CmdToggleReadOnlyMode, IntervalFired 1])"
    by (rule reach_run [OF demo_reach]) (simp add: demo_eval)
  then show ?thesis by (simp add: demo_eval)
qed

text \<open>
  C35: Deactivation does not tear the session down, although spec section 3 says the timer is
  cleared on deactivation: \<open>src/index.ts\<close> exports no \<open>deactivate\<close>, and the workspace
  listeners were not added to \<open>context.subscriptions\<close>. After the host deactivates the
  extension, the commands are gone (read-only mode can no longer be toggled off) but the
  read-only interval keeps firing, advancing words and playing their voice, and a started
  session keeps intercepting and deleting what the user types.
\<close>

theorem deactivation_leaves_callbacks_live:
  "reach (run demo_world [CmdToggleReadOnlyMode, Deactivate, IntervalFired 1])
   \<and> deactivated (run demo_world [CmdToggleReadOnlyMode, Deactivate])
   \<and> \<not> enabled (run demo_world [CmdToggleReadOnlyMode, Deactivate]) CmdToggleReadOnlyMode
   \<and> activeIntervals (run demo_world [CmdToggleReadOnlyMode, Deactivate, IntervalFired 1]) = [1]
   \<and> order (ps (run demo_world [CmdToggleReadOnlyMode, Deactivate, IntervalFired 1])) = 1
   \<and> PlayVoice ''dog'' \<in> set (effects (run demo_world [CmdToggleReadOnlyMode, Deactivate, IntervalFired 1]))
   \<and> ApplyDelete demo_uri (revert_range demo_range)
       \<in> set (effects (run demo_world [CmdStart, Deactivate, keystroke demo_uri demo_range (CHR ''c'')]))"
proof -
  have r: "reach (run demo_world [CmdToggleReadOnlyMode, Deactivate, IntervalFired 1])"
    by (rule reach_run [OF demo_reach]) (simp add: demo_eval)
  have d: "deactivated (run demo_world [CmdToggleReadOnlyMode, Deactivate])
     \<and> \<not> enabled (run demo_world [CmdToggleReadOnlyMode, Deactivate]) CmdToggleReadOnlyMode"
    by simp
  have t: "activeIntervals (run demo_world [CmdToggleReadOnlyMode, Deactivate, IntervalFired 1]) = [1]
     \<and> order (ps (run demo_world [CmdToggleReadOnlyMode, Deactivate, IntervalFired 1])) = 1
     \<and> PlayVoice ''dog'' \<in> set (effects (run demo_world [CmdToggleReadOnlyMode, Deactivate, IntervalFired 1]))"
    by (simp add: demo_eval)
  have k: "ApplyDelete demo_uri (revert_range demo_range)
     \<in> set (effects (run demo_world [CmdStart, Deactivate, keystroke demo_uri demo_range (CHR ''c'')]))"
    by (simp add: demo_eval keystroke_def onDidChangeTextDocument_def getCurrentInputBarContent_def
        compareResult_def compareWord_def same_char_def set_input_text_def file_not_vscode demo_uri_def)
  from r d t k show ?thesis by blast
qed

text \<open>
  C31: With several carets the editor delivers one change per caret, but the listener reads
  only \<open>contentChanges[0]\<close>: it deletes one inserted character and compares one, and the
  characters typed at the other carets stay in the user's document.
\<close>

theorem multi_caret_reverts_first_only:
  "effects (run (run demo_world [CmdStart])
      [TextDocumentChanged demo_uri [ContentChange (Range (Pos 0 1) (Pos 0 1)) ''c'' 0,
                                     ContentChange (Range (Pos 3 1) (Pos 3 1)) ''c'' 0]])
   = effects (run demo_world [CmdStart]) @
       [ApplyDelete demo_uri (Range (Pos 0 1) (Pos 0 2)), PlaySound Click]
   \<and> currentInput (ps (run (run demo_world [CmdStart])
      [TextDocumentChanged demo_uri [ContentChange (Range (Pos 0 1) (Pos 0 1)) ''c'' 0,
                                     ContentChange (Range (Pos 3 1) (Pos 3 1)) ''c'' 0]])) = ''c''
   \<and> host_apply demo_uri [''acb'', ''dce'']
       (new_effects (run demo_world [CmdStart])
         (onDidChangeTextDocument (run demo_world [CmdStart]) demo_uri
            [ContentChange (Range (Pos 0 1) (Pos 0 1)) ''c'' 0,
             ContentChange (Range (Pos 1 1) (Pos 1 1)) ''c'' 0])) = [''ab'', ''dce'']"
  apply (intro conjI)
  subgoal
    by (simp add: demo_eval onDidChangeTextDocument_def getCurrentInputBarContent_def compareResult_def
      compareWord_def same_char_def set_input_text_def file_not_vscode demo_uri_def)
  subgoal
    by (simp add: demo_eval onDidChangeTextDocument_def getCurrentInputBarContent_def compareResult_def
      compareWord_def same_char_def set_input_text_def file_not_vscode demo_uri_def)
  subgoal by (subst host_apply_listener [OF demo_run_started demo_uri_not_vscode]) simp
  done

text \<open>
  C32: A typed character that replaces a selection is not reverted: the listener deletes
  from the start of the replaced range to one character past its end, computed in the
  changed document. Selecting "bc" in "abcd" and typing "x" gives "axd"; the listener's edit
  then deletes "xd", leaving "a": the selection and the character after it are lost.
\<close>

theorem selection_replacement_corrupts:
  "apply_edit [''abcd''] (Range (Pos 0 1) (Pos 0 3)) ''x'' = [''axd'']
   \<and> host_apply demo_uri [''axd'']
       (new_effects (run demo_world [CmdStart])
         (onDidChangeTextDocument (run demo_world [CmdStart]) demo_uri
            [ContentChange (Range (Pos 0 1) (Pos 0 3)) ''x'' 2])) = [''a'']"
  using demo_run_started by (simp add: host_apply_listener demo_uri_not_vscode)

text \<open>
  C33: A line break typed as a single character (Enter in a document with LF line endings
  and no indentation) passes the listener's guard but is not reverted: the delete range
  ends one character past the end of the shortened line, which the editor clamps to an
  empty range, so the document keeps the new line break.
\<close>

theorem line_break_not_reverted:
  "apply_edit [''ab''] (Range (Pos 0 1) (Pos 0 1)) [nl] = [''a'', ''b'']
   \<and> host_apply demo_uri [''a'', ''b'']
       (new_effects (run demo_world [CmdStart])
         (onDidChangeTextDocument (run demo_world [CmdStart]) demo_uri
            [ContentChange (Range (Pos 0 1) (Pos 0 1)) [nl] 0])) = [''a'', ''b'']"
  using demo_run_started by (simp add: host_apply_listener demo_uri_not_vscode)

lemma wrong_timeout_ps:
  "currentInput (ps (state_of (step w WrongTimeoutFired))) = []
   \<and> \<not> hasWrong (ps (state_of (step w WrongTimeoutFired)))
   \<and> position (ps (state_of (step w WrongTimeoutFired))) = position (ps w)"
  using initializeBar_ps_cases [of "(set_ps (clearWrong (ps w)) (w\<lparr>pendingWrongTimeouts := pendingWrongTimeouts w - 1\<rparr>))
        \<lparr>inputBar := (inputBar w)\<lparr>item_color := None\<rparr>\<rparr>"]
  by (auto simp: wrongTimeout_def set_ps_def clearWrong_def position_def)

lemma cmd_nav_pending:
  "pendingWrongTimeouts (state_of (cmdNextWord w)) = pendingWrongTimeouts w"
  "pendingWrongTimeouts (state_of (cmdPrevWord w)) = pendingWrongTimeouts w"
  using initializeBar_frame(2) [of "set_ps (nextWord (ps w)) w"] initializeBar_frame(2) [of "set_ps (prevWord (ps w)) w"]
  by (simp_all add: cmdNextWord_def cmdPrevWord_def ctl_def set_ps_def)

text \<open>
  C34: The wrong-input timeout is not cancelled when the word changes. Type a wrong key on
  "cat", move to the next word "dog" with the command (which clears the wrong flag) and type
  its first letter "d": when the old timeout fires it clears the input of the new word, so
  the correct "d" is discarded without any signal. Typing a wrong key on "dog" instead
  leaves two highlight timeouts pending, so the first one ends the second highlight early.
\<close>

theorem stale_wrong_timeout_discards_input:
  "reach (run demo_world [CmdStart, keystroke demo_uri demo_range (CHR ''x''), CmdNextWord,
                          keystroke demo_uri demo_range (CHR ''d'')])
   \<and> currentInput (ps (run demo_world [CmdStart, keystroke demo_uri demo_range (CHR ''x''),
        CmdNextWord, keystroke demo_uri demo_range (CHR ''d'')])) = ''d''
   \<and> pendingWrongTimeouts (run demo_world [CmdStart, keystroke demo_uri demo_range (CHR ''x''),
        CmdNextWord, keystroke demo_uri demo_range (CHR ''d'')]) = 1
   \<and> currentInput (ps (run demo_world [CmdStart, keystroke demo_uri demo_range (CHR ''x''),
        CmdNextWord, keystroke demo_uri demo_range (CHR ''d''), WrongTimeoutFired])) = []
   \<and> position (ps (run demo_world [CmdStart, keystroke demo_uri demo_range (CHR ''x''),
        CmdNextWord, keystroke demo_uri demo_range (CHR ''d''), WrongTimeoutFired])) = 1
   \<and> pendingWrongTimeouts (run demo_world [CmdStart, keystroke demo_uri demo_range (CHR ''x''),
        CmdNextWord, keystroke demo_uri demo_range (CHR ''x'')]) = 2"
proof -
  define kx where "kx = keystroke demo_uri demo_range (CHR ''x'')"
  define kd where "kd = keystroke demo_uri demo_range (CHR ''d'')"
  define w0 where "w0 = run demo_world [CmdStart]"
  define w1 where "w1 = state_of (step w0 kx)"
  define w2 where "w2 = state_of (step w1 CmdNextWord)"
  define w3 where "w3 = state_of (step w2 kd)"
  have runs: "run demo_world [CmdStart, kx, CmdNextWord, kd] = w3"
    "run demo_world [CmdStart, kx, CmdNextWord, kd, WrongTimeoutFired] = state_of (step w3 WrongTimeoutFired)"
    "run demo_world [CmdStart, kx, CmdNextWord, kx] = state_of (step w2 kx)"
    by (simp_all add: w0_def w1_def w2_def w3_def)
  let ?cat = "\<lparr>name = ''cat'', word_trans = [''n. cat'']\<rparr>"
  let ?dog = "\<lparr>name = ''dog'', word_trans = [''n. dog'']\<rparr>"
  have p0: "ps w0 = demo_state\<lparr>isStart := True, voiceLock := True\<rparr>"
    by (simp add: w0_def demo_started)
  have q0: "pendingWrongTimeouts w0 = 0"
    by (simp add: w0_def demo_eval)
  have c0: "currentWord (ps w0) = Some ?cat"
    by (simp add: p0 demo_state_def demo_library_def demo_inv_eval)
  have s1: "ps w1 = wrongInput ((ps w0)\<lparr>currentInput := take 0 (name ?cat) @ [CHR ''x'']\<rparr>)"
      "pendingWrongTimeouts w1 = Suc (pendingWrongTimeouts w0)"
    using key_wrong [of w0 demo_uri ?cat 0 "CHR ''x''" demo_range] c0
    by (simp_all add: w1_def kx_def p0 demo_state_def demo_uri_not_vscode same_char_def lower_char_def)
  obtain b where s2: "ps w2 = (nextWord (ps w1))\<lparr>voiceLock := b\<rparr>"
    using cmd_nav_ps(1) [of w1] by (auto simp: w2_def)
  have q2: "pendingWrongTimeouts w2 = 1"
    using s1 q0 by (simp add: w2_def cmd_nav_pending)
  have p2: "ps w2 = demo_state\<lparr>isStart := True, voiceLock := b, order := 1\<rparr>"
    using s1 by (simp add: s2 p0 nextWord_def finishWord_def reset_input_def wrongInput_def
        demo_state_def demo_library_def demo_inv_eval)
  have i2: "plugin_inv (ps w2)" and c2: "currentWord (ps w2) = Some ?dog"
    by (simp_all add: p2 demo_state_def demo_library_def demo_inv_eval)
  have s3: "step w2 kd = Ok (set_input_text ''d'' (set_ps ((ps w2)\<lparr>currentInput := ''d''\<rparr>)
             (emit (PlaySound Click) (emit (ApplyDelete demo_uri (revert_range demo_range)) w2))))"
    using key_correct [OF i2 _ _ demo_uri_not_vscode c2, of 0 demo_range 0] p2
    by (simp add: kd_def keystroke_def demo_state_def)
  have p3: "ps w3 = (ps w2)\<lparr>currentInput := ''d''\<rparr>" and q3: "pendingWrongTimeouts w3 = 1"
    using q2 by (simp_all add: w3_def s3 set_input_text_def set_ps_def emit_def)
  have p4: "currentInput (ps (state_of (step w3 WrongTimeoutFired))) = []
      \<and> position (ps (state_of (step w3 WrongTimeoutFired))) = 1"
    using wrong_timeout_ps [of w3] by (simp add: p3 p2 position_def demo_state_def)
  have q5: "pendingWrongTimeouts (state_of (step w2 kx)) = 2"
    using key_wrong [of w2 demo_uri ?dog 0 "CHR ''x''" demo_range] c2 q2
    by (simp add: kx_def p2 demo_state_def demo_uri_not_vscode same_char_def lower_char_def)
  have r0: "reach w0" using reach.step [OF demo_reach, of CmdStart] by (simp add: w0_def)
  have r1: "reach w1" using reach.step [OF r0, of kx] by (simp add: w1_def kx_def keystroke_def)
  have d1: "\<not> deactivated w1"
    by (simp only: w1_def w0_def run.simps step_deactivated demo_active kx_def keystroke_def
        event.distinct simp_thms)
  have r2: "reach w2" using reach.step [OF r1, of CmdNextWord] d1 by (simp add: w2_def)
  have r3: "reach w3" using reach.step [OF r2, of kd] by (simp add: w3_def kd_def keystroke_def)
  show ?thesis
    unfolding kx_def [symmetric] kd_def [symmetric] runs using r3 p3 q3 p4 q5 by simp
qed

end
